(* ===== verification/Prelude.thy ===== *)
theory Prelude
  imports Main "HOL-Library.Word" "HOL-Library.List_Lexorder"
begin

text \<open>
  Shared vocabulary of the development: the machine integers and fixed-size byte arrays the Rust
  code computes with, the checked arithmetic of the standard library, results as sums, and the
  lemma collections that the component theories add to.

  Rust's \<open>u8\<close>, \<open>u64\<close>, \<open>u128\<close> and \<open>i64\<close> are words of that width; an \<open>i64\<close> is read with \<open>sint\<close>.
  A Rust \<open>Result\<close> is a sum: \<open>Inl\<close> holds the error, \<open>Inr\<close> the value.  \<open>[u8; 32]\<close>, the representation
  of a hash and of a public key, is the type \<open>bytes32\<close> below, whose order is the lexicographic
  order of Rust arrays.
\<close>

section \<open>Collections of facts\<close>

named_theorems exec_iff \<open>when an operation succeeds, and with which result\<close>
named_theorems checked_defs \<open>definitions of the checked arithmetic\<close>

section \<open>Machine integers\<close>

type_synonym u8 = "8 word"
type_synonym u32 = "32 word"
type_synonym u64 = "64 word"
type_synonym u128 = "128 word"
type_synonym i64 = "64 word"

subsection \<open>Checked arithmetic\<close>

definition checked_add_u64 :: "u64 \<Rightarrow> u64 \<Rightarrow> u64 option" where [checked_defs]:
  "checked_add_u64 a b = (if unat a + unat b < 2 ^ 64 then Some (a + b) else None)"

definition checked_sub_u64 :: "u64 \<Rightarrow> u64 \<Rightarrow> u64 option" where [checked_defs]:
  "checked_sub_u64 a b = (if unat b \<le> unat a then Some (a - b) else None)"

definition checked_mul_u128 :: "u128 \<Rightarrow> u128 \<Rightarrow> u128 option" where [checked_defs]:
  "checked_mul_u128 a b = (if unat a * unat b < 2 ^ 128 then Some (a * b) else None)"

definition checked_div_u128 :: "u128 \<Rightarrow> u128 \<Rightarrow> u128 option" where [checked_defs]:
  "checked_div_u128 a b = (if b = 0 then None else Some (a div b))"

definition in_i64 :: "int \<Rightarrow> bool" where [checked_defs]:
  "in_i64 x \<longleftrightarrow> - (2 ^ 63) \<le> x \<and> x < 2 ^ 63"

definition checked_add_i64 :: "i64 \<Rightarrow> i64 \<Rightarrow> i64 option" where [checked_defs]:
  "checked_add_i64 a b = (if in_i64 (sint a + sint b) then Some (a + b) else None)"

definition checked_sub_i64 :: "i64 \<Rightarrow> i64 \<Rightarrow> i64 option" where [checked_defs]:
  "checked_sub_i64 a b = (if in_i64 (sint a - sint b) then Some (a - b) else None)"

text \<open>The \<open>as\<close> casts the code uses: \<open>i64 as u128\<close> sign-extends, \<open>u128 as u64\<close> truncates.\<close>

definition i64_as_u128 :: "i64 \<Rightarrow> u128" where
  "i64_as_u128 x = scast x"

definition u64_as_u128 :: "u64 \<Rightarrow> u128" where
  "u64_as_u128 x = ucast x"

definition u128_as_u64 :: "u128 \<Rightarrow> u64" where
  "u128_as_u64 x = ucast x"

lemma unat_u64_less: "unat (w :: u64) < 2 ^ 64"
  using unsigned_less [of w] by simp

lemma unat_of_nat_u64: "n < 2 ^ 64 \<Longrightarrow> unat (of_nat n :: u64) = n"
  by (simp add: unat_of_nat take_bit_eq_mod)

lemma checked_add_u64_Some_iff [exec_iff]:
  "checked_add_u64 a b = Some c \<longleftrightarrow> unat c = unat a + unat b"
proof
  assume "checked_add_u64 a b = Some c"
  then show "unat c = unat a + unat b"
    by (auto simp: checked_add_u64_def unat_word_ariths split: if_splits)
next
  assume c: "unat c = unat a + unat b"
  have "unat c < 2 ^ 64"
    using unsigned_less [of c] by simp
  with c have "unat a + unat b < 2 ^ 64" by simp
  moreover from this c have "c = a + b"
    by (simp add: word_unat_eq_iff unat_word_ariths)
  ultimately show "checked_add_u64 a b = Some c"
    by (simp add: checked_add_u64_def)
qed

lemma checked_add_u64_None_iff:
  "checked_add_u64 a b = None \<longleftrightarrow> 2 ^ 64 \<le> unat a + unat b"
  by (auto simp: checked_add_u64_def)

lemma checked_sub_u64_Some_iff [exec_iff]:
  "checked_sub_u64 a b = Some c \<longleftrightarrow> unat b \<le> unat a \<and> unat c = unat a - unat b"
  by (auto simp: checked_sub_u64_def unat_sub_if' word_unat_eq_iff split: if_splits)

lemma checked_sub_u64_None_iff:
  "checked_sub_u64 a b = None \<longleftrightarrow> unat a < unat b"
  by (auto simp: checked_sub_u64_def)

lemma in_i64_sint [simp]: "in_i64 (sint (x :: i64))"
  using sint_ge [of x] sint_lt [of x] by (simp add: in_i64_def)

lemma sint_of_in_i64: "in_i64 x \<Longrightarrow> sint (word_of_int x :: i64) = x"
  by (simp add: in_i64_def sint_sbintrunc' signed_take_bit_int_eq_self)

lemma checked_add_i64_Some_iff [exec_iff]:
  "checked_add_i64 a b = Some c \<longleftrightarrow> sint c = sint a + sint b"
proof -
  have sum: "sint (a + b) = sint a + sint b" if "in_i64 (sint a + sint b)"
    using sint_of_in_i64 [OF that] by simp
  have "in_i64 (sint a + sint b) \<and> c = a + b" if "sint c = sint a + sint b"
  proof -
    from that have inb: "in_i64 (sint a + sint b)"
      by (metis in_i64_sint)
    with that sum have "sint c = sint (a + b)" by simp
    with inb show ?thesis by (simp add: signed_word_eqI)
  qed
  with sum show ?thesis by (auto simp: checked_add_i64_def)
qed

lemma checked_sub_i64_Some_iff [exec_iff]:
  "checked_sub_i64 a b = Some c \<longleftrightarrow> sint c = sint a - sint b"
proof -
  have diff: "sint (a - b) = sint a - sint b" if "in_i64 (sint a - sint b)"
    using sint_of_in_i64 [OF that] by simp
  have "in_i64 (sint a - sint b) \<and> c = a - b" if "sint c = sint a - sint b"
  proof -
    from that have inb: "in_i64 (sint a - sint b)"
      by (metis in_i64_sint)
    with that diff have "sint c = sint (a - b)" by simp
    with inb show ?thesis by (simp add: signed_word_eqI)
  qed
  with diff show ?thesis by (auto simp: checked_sub_i64_def)
qed

subsection \<open>Little-endian bytes of a \<open>u64\<close>\<close>

definition to_le_bytes :: "u64 \<Rightarrow> u8 list" where
  "to_le_bytes w = map (\<lambda>i. ucast (drop_bit (8 * i) w)) [0..<8]"

lemma length_to_le_bytes [simp]: "length (to_le_bytes w) = 8"
  by (simp add: to_le_bytes_def)

lemma bit_to_le_bytes:
  assumes "i < 8" and "j < 8"
  shows "bit (to_le_bytes w ! i) j \<longleftrightarrow> bit w (8 * i + j)"
  using assms by (simp add: to_le_bytes_def bit_ucast_iff bit_drop_bit_eq)

lemma to_le_bytes_inject [simp]: "to_le_bytes v = to_le_bytes w \<longleftrightarrow> v = w"
proof
  assume eq: "to_le_bytes v = to_le_bytes w"
  show "v = w"
  proof (rule bit_word_eqI)
    fix n assume "n < LENGTH(64)"
    then have "n div 8 < 8" and "n mod 8 < 8" by simp_all
    from bit_to_le_bytes [OF this, of v] bit_to_le_bytes [OF this, of w] eq
    show "bit v n \<longleftrightarrow> bit w n" by simp
  qed
qed simp

section \<open>Fixed-size byte arrays\<close>

typedef bytes32 = "{xs :: u8 list. length xs = 32}"
  morphisms to_bytes Bytes32
  by (rule exI [of _ "replicate 32 0"]) simp

lemma length_to_bytes [simp]: "length (to_bytes b) = 32"
  using to_bytes by simp

lemma to_bytes_inject_iff [simp]: "to_bytes a = to_bytes b \<longleftrightarrow> a = b"
  by (rule to_bytes_inject)

text \<open>Rust compares arrays lexicographically.\<close>

instantiation bytes32 :: linorder
begin

definition less_eq_bytes32 :: "bytes32 \<Rightarrow> bytes32 \<Rightarrow> bool" where
  "less_eq_bytes32 a b \<longleftrightarrow> to_bytes a \<le> to_bytes b"

definition less_bytes32 :: "bytes32 \<Rightarrow> bytes32 \<Rightarrow> bool" where
  "less_bytes32 a b \<longleftrightarrow> to_bytes a < to_bytes b"

instance
proof
  fix x y :: bytes32
  show "x < y \<longleftrightarrow> x \<le> y \<and> \<not> y \<le> x"
    by (simp add: less_eq_bytes32_def less_bytes32_def less_le_not_le del: not_le)
  show "x \<le> y \<or> y \<le> x"
    by (simp add: less_eq_bytes32_def linear)
  show "x \<le> y \<Longrightarrow> y \<le> x \<Longrightarrow> x = y"
    by (simp add: less_eq_bytes32_def)
qed (auto simp: less_eq_bytes32_def)

end

instantiation bytes32 :: equal
begin

definition equal_bytes32 :: "bytes32 \<Rightarrow> bytes32 \<Rightarrow> bool" where
  "equal_bytes32 a b \<longleftrightarrow> to_bytes a = to_bytes b"

instance
  by standard (simp add: equal_bytes32_def)

end

text \<open>The array with the same byte everywhere: the concrete keys and hashes of the examples.\<close>

definition fill32 :: "u8 \<Rightarrow> bytes32" where
  "fill32 b = Bytes32 (replicate 32 b)"

lemma to_bytes_fill32 [simp]: "to_bytes (fill32 b) = replicate 32 b"
  by (simp add: fill32_def Bytes32_inverse)

lemma fill32_inject [simp]: "fill32 a = fill32 b \<longleftrightarrow> a = b"
proof
  assume "fill32 a = fill32 b"
  then have "replicate 32 a = replicate 32 b"
    by (metis to_bytes_fill32)
  then show "a = b" by simp
qed simp

lemma replicate_less_eq_iff:
  fixes a b :: "'a::linorder"
  assumes "0 < n"
  shows "replicate n a \<le> replicate n b \<longleftrightarrow> a \<le> b"
proof -
  from assms obtain m where n: "n = Suc m"
    using gr0_implies_Suc by blast
  show ?thesis
    by (cases a b rule: linorder_cases) (auto simp: n)
qed

lemma fill32_less_eq [simp]: "fill32 a \<le> fill32 b \<longleftrightarrow> a \<le> b"
  by (simp add: less_eq_bytes32_def replicate_less_eq_iff)

type_synonym pubkey = bytes32
type_synonym hash = bytes32

text \<open>A byte-string literal \<open>b"..."\<close>.\<close>

definition bytes_of_string :: "string \<Rightarrow> u8 list" where
  "bytes_of_string s = map of_char s"

section \<open>Results\<close>

fun and_then :: "'e + 'a \<Rightarrow> ('a \<Rightarrow> 'e + 'b) \<Rightarrow> 'e + 'b" where
  "and_then (Inl e) f = Inl e"
| "and_then (Inr x) f = f x"

definition ok_or :: "'a option \<Rightarrow> 'e \<Rightarrow> 'e + 'a" where
  "ok_or x e = (case x of None \<Rightarrow> Inl e | Some v \<Rightarrow> Inr v)"

definition require :: "bool \<Rightarrow> 'e \<Rightarrow> 'e + unit" where
  "require b e = (if b then Inr () else Inl e)"

lemma and_then_Inr_iff [exec_iff]:
  "and_then r f = Inr y \<longleftrightarrow> (\<exists>x. r = Inr x \<and> f x = Inr y)"
  by (cases r) auto

lemma ok_or_Inr_iff [exec_iff]: "ok_or x e = Inr v \<longleftrightarrow> x = Some v"
  by (simp add: ok_or_def split: option.splits)

lemma require_Inr_iff [exec_iff]: "require b e = Inr u \<longleftrightarrow> b"
  by (simp add: require_def)

lemma ok_or_simps [simp]: "ok_or (Some v) e = Inr v" "ok_or None e = Inl e"
  by (simp_all add: ok_or_def)

lemma require_simps [simp]: "require True e = Inr ()" "require False e = Inl e"
  by (simp_all add: require_def)

lemma and_then_cong [fundef_cong]:
  assumes "r = r'" and "\<And>x. r' = Inr x \<Longrightarrow> f x = f' x"
  shows "and_then r f = and_then r' f'"
  using assms by (cases r') simp_all

section \<open>Panics and indexing\<close>

text \<open>
  The host-side code indexes vectors, unwraps options and asserts; each of these is a branch of the
  model.  A computation that may panic is a sum whose left side says how.
\<close>

datatype panic =
    IndexOutOfBounds
  | AssertionFailed
  | UnwrapFailed
  | ExplicitPanic
  | ArithmeticPanic

definition index_vec :: "'a list \<Rightarrow> nat \<Rightarrow> panic + 'a" where
  "index_vec xs i = (if i < length xs then Inr (xs ! i) else Inl IndexOutOfBounds)"

definition slice_vec :: "'a list \<Rightarrow> nat \<Rightarrow> nat \<Rightarrow> panic + 'a list" where
  "slice_vec xs a b =
     (if a \<le> b \<and> b \<le> length xs then Inr (take (b - a) (drop a xs)) else Inl IndexOutOfBounds)"

definition unwrap :: "'a option \<Rightarrow> panic + 'a" where
  "unwrap x = ok_or x UnwrapFailed"

lemma index_vec_Inr_iff [exec_iff]: "index_vec xs i = Inr x \<longleftrightarrow> i < length xs \<and> x = xs ! i"
  by (auto simp: index_vec_def)

lemma slice_vec_Inr_iff [exec_iff]:
  "slice_vec xs a b = Inr ys \<longleftrightarrow> a \<le> b \<and> b \<le> length xs \<and> ys = take (b - a) (drop a xs)"
  by (auto simp: slice_vec_def)

lemma unwrap_Inr_iff [exec_iff]: "unwrap x = Inr v \<longleftrightarrow> x = Some v"
  by (simp add: unwrap_def exec_iff)

lemma unwrap_simps [simp]: "unwrap (Some v) = Inr v" "unwrap None = Inl UnwrapFailed"
  by (simp_all add: unwrap_def)

lemma index_vec_in [simp]: "i < length xs \<Longrightarrow> index_vec xs i = Inr (xs ! i)"
  by (simp add: index_vec_def)

text \<open>Collecting the results of a fallible function over a list stops at the first failure.\<close>

fun traverse :: "('a \<Rightarrow> 'e + 'b) \<Rightarrow> 'a list \<Rightarrow> 'e + 'b list" where
  "traverse f [] = Inr []"
| "traverse f (x # xs) = and_then (f x) (\<lambda>y. and_then (traverse f xs) (\<lambda>ys. Inr (y # ys)))"

lemma traverse_Inr_iff [exec_iff]:
  "traverse f xs = Inr ys \<longleftrightarrow> list_all2 (\<lambda>x y. f x = Inr y) xs ys"
  by (induction xs arbitrary: ys) (auto simp: exec_iff list_all2_Cons1)

lemma traverse_all:
  assumes "\<And>x. x \<in> set xs \<Longrightarrow> f x = Inr (g x)"
  shows "traverse f xs = Inr (map g xs)"
  using assms by (induction xs) auto

lemma traverse_enumerate:
  assumes "\<And>i. i < length xs \<Longrightarrow> f (i, xs ! i) = Inr (g i)"
  shows "traverse f (enumerate 0 xs) = Inr (map g [0..<length xs])"
proof -
  have "traverse f (enumerate 0 xs) = Inr (map (\<lambda>(i, x). g i) (enumerate 0 xs))"
    using assms by (intro traverse_all) (auto simp: in_set_enumerate_eq)
  moreover have "map (\<lambda>(i, x). g i) (enumerate 0 xs) = map g [0..<length xs]"
    by (intro nth_equalityI) (auto simp: nth_enumerate_eq)
  ultimately show ?thesis by simp
qed

text \<open>
  A host-side function that returns a \<open>Result\<close> may also panic; the two kinds of failure stay apart.
\<close>

datatype 'e failure = Panicked panic | Returned 'e

fun or_panic :: "panic + 'a \<Rightarrow> 'e failure + 'a" where
  "or_panic (Inl p) = Inl (Panicked p)"
| "or_panic (Inr x) = Inr x"

fun or_return :: "'e + 'a \<Rightarrow> 'e failure + 'a" where
  "or_return (Inl e) = Inl (Returned e)"
| "or_return (Inr x) = Inr x"

lemma or_panic_Inr_iff [exec_iff]: "or_panic r = Inr x \<longleftrightarrow> r = Inr x"
  by (cases r) auto

lemma or_return_Inr_iff [exec_iff]: "or_return r = Inr x \<longleftrightarrow> r = Inr x"
  by (cases r) auto

end
