(* ===== verification/Merkle_Verify.thy ===== *)
theory Merkle_Verify
  imports Prelude
begin

text \<open>
  The on-chain proof check of \<open>verify/src/lib.rs\<close>, together with the two domain-separation
  prefixes that the whole repository hashes with.  The hash function \<open>hashv\<close> of the Solana SDK is a
  parameter: it takes a list of byte slices and returns 32 bytes.
\<close>

section \<open>Hashing\<close>

type_synonym hashv = "u8 list list \<Rightarrow> hash"

definition LEAF_PREFIX :: "u8 list" where
  "LEAF_PREFIX = [0]"

definition INTERMEDIATE_PREFIX :: "u8 list" where
  "INTERMEDIATE_PREFIX = [1]"

text \<open>
  The SDK documents \<open>hashv\<close> as the hash of the slices one after another, so two calls are the
  same computation exactly when their concatenations agree.  Collision freedom is only ever
  supposed of a finite set of calls, those that an honest tree and one submitted proof make; for all
  inputs it would be false of every 32-byte hash.
\<close>

definition collision_free :: "hashv \<Rightarrow> u8 list list set \<Rightarrow> bool" where
  "collision_free h S \<longleftrightarrow> (\<forall>a\<in>S. \<forall>b\<in>S. h a = h b \<longrightarrow> concat a = concat b)"

lemma collision_freeD:
  "collision_free h S \<Longrightarrow> h a = h b \<Longrightarrow> a \<in> S \<Longrightarrow> b \<in> S \<Longrightarrow> concat a = concat b"
  unfolding collision_free_def by blast

lemma collision_free_subset: "collision_free h S \<Longrightarrow> T \<subseteq> S \<Longrightarrow> collision_free h T"
  unfolding collision_free_def by blast

section \<open>The check\<close>

text \<open>One round of the loop: the smaller of the two hashes goes first.\<close>

definition step_input :: "hash \<Rightarrow> hash \<Rightarrow> u8 list list" where
  "step_input computed_hash proof_element =
     (if computed_hash \<le> proof_element
      then [[1], to_bytes computed_hash, to_bytes proof_element]
      else [[1], to_bytes proof_element, to_bytes computed_hash])"

fun verify_loop :: "hashv \<Rightarrow> hash \<Rightarrow> hash list \<Rightarrow> hash" where
  "verify_loop h computed_hash [] = computed_hash"
| "verify_loop h computed_hash (proof_element # proof) =
     verify_loop h (h (step_input computed_hash proof_element)) proof"

definition verify :: "hashv \<Rightarrow> hash list \<Rightarrow> hash \<Rightarrow> hash \<Rightarrow> bool" where
  "verify h proof root leaf \<longleftrightarrow> verify_loop h leaf proof = root"

text \<open>The calls to \<open>hashv\<close> that a check makes, in order.\<close>

fun verify_inputs :: "hashv \<Rightarrow> hash \<Rightarrow> hash list \<Rightarrow> u8 list list list" where
  "verify_inputs h computed_hash [] = []"
| "verify_inputs h computed_hash (proof_element # proof) =
     step_input computed_hash proof_element #
     verify_inputs h (h (step_input computed_hash proof_element)) proof"

lemma step_input_sym: "step_input a b = step_input b a"
  by (auto simp: step_input_def)

lemma step_input_min_max: "step_input a b = [[1], to_bytes (min a b), to_bytes (max a b)]"
  by (auto simp: step_input_def min_def max_def)

lemma concat_step_input_eq:
  assumes "concat (step_input a b) = concat (step_input c d)"
  shows "a \<in> {c, d}"
proof -
  from assms have "min a b = min c d \<and> max a b = max c d"
    by (simp add: step_input_min_max)
  then show ?thesis by (auto simp: min_def max_def split: if_splits)
qed

lemma concat_step_input_not_leaf: "concat (step_input a b) \<noteq> concat [LEAF_PREFIX, x]"
  by (simp add: step_input_min_max LEAF_PREFIX_def)

lemma verify_append:
  "verify_loop h c (xs @ ys) = verify_loop h (verify_loop h c xs) ys"
  by (induction xs arbitrary: c) simp_all

lemma verify_inputs_append:
  "verify_inputs h c (xs @ ys) = verify_inputs h c xs @ verify_inputs h (verify_loop h c xs) ys"
  by (induction xs arbitrary: c) simp_all

end
