(* ===== verification/Program_State.thy ===== *)
theory Program_State
  imports Merkle_Verify
begin

text \<open>
  The state of the on-chain program (\<open>programs/merkle-distributor/src/state\<close>), its error codes
  (\<open>error.rs\<close>), the addresses it derives (\<open>merkle-tree/src/utils.rs\<close>), and the runtime it runs in.

  The Solana runtime, the Anchor framework and the SPL token program are not part of the repository.
  The functions of theirs that the program calls are the fields of the record \<open>solana\<close>, which every
  instruction takes as an argument.  The account attributes of the \<open>#[derive(Accounts)]\<close> structs are
  source: each is written out as the check that Anchor documents for it, in the order of the
  fields.  Lamports, rent and the writable flags of a transaction are not modelled.
\<close>

section \<open>Errors\<close>

datatype error_code =
    InsufficientUnlockedTokens
  | StartTooFarInFuture
  | InvalidProof
  | ExceededMaxClaim
  | MaxNodesExceeded
  | Unauthorized
  | OwnerMismatch
  | ClawbackDuringVesting
  | ClawbackBeforeStart
  | ClawbackAlreadyClaimed
  | InsufficientClawbackDelay
  | SameClawbackReceiver
  | SameAdmin
  | ClaimExpired
  | ArithmeticError
  | StartTimestampAfterEnd
  | TimestampsNotInFuture
  | InvalidVersion
  | ClaimingIsNotStarted
  | CannotCloseDistributor
  | CannotCloseClaimStatus

datatype anchor_error =
    AccountNotInitialized
  | AccountNotSigner
  | ConstraintSeeds
  | ConstraintHasOne
  | ConstraintAddress
  | ConstraintTokenMint
  | ConstraintTokenOwner
  | ConstraintAssociated

datatype program_error =
    Err error_code
  | Anchor anchor_error
  | AccountAlreadyInUse
  | MissingRequiredSignature
  | TokenError nat
  | ProgramPanicked

section \<open>Accounts\<close>

record merkle_distributor =
  md_bump :: u8
  md_version :: u64
  md_root :: hash
  md_mint :: pubkey
  md_base :: pubkey
  md_token_vault :: pubkey
  md_max_total_claim :: u64
  md_max_num_nodes :: u64
  md_total_amount_claimed :: u64
  md_num_nodes_claimed :: u64
  md_start_ts :: i64
  md_end_ts :: i64
  md_clawback_start_ts :: i64
  md_clawback_receiver :: pubkey
  md_admin :: pubkey
  md_clawed_back :: bool
  md_enable_slot :: u64
  md_closable :: bool
  md_buffer_0 :: bytes32
  md_buffer_1 :: bytes32
  md_buffer_2 :: bytes32

record claim_status =
  cs_claimant :: pubkey
  cs_locked_amount :: u64
  cs_locked_amount_withdrawn :: u64
  cs_unlocked_amount :: u64
  cs_closable :: bool
  cs_admin :: pubkey

text \<open>The fields of an SPL token account that the program reads.\<close>

record token_account =
  ta_mint :: pubkey
  ta_owner :: pubkey
  ta_amount :: u64

datatype event =
    NewClaimEvent pubkey i64
  | ClaimedEvent pubkey u64

record chain =
  distributors :: "pubkey \<rightharpoonup> merkle_distributor"
  claim_statuses :: "pubkey \<rightharpoonup> claim_status"
  token_accounts :: "pubkey \<rightharpoonup> token_account"
  mints :: "pubkey set"
  events :: "event list"

section \<open>The runtime\<close>

record solana =
  rt_hashv :: hashv
  find_program_address :: "u8 list list \<Rightarrow> pubkey \<Rightarrow> pubkey \<times> u8"
  create_program_address :: "u8 list list \<Rightarrow> pubkey \<Rightarrow> pubkey option"
  get_associated_token_address :: "pubkey \<Rightarrow> pubkey \<Rightarrow> pubkey"
  spl_transfer :: "(pubkey \<rightharpoonup> token_account) \<Rightarrow> pubkey \<Rightarrow> pubkey \<Rightarrow> pubkey \<Rightarrow> u64 \<Rightarrow>
    program_error + (pubkey \<rightharpoonup> token_account)"

text \<open>What one transaction brings: the clock sysvar, its signers and the program it calls.\<close>

record tx =
  unix_timestamp :: i64
  clock_slot :: u64
  signers :: "pubkey set"
  program_id :: pubkey

subsection \<open>Derived addresses\<close>

definition merkle_distributor_seeds :: "pubkey \<Rightarrow> pubkey \<Rightarrow> u64 \<Rightarrow> u8 list list" where
  "merkle_distributor_seeds base mint version =
     [bytes_of_string ''MerkleDistributor'', to_bytes base, to_bytes mint, to_le_bytes version]"

definition claim_status_seeds :: "pubkey \<Rightarrow> pubkey \<Rightarrow> u8 list list" where
  "claim_status_seeds claimant distributor =
     [bytes_of_string ''ClaimStatus'', to_bytes claimant, to_bytes distributor]"

definition get_merkle_distributor_pda ::
  "solana \<Rightarrow> pubkey \<Rightarrow> pubkey \<Rightarrow> pubkey \<Rightarrow> u64 \<Rightarrow> pubkey \<times> u8" where
  "get_merkle_distributor_pda E program base mint version =
     find_program_address E (merkle_distributor_seeds base mint version) program"

definition get_claim_status_pda :: "solana \<Rightarrow> pubkey \<Rightarrow> pubkey \<Rightarrow> pubkey \<Rightarrow> pubkey \<times> u8" where
  "get_claim_status_pda E program claimant distributor =
     find_program_address E (claim_status_seeds claimant distributor) program"

subsection \<open>Account loading and constraints\<close>

definition load_distributor :: "chain \<Rightarrow> pubkey \<Rightarrow> program_error + merkle_distributor" where
  "load_distributor st k = ok_or (distributors st k) (Anchor AccountNotInitialized)"

definition load_claim_status :: "chain \<Rightarrow> pubkey \<Rightarrow> program_error + claim_status" where
  "load_claim_status st k = ok_or (claim_statuses st k) (Anchor AccountNotInitialized)"

definition load_token_account :: "chain \<Rightarrow> pubkey \<Rightarrow> program_error + token_account" where
  "load_token_account st k = ok_or (token_accounts st k) (Anchor AccountNotInitialized)"

text \<open>\<open>Signer\<close>, \<open>address =\<close>, \<open>has_one\<close>, \<open>token::mint\<close>, \<open>token::authority\<close>, \<open>associated_token\<close>, \<open>init\<close>.\<close>

definition check_signer :: "tx \<Rightarrow> pubkey \<Rightarrow> program_error + unit" where
  "check_signer tx k = require (k \<in> signers tx) (Anchor AccountNotSigner)"

definition check_address :: "pubkey \<Rightarrow> pubkey \<Rightarrow> program_error + unit" where
  "check_address k expected = require (k = expected) (Anchor ConstraintAddress)"

definition check_has_one :: "pubkey \<Rightarrow> pubkey \<Rightarrow> program_error + unit" where
  "check_has_one field k = require (field = k) (Anchor ConstraintHasOne)"

definition check_token_mint :: "token_account \<Rightarrow> pubkey \<Rightarrow> program_error + unit" where
  "check_token_mint a m = require (ta_mint a = m) (Anchor ConstraintTokenMint)"

definition check_token_authority :: "token_account \<Rightarrow> pubkey \<Rightarrow> program_error + unit" where
  "check_token_authority a k = require (ta_owner a = k) (Anchor ConstraintTokenOwner)"

definition check_associated_token ::
  "solana \<Rightarrow> pubkey \<Rightarrow> token_account \<Rightarrow> pubkey \<Rightarrow> pubkey \<Rightarrow> program_error + unit" where
  "check_associated_token E k a m authority =
     and_then (require (ta_owner a = authority) (Anchor ConstraintTokenOwner)) (\<lambda>_.
     require (k = get_associated_token_address E authority m) (Anchor ConstraintAssociated))"

definition in_use :: "chain \<Rightarrow> pubkey \<Rightarrow> bool" where
  "in_use st k \<longleftrightarrow> distributors st k \<noteq> None \<or> claim_statuses st k \<noteq> None \<or>
     token_accounts st k \<noteq> None \<or> k \<in> mints st"

definition check_init :: "chain \<Rightarrow> pubkey \<Rightarrow> program_error + unit" where
  "check_init st k = require (\<not> in_use st k) AccountAlreadyInUse"

lemmas check_defs = load_distributor_def load_claim_status_def load_token_account_def
  check_signer_def check_address_def check_has_one_def check_token_mint_def
  check_token_authority_def check_associated_token_def check_init_def

subsection \<open>The token program called with the distributor's seeds\<close>

text \<open>
  \<open>CpiContext::with_signer\<close>: the runtime accepts the distributor as authority exactly when its
  address is derived from the seeds and the stored bump.
\<close>

definition transfer_signed ::
  "solana \<Rightarrow> tx \<Rightarrow> merkle_distributor \<Rightarrow> pubkey \<Rightarrow> pubkey \<Rightarrow> pubkey \<Rightarrow> u64 \<Rightarrow> chain \<Rightarrow>
     program_error + chain" where
  "transfer_signed E tx d distributor from to amt st =
     and_then (require (create_program_address E
         (merkle_distributor_seeds (md_base d) (md_mint d) (md_version d) @ [[md_bump d]])
         (program_id tx) = Some distributor) MissingRequiredSignature) (\<lambda>_.
     and_then (spl_transfer E (token_accounts st) from to distributor amt) (\<lambda>accs.
     Inr (st\<lparr>token_accounts := accs\<rparr>)))"

lemma transfer_signed_Inr_iff [exec_iff]:
  "transfer_signed E tx d distributor from to amt st = Inr st' \<longleftrightarrow>
     create_program_address E
       (merkle_distributor_seeds (md_base d) (md_mint d) (md_version d) @ [[md_bump d]])
       (program_id tx) = Some distributor \<and>
     (\<exists>accs. spl_transfer E (token_accounts st) from to distributor amt = Inr accs \<and>
       st' = st\<lparr>token_accounts := accs\<rparr>)"
  by (auto simp: transfer_signed_def exec_iff)

text \<open>
  What the token program documents of a transfer that succeeds: the source held the amount, the
  balances move by it, and no other account and no owner or mint changes.
\<close>

definition balance :: "(pubkey \<rightharpoonup> token_account) \<Rightarrow> pubkey \<Rightarrow> nat" where
  "balance accs k = (case accs k of None \<Rightarrow> 0 | Some a \<Rightarrow> unat (ta_amount a))"

definition moves :: "(pubkey \<rightharpoonup> token_account) \<Rightarrow> pubkey \<Rightarrow> pubkey \<Rightarrow> nat \<Rightarrow>
    (pubkey \<rightharpoonup> token_account) \<Rightarrow> bool" where
  "moves accs from to amt accs' \<longleftrightarrow>
     dom accs' = dom accs \<and> from \<in> dom accs \<and> to \<in> dom accs \<and>
     amt \<le> balance accs from \<and>
     (if from = to then balance accs' from = balance accs from
      else balance accs' from = balance accs from - amt \<and> balance accs' to = balance accs to + amt) \<and>
     (\<forall>k. k \<noteq> from \<and> k \<noteq> to \<longrightarrow> accs' k = accs k) \<and>
     (\<forall>k a a'. accs k = Some a \<longrightarrow> accs' k = Some a' \<longrightarrow>
        ta_owner a' = ta_owner a \<and> ta_mint a' = ta_mint a)"

definition spl_transfer_sound :: "solana \<Rightarrow> bool" where
  "spl_transfer_sound E \<longleftrightarrow> (\<forall>accs from to authority amt accs'.
     spl_transfer E accs from to authority amt = Inr accs' \<longrightarrow> moves accs from to (unat amt) accs')"

lemma spl_transfer_moves:
  "spl_transfer_sound E \<Longrightarrow> spl_transfer E accs from to authority amt = Inr accs' \<Longrightarrow>
     moves accs from to (unat amt) accs'"
  unfolding spl_transfer_sound_def by blast

end
