(* ===== verification/Vesting.thy ===== *)
theory Vesting
  imports Program_State
begin

text \<open>
  The vesting schedule of \<open>state/claim_status.rs\<close>: how much of a locked amount is unlocked at a time,
  in the code's checked 64- and 128-bit arithmetic, and its specification over the integers.
\<close>

section \<open>The code\<close>

definition unlocked_amount ::
  "claim_status \<Rightarrow> i64 \<Rightarrow> i64 \<Rightarrow> i64 \<Rightarrow> program_error + u64" where
  "unlocked_amount self curr_ts start_ts end_ts =
     (if sint start_ts \<le> sint curr_ts then
        if sint end_ts \<le> sint curr_ts then Inr (cs_locked_amount self)
        else
          and_then (ok_or (checked_sub_i64 curr_ts start_ts) (Err ArithmeticError)) (\<lambda>time_into_unlock.
          and_then (ok_or (checked_sub_i64 end_ts start_ts) (Err ArithmeticError)) (\<lambda>total_unlock_time.
          and_then (ok_or (checked_mul_u128 (i64_as_u128 time_into_unlock)
                       (u64_as_u128 (cs_locked_amount self))) (Err ArithmeticError)) (\<lambda>product.
          and_then (ok_or (checked_div_u128 product (i64_as_u128 total_unlock_time))
                       (Err ArithmeticError)) (\<lambda>quotient.
          Inr (u128_as_u64 quotient)))))
      else Inr 0)"

definition amount_withdrawable ::
  "claim_status \<Rightarrow> i64 \<Rightarrow> i64 \<Rightarrow> i64 \<Rightarrow> program_error + u64" where
  "amount_withdrawable self curr_ts start_ts end_ts =
     and_then (unlocked_amount self curr_ts start_ts end_ts) (\<lambda>u.
     ok_or (checked_sub_u64 u (cs_locked_amount_withdrawn self)) (Err ArithmeticError))"

section \<open>The schedule\<close>

definition vested :: "nat \<Rightarrow> int \<Rightarrow> int \<Rightarrow> int \<Rightarrow> nat" where
  "vested locked t s e =
     (if t < s then 0 else if e \<le> t then locked else nat (t - s) * locked div nat (e - s))"

lemma vested_le: "vested locked t s e \<le> locked"
proof (cases "s \<le> t \<and> t < e")
  case True
  then have "nat (t - s) * locked \<le> nat (e - s) * locked"
    by (intro mult_right_mono) auto
  then have "nat (t - s) * locked div nat (e - s) \<le> nat (e - s) * locked div nat (e - s)"
    by (rule div_le_mono)
  also have "\<dots> = locked" using True by simp
  finally show ?thesis using True by (simp add: vested_def)
qed (auto simp: vested_def)

lemma vested_mono:
  assumes "t \<le> t'"
  shows "vested locked t s e \<le> vested locked t' s e"
proof (cases "t < s \<or> e \<le> t'")
  case True
  then show ?thesis
  proof
    assume "t < s"
    then show ?thesis by (simp add: vested_def)
  next
    assume "e \<le> t'"
    show ?thesis
    proof (cases "t' < s")
      case True
      with assms show ?thesis by (simp add: vested_def)
    next
      case False
      with \<open>e \<le> t'\<close> have "vested locked t' s e = locked" by (simp add: vested_def)
      then show ?thesis by (simp add: vested_le)
    qed
  qed
next
  case False
  with assms have "nat (t - s) * locked div nat (e - s) \<le> nat (t' - s) * locked div nat (e - s)"
    by (intro div_le_mono mult_right_mono) auto
  with False assms show ?thesis by (simp add: vested_def)
qed

lemma vested_end: "s \<le> t \<Longrightarrow> e \<le> t \<Longrightarrow> vested locked t s e = locked"
  by (simp add: vested_def)

section \<open>The code computes the schedule\<close>

lemma unat_i64_as_u128:
  assumes "0 \<le> sint x"
  shows "unat (i64_as_u128 x) = nat (sint x)"
proof -
  have "sint x < 2 ^ 63" using sint_lt [of x] by simp
  with assms have "sint x mod 2 ^ 128 = sint x" by simp
  moreover have "i64_as_u128 x = word_of_int (sint x)"
    unfolding i64_as_u128_def by (rule scast_eq)
  moreover have "uint (word_of_int (sint x) :: u128) = sint x mod 2 ^ 128"
    by (simp only: uint_word_of_int) simp
  ultimately have "uint (i64_as_u128 x) = sint x"
    by (simp only:)
  then show ?thesis by (metis nat_uint_eq)
qed

lemma unat_u64_as_u128: "unat (u64_as_u128 x) = unat x"
  using unat_u64_less [of x]
  by (simp add: u64_as_u128_def unsigned_ucast_eq take_bit_eq_mod)

lemma unat_u128_as_u64: "unat x < 2 ^ 64 \<Longrightarrow> unat (u128_as_u64 x) = unat x"
  by (simp add: u128_as_u64_def unsigned_ucast_eq take_bit_eq_mod)

lemma checked_mul_u128_Some:
  "unat a * unat b < 2 ^ 128 \<Longrightarrow> checked_mul_u128 a b = Some (a * b) \<and> unat (a * b) = unat a * unat b"
  by (simp add: checked_mul_u128_def unat_mult_lem [THEN iffD1])

text \<open>The product of the doc comment: it never exceeds 128 bits.\<close>

lemma product_fits:
  assumes "x < 2 ^ 63" and "y < (2 :: nat) ^ 64"
  shows "x * y < 2 ^ 128"
proof -
  have "x * y \<le> 2 ^ 63 * 2 ^ 64" using assms by (intro mult_mono) auto
  also have "\<dots> < 2 ^ 128" by simp
  finally show ?thesis .
qed

lemma unlocked_amount_between:
  assumes "sint s \<le> sint t" and "sint t < sint e" and "sint e - sint s < 2 ^ 63"
  shows "\<exists>v. unlocked_amount cs t s e = Inr v \<and>
    unat v = vested (unat (cs_locked_amount cs)) (sint t) (sint s) (sint e)"
proof -
  let ?L = "cs_locked_amount cs"
  have "in_i64 (sint t - sint s)" and "in_i64 (sint e - sint s)"
    using assms by (auto simp: in_i64_def)
  then obtain i n where i: "checked_sub_i64 t s = Some i" and n: "checked_sub_i64 e s = Some n"
    by (simp add: checked_sub_i64_def)
  then have si: "sint i = sint t - sint s" and sn: "sint n = sint e - sint s"
    by (simp_all add: exec_iff)
  have ui: "unat (i64_as_u128 i) = nat (sint t - sint s)"
    and un: "unat (i64_as_u128 n) = nat (sint e - sint s)"
    using assms si sn by (simp_all add: unat_i64_as_u128)
  let ?p = "i64_as_u128 i * u64_as_u128 ?L"
  have "nat (sint t - sint s) < 2 ^ 63" using assms by auto
  from product_fits [OF this unat_u64_less [of ?L]]
  have prod: "checked_mul_u128 (i64_as_u128 i) (u64_as_u128 ?L) = Some ?p"
    and up: "unat ?p = nat (sint t - sint s) * unat ?L"
    using checked_mul_u128_Some [of "i64_as_u128 i" "u64_as_u128 ?L"]
    by (simp_all add: ui unat_u64_as_u128)
  have n0: "i64_as_u128 n \<noteq> 0"
    using un assms by (metis diff_gt_0_iff_gt le_less_trans less_numeral_extra(3) unat_0 zero_less_nat_eq)
  let ?q = "?p div i64_as_u128 n"
  have uq: "unat ?q = vested (unat ?L) (sint t) (sint s) (sint e)"
    using assms by (simp add: unat_div_distrib up un vested_def)
  also have "\<dots> < 2 ^ 64"
    using vested_le unat_u64_less by (rule le_less_trans)
  finally have "unat (u128_as_u64 ?q) = vested (unat ?L) (sint t) (sint s) (sint e)"
    by (simp only: unat_u128_as_u64 uq)
  moreover have "unlocked_amount cs t s e = Inr (u128_as_u64 ?q)"
    using assms i n prod n0 by (simp add: unlocked_amount_def checked_div_u128_def)
  ultimately show ?thesis by blast
qed

lemma unlocked_amount_overflow:
  assumes "sint s \<le> sint t" and "sint t < sint e" and "2 ^ 63 \<le> sint e - sint s"
  shows "unlocked_amount cs t s e = Inl (Err ArithmeticError)"
proof -
  have "checked_sub_i64 e s = None"
    using assms by (auto simp: checked_sub_i64_def in_i64_def)
  with assms show ?thesis
    by (cases "checked_sub_i64 t s") (simp_all add: unlocked_amount_def)
qed

lemma unlocked_amount_Inr_vested:
  assumes "unlocked_amount cs t s e = Inr v"
  shows "unat v = vested (unat (cs_locked_amount cs)) (sint t) (sint s) (sint e)"
proof (cases "sint s \<le> sint t \<and> sint t < sint e")
  case True
  with assms have "sint e - sint s < 2 ^ 63"
    using unlocked_amount_overflow [of s t e cs] by force
  with True unlocked_amount_between [of s t e cs] assms show ?thesis by auto
next
  case False
  with assms show ?thesis by (auto simp: unlocked_amount_def vested_def)
qed

lemma unlocked_amount_ok:
  assumes "sint e - sint s < 2 ^ 63"
  shows "\<exists>v. unlocked_amount cs t s e = Inr v \<and>
    unat v = vested (unat (cs_locked_amount cs)) (sint t) (sint s) (sint e)"
proof (cases "sint s \<le> sint t \<and> sint t < sint e")
  case True
  with unlocked_amount_between assms show ?thesis by blast
next
  case False
  then show ?thesis by (auto simp: unlocked_amount_def vested_def)
qed

lemma amount_withdrawable_Inr_iff:
  assumes "sint e - sint s < 2 ^ 63"
  shows "amount_withdrawable cs t s e = Inr a \<longleftrightarrow>
    unat (cs_locked_amount_withdrawn cs) + unat a =
      vested (unat (cs_locked_amount cs)) (sint t) (sint s) (sint e)"
proof -
  obtain u where u: "unlocked_amount cs t s e = Inr u"
    and uv: "unat u = vested (unat (cs_locked_amount cs)) (sint t) (sint s) (sint e)"
    using unlocked_amount_ok [OF assms] by blast
  show ?thesis by (auto simp: amount_withdrawable_def u exec_iff simp flip: uv)
qed

end
