(* ===== verification/Claim_Instructions.thy ===== *)
theory Claim_Instructions
  imports Vesting
begin

text \<open>
  The two instructions that pay a claimant: \<open>instructions/new_claim.rs\<close> and
  \<open>instructions/claim_locked.rs\<close>.  Each is the checks of its accounts struct, then its handler.  The
  facts \<open>new_claim_Inr\<close> and \<open>claim_locked_Inr\<close> say what a successful call found and left behind;
  everything later rests on them.
\<close>

section \<open>\<open>new_claim\<close>\<close>

record new_claim_accounts =
  nc_distributor :: pubkey
  nc_claim_status :: pubkey
  nc_from :: pubkey
  nc_to :: pubkey
  nc_claimant :: pubkey

definition validate_new_claim ::
  "solana \<Rightarrow> tx \<Rightarrow> new_claim_accounts \<Rightarrow> chain \<Rightarrow> program_error + merkle_distributor" where
  "validate_new_claim E tx accs st =
     and_then (load_distributor st (nc_distributor accs)) (\<lambda>d.
     and_then (require (nc_claim_status accs =
         fst (get_claim_status_pda E (program_id tx) (nc_claimant accs) (nc_distributor accs)))
       (Anchor ConstraintSeeds)) (\<lambda>_.
     and_then (check_init st (nc_claim_status accs)) (\<lambda>_.
     and_then (load_token_account st (nc_from accs)) (\<lambda>from.
     and_then (check_associated_token E (nc_from accs) from (md_mint d) (nc_distributor accs)) (\<lambda>_.
     and_then (check_address (nc_from accs) (md_token_vault d)) (\<lambda>_.
     and_then (load_token_account st (nc_to accs)) (\<lambda>to.
     and_then (check_token_mint to (md_mint d)) (\<lambda>_.
     and_then (check_token_authority to (nc_claimant accs)) (\<lambda>_.
     and_then (check_signer tx (nc_claimant accs)) (\<lambda>_.
     and_then (require (nc_claimant accs = ta_owner to) (Err OwnerMismatch)) (\<lambda>_.
     Inr d)))))))))))"

text \<open>The leaf that the program derives from the claimant and the two amounts.\<close>

definition claim_node :: "hashv \<Rightarrow> pubkey \<Rightarrow> u64 \<Rightarrow> u64 \<Rightarrow> hash" where
  "claim_node h claimant amount_unlocked amount_locked =
     h [to_bytes claimant, to_le_bytes amount_unlocked, to_le_bytes amount_locked]"

definition claim_leaf :: "hashv \<Rightarrow> pubkey \<Rightarrow> u64 \<Rightarrow> u64 \<Rightarrow> hash" where
  "claim_leaf h claimant amount_unlocked amount_locked =
     h [LEAF_PREFIX, to_bytes (claim_node h claimant amount_unlocked amount_locked)]"

definition handle_new_claim ::
  "solana \<Rightarrow> tx \<Rightarrow> new_claim_accounts \<Rightarrow> merkle_distributor \<Rightarrow> u64 \<Rightarrow> u64 \<Rightarrow> hash list \<Rightarrow> chain \<Rightarrow>
     program_error + chain" where
  "handle_new_claim E tx accs d amount_unlocked amount_locked proof st =
     and_then (require (\<not> md_clawed_back d) (Err ClaimExpired)) (\<lambda>_.
     and_then (require (md_enable_slot d \<le> clock_slot tx) (Err ClaimingIsNotStarted)) (\<lambda>_.
     and_then (ok_or (checked_add_u64 (md_num_nodes_claimed d) 1) (Err ArithmeticError)) (\<lambda>n.
     let d = d\<lparr>md_num_nodes_claimed := n\<rparr> in
     and_then (require (md_num_nodes_claimed d \<le> md_max_num_nodes d) (Err MaxNodesExceeded)) (\<lambda>_.
     let node = claim_leaf (rt_hashv E) (nc_claimant accs) amount_unlocked amount_locked in
     and_then (require (verify (rt_hashv E) proof (md_root d) node) (Err InvalidProof)) (\<lambda>_.
     let cs = \<lparr>cs_claimant = nc_claimant accs, cs_locked_amount = amount_locked,
               cs_locked_amount_withdrawn = 0, cs_unlocked_amount = amount_unlocked,
               cs_closable = md_closable d, cs_admin = md_admin d\<rparr> in
     and_then (transfer_signed E tx d (nc_distributor accs) (nc_from accs) (nc_to accs)
         (cs_unlocked_amount cs) st) (\<lambda>st.
     and_then (ok_or (checked_add_u64 (md_total_amount_claimed d) (cs_unlocked_amount cs))
         (Err ArithmeticError)) (\<lambda>t.
     let d = d\<lparr>md_total_amount_claimed := t\<rparr> in
     and_then (require (md_total_amount_claimed d \<le> md_max_total_claim d) (Err ExceededMaxClaim)) (\<lambda>_.
     Inr (st\<lparr>distributors := (distributors st)(nc_distributor accs \<mapsto> d),
             claim_statuses := (claim_statuses st)(nc_claim_status accs \<mapsto> cs),
             events := events st @ [NewClaimEvent (nc_claimant accs) (unix_timestamp tx)]\<rparr>)))))))))"

definition new_claim ::
  "solana \<Rightarrow> tx \<Rightarrow> new_claim_accounts \<Rightarrow> u64 \<Rightarrow> u64 \<Rightarrow> hash list \<Rightarrow> chain \<Rightarrow>
     program_error + chain" where
  "new_claim E tx accs amount_unlocked amount_locked proof st =
     and_then (validate_new_claim E tx accs st) (\<lambda>d.
     handle_new_claim E tx accs d amount_unlocked amount_locked proof st)"

section \<open>\<open>claim_locked\<close>\<close>

record claim_locked_accounts =
  cl_distributor :: pubkey
  cl_claim_status :: pubkey
  cl_from :: pubkey
  cl_to :: pubkey
  cl_claimant :: pubkey

definition validate_claim_locked ::
  "solana \<Rightarrow> tx \<Rightarrow> claim_locked_accounts \<Rightarrow> chain \<Rightarrow>
     program_error + merkle_distributor \<times> claim_status" where
  "validate_claim_locked E tx accs st =
     and_then (load_distributor st (cl_distributor accs)) (\<lambda>d.
     and_then (load_claim_status st (cl_claim_status accs)) (\<lambda>cs.
     and_then (require (cl_claim_status accs =
         fst (get_claim_status_pda E (program_id tx) (cl_claimant accs) (cl_distributor accs)))
       (Anchor ConstraintSeeds)) (\<lambda>_.
     and_then (load_token_account st (cl_from accs)) (\<lambda>from.
     and_then (check_associated_token E (cl_from accs) from (md_mint d) (cl_distributor accs)) (\<lambda>_.
     and_then (check_address (cl_from accs) (md_token_vault d)) (\<lambda>_.
     and_then (load_token_account st (cl_to accs)) (\<lambda>to.
     and_then (check_token_authority to (cl_claimant accs)) (\<lambda>_.
     and_then (check_signer tx (cl_claimant accs)) (\<lambda>_.
     and_then (require (cl_claimant accs = ta_owner to) (Err OwnerMismatch)) (\<lambda>_.
     Inr (d, cs)))))))))))"

text \<open>The seconds left in the lockup are only logged, but their subtraction is checked.\<close>

definition remaining_seconds :: "i64 \<Rightarrow> i64 \<Rightarrow> program_error + i64" where
  "remaining_seconds curr_ts end_ts =
     (if sint curr_ts < sint end_ts then ok_or (checked_sub_i64 end_ts curr_ts) ProgramPanicked
      else Inr 0)"

definition handle_claim_locked ::
  "solana \<Rightarrow> tx \<Rightarrow> claim_locked_accounts \<Rightarrow> merkle_distributor \<Rightarrow> claim_status \<Rightarrow> chain \<Rightarrow>
     program_error + chain" where
  "handle_claim_locked E tx accs d cs st =
     and_then (require (\<not> md_clawed_back d) (Err ClaimExpired)) (\<lambda>_.
     and_then (require (md_enable_slot d \<le> clock_slot tx) (Err ClaimingIsNotStarted)) (\<lambda>_.
     and_then (amount_withdrawable cs (unix_timestamp tx) (md_start_ts d) (md_end_ts d)) (\<lambda>amount.
     and_then (require (amount > 0) (Err InsufficientUnlockedTokens)) (\<lambda>_.
     and_then (transfer_signed E tx d (cl_distributor accs) (cl_from accs) (cl_to accs) amount st) (\<lambda>st.
     and_then (ok_or (checked_add_u64 (cs_locked_amount_withdrawn cs) amount) (Err ArithmeticError)) (\<lambda>w.
     let cs = cs\<lparr>cs_locked_amount_withdrawn := w\<rparr> in
     and_then (require (cs_locked_amount_withdrawn cs \<le> cs_locked_amount cs) (Err ExceededMaxClaim)) (\<lambda>_.
     and_then (ok_or (checked_add_u64 (md_total_amount_claimed d) amount) (Err ArithmeticError)) (\<lambda>t.
     let d = d\<lparr>md_total_amount_claimed := t\<rparr> in
     and_then (require (md_total_amount_claimed d \<le> md_max_total_claim d) (Err ExceededMaxClaim)) (\<lambda>_.
     and_then (remaining_seconds (unix_timestamp tx) (md_end_ts d)) (\<lambda>_.
     Inr (st\<lparr>distributors := (distributors st)(cl_distributor accs \<mapsto> d),
             claim_statuses := (claim_statuses st)(cl_claim_status accs \<mapsto> cs),
             events := events st @ [ClaimedEvent (cl_claimant accs) amount]\<rparr>)))))))))))"

definition claim_locked ::
  "solana \<Rightarrow> tx \<Rightarrow> claim_locked_accounts \<Rightarrow> chain \<Rightarrow> program_error + chain" where
  "claim_locked E tx accs st =
     and_then (validate_claim_locked E tx accs st) (\<lambda>(d, cs).
     handle_claim_locked E tx accs d cs st)"

section \<open>Successful calls\<close>

lemma validate_new_claim_Inr:
  assumes "validate_new_claim E tx accs st = Inr d"
  shows "distributors st (nc_distributor accs) = Some d"
    and "nc_claim_status accs =
      fst (get_claim_status_pda E (program_id tx) (nc_claimant accs) (nc_distributor accs))"
    and "\<not> in_use st (nc_claim_status accs)"
    and "nc_from accs = md_token_vault d"
    and "nc_from accs = get_associated_token_address E (nc_distributor accs) (md_mint d)"
    and "\<exists>from. token_accounts st (nc_from accs) = Some from \<and> ta_owner from = nc_distributor accs"
    and "\<exists>to. token_accounts st (nc_to accs) = Some to \<and> ta_owner to = nc_claimant accs \<and>
      ta_mint to = md_mint d"
    and "nc_claimant accs \<in> signers tx"
  using assms by (auto simp: validate_new_claim_def check_defs exec_iff)

lemma handle_new_claim_Inr:
  assumes "handle_new_claim E tx accs d u l proof st = Inr st'"
  obtains n t toks where "\<not> md_clawed_back d" and "md_enable_slot d \<le> clock_slot tx"
    and "unat n = unat (md_num_nodes_claimed d) + 1" and "n \<le> md_max_num_nodes d"
    and "verify (rt_hashv E) proof (md_root d) (claim_leaf (rt_hashv E) (nc_claimant accs) u l)"
    and "spl_transfer E (token_accounts st) (nc_from accs) (nc_to accs) (nc_distributor accs) u =
      Inr toks"
    and "unat t = unat (md_total_amount_claimed d) + unat u" and "t \<le> md_max_total_claim d"
    and "st' = st\<lparr>
      distributors := (distributors st)(nc_distributor accs \<mapsto>
        d\<lparr>md_num_nodes_claimed := n, md_total_amount_claimed := t\<rparr>),
      claim_statuses := (claim_statuses st)(nc_claim_status accs \<mapsto>
        \<lparr>cs_claimant = nc_claimant accs, cs_locked_amount = l, cs_locked_amount_withdrawn = 0,
         cs_unlocked_amount = u, cs_closable = md_closable d, cs_admin = md_admin d\<rparr>),
      token_accounts := toks,
      events := events st @ [NewClaimEvent (nc_claimant accs) (unix_timestamp tx)]\<rparr>"
  using assms by (auto simp: handle_new_claim_def Let_def exec_iff)

lemma validate_claim_locked_Inr:
  assumes "validate_claim_locked E tx accs st = Inr (d, cs)"
  shows "distributors st (cl_distributor accs) = Some d"
    and "claim_statuses st (cl_claim_status accs) = Some cs"
    and "cl_claim_status accs =
      fst (get_claim_status_pda E (program_id tx) (cl_claimant accs) (cl_distributor accs))"
    and "cl_from accs = md_token_vault d"
    and "cl_from accs = get_associated_token_address E (cl_distributor accs) (md_mint d)"
    and "\<exists>from. token_accounts st (cl_from accs) = Some from \<and> ta_owner from = cl_distributor accs"
    and "\<exists>to. token_accounts st (cl_to accs) = Some to \<and> ta_owner to = cl_claimant accs"
    and "cl_claimant accs \<in> signers tx"
  using assms by (auto simp: validate_claim_locked_def check_defs exec_iff)

lemma handle_claim_locked_Inr:
  assumes "handle_claim_locked E tx accs d cs st = Inr st'"
  obtains amount w t toks where "\<not> md_clawed_back d" and "md_enable_slot d \<le> clock_slot tx"
    and "amount_withdrawable cs (unix_timestamp tx) (md_start_ts d) (md_end_ts d) = Inr amount"
    and "0 < amount"
    and "spl_transfer E (token_accounts st) (cl_from accs) (cl_to accs) (cl_distributor accs) amount =
      Inr toks"
    and "unat w = unat (cs_locked_amount_withdrawn cs) + unat amount" and "w \<le> cs_locked_amount cs"
    and "unat t = unat (md_total_amount_claimed d) + unat amount" and "t \<le> md_max_total_claim d"
    and "st' = st\<lparr>
      distributors := (distributors st)(cl_distributor accs \<mapsto> d\<lparr>md_total_amount_claimed := t\<rparr>),
      claim_statuses := (claim_statuses st)(cl_claim_status accs \<mapsto>
        cs\<lparr>cs_locked_amount_withdrawn := w\<rparr>),
      token_accounts := toks,
      events := events st @ [ClaimedEvent (cl_claimant accs) amount]\<rparr>"
  using assms by (auto simp: handle_claim_locked_def Let_def exec_iff)

end
