(* ===== verification/Admin_Instructions.thy ===== *)
theory Admin_Instructions
  imports Program_State
begin

text \<open>
  The instructions reserved to the admin that change one field of a distributor:
  \<open>set_enable_slot.rs\<close>, \<open>set_admin.rs\<close>, \<open>set_clawback_receiver.rs\<close>, \<open>set_clawback_start_ts.rs\<close>.
\<close>

definition SECONDS_PER_HOUR :: i64 where "SECONDS_PER_HOUR = 3600"
definition HOURS_PER_DAY :: i64 where "HOURS_PER_DAY = 24"
definition SECONDS_PER_DAY :: i64 where "SECONDS_PER_DAY = SECONDS_PER_HOUR * HOURS_PER_DAY"

lemma sint_SECONDS_PER_DAY [simp]: "sint SECONDS_PER_DAY = 86400"
  by (simp add: SECONDS_PER_DAY_def SECONDS_PER_HOUR_def HOURS_PER_DAY_def)

text \<open>One day later, when that is representable.\<close>

lemma day_later:
  "(\<exists>v. checked_add_i64 a SECONDS_PER_DAY = Some v \<and> sint v \<le> x) \<longleftrightarrow>
     in_i64 (sint a + 86400) \<and> sint a + 86400 \<le> x"
proof (cases "checked_add_i64 a SECONDS_PER_DAY")
  case None
  then show ?thesis by (auto simp: checked_add_i64_def split: if_splits)
next
  case (Some v)
  then have "sint v = sint a + 86400" by (simp add: checked_add_i64_Some_iff)
  with Some in_i64_sint [of v] show ?thesis by simp
qed

definition put_distributor :: "pubkey \<Rightarrow> merkle_distributor \<Rightarrow> chain \<Rightarrow> chain" where
  "put_distributor k d st = st\<lparr>distributors := (distributors st)(k \<mapsto> d)\<rparr>"

section \<open>\<open>set_enable_slot\<close>\<close>

record set_enable_slot_accounts =
  se_distributor :: pubkey
  se_admin :: pubkey

definition validate_set_enable_slot ::
  "tx \<Rightarrow> set_enable_slot_accounts \<Rightarrow> chain \<Rightarrow> program_error + merkle_distributor" where
  "validate_set_enable_slot tx accs st =
     and_then (load_distributor st (se_distributor accs)) (\<lambda>d.
     and_then (check_has_one (md_admin d) (se_admin accs)) (\<lambda>_.
     and_then (check_signer tx (se_admin accs)) (\<lambda>_. Inr d)))"

definition set_enable_slot ::
  "tx \<Rightarrow> set_enable_slot_accounts \<Rightarrow> u64 \<Rightarrow> chain \<Rightarrow> program_error + chain" where
  "set_enable_slot tx accs enable_slot st =
     and_then (validate_set_enable_slot tx accs st) (\<lambda>d.
     Inr (put_distributor (se_distributor accs) (d\<lparr>md_enable_slot := enable_slot\<rparr>) st))"

section \<open>\<open>set_admin\<close>\<close>

record set_admin_accounts =
  sa_distributor :: pubkey
  sa_admin :: pubkey
  sa_new_admin :: pubkey

definition validate_set_admin ::
  "tx \<Rightarrow> set_admin_accounts \<Rightarrow> chain \<Rightarrow> program_error + merkle_distributor" where
  "validate_set_admin tx accs st =
     and_then (load_distributor st (sa_distributor accs)) (\<lambda>d.
     and_then (check_signer tx (sa_admin accs)) (\<lambda>_.
     and_then (require (sa_admin accs = md_admin d) (Err Unauthorized)) (\<lambda>_. Inr d)))"

definition set_admin ::
  "tx \<Rightarrow> set_admin_accounts \<Rightarrow> chain \<Rightarrow> program_error + chain" where
  "set_admin tx accs st =
     and_then (validate_set_admin tx accs st) (\<lambda>d.
     and_then (require (sa_admin accs \<noteq> sa_new_admin accs) (Err SameAdmin)) (\<lambda>_.
     Inr (put_distributor (sa_distributor accs) (d\<lparr>md_admin := sa_new_admin accs\<rparr>) st)))"

section \<open>\<open>set_clawback_receiver\<close>\<close>

record set_clawback_receiver_accounts =
  sr_distributor :: pubkey
  sr_new_clawback_account :: pubkey
  sr_admin :: pubkey

definition validate_set_clawback_receiver ::
  "tx \<Rightarrow> set_clawback_receiver_accounts \<Rightarrow> chain \<Rightarrow> program_error + merkle_distributor" where
  "validate_set_clawback_receiver tx accs st =
     and_then (load_distributor st (sr_distributor accs)) (\<lambda>d.
     and_then (load_token_account st (sr_new_clawback_account accs)) (\<lambda>a.
     and_then (check_token_mint a (md_mint d)) (\<lambda>_.
     and_then (check_signer tx (sr_admin accs)) (\<lambda>_.
     and_then (require (sr_admin accs = md_admin d) (Err Unauthorized)) (\<lambda>_. Inr d)))))"

definition set_clawback_receiver ::
  "tx \<Rightarrow> set_clawback_receiver_accounts \<Rightarrow> chain \<Rightarrow> program_error + chain" where
  "set_clawback_receiver tx accs st =
     and_then (validate_set_clawback_receiver tx accs st) (\<lambda>d.
     and_then (require (md_clawback_receiver d \<noteq> sr_new_clawback_account accs)
       (Err SameClawbackReceiver)) (\<lambda>_.
     Inr (put_distributor (sr_distributor accs)
       (d\<lparr>md_clawback_receiver := sr_new_clawback_account accs\<rparr>) st)))"

section \<open>\<open>set_clawback_start_ts\<close>\<close>

record set_clawback_start_ts_accounts =
  st_distributor :: pubkey
  st_admin :: pubkey

definition validate_set_clawback_start_ts ::
  "tx \<Rightarrow> set_clawback_start_ts_accounts \<Rightarrow> chain \<Rightarrow> program_error + merkle_distributor" where
  "validate_set_clawback_start_ts tx accs st =
     and_then (load_distributor st (st_distributor accs)) (\<lambda>d.
     and_then (check_has_one (md_admin d) (st_admin accs)) (\<lambda>_.
     and_then (check_signer tx (st_admin accs)) (\<lambda>_. Inr d)))"

definition set_clawback_start_ts ::
  "tx \<Rightarrow> set_clawback_start_ts_accounts \<Rightarrow> i64 \<Rightarrow> chain \<Rightarrow> program_error + chain" where
  "set_clawback_start_ts tx accs clawback_start_ts st =
     and_then (validate_set_clawback_start_ts tx accs st) (\<lambda>d.
     and_then (require (sint (unix_timestamp tx) < sint clawback_start_ts)
       (Err TimestampsNotInFuture)) (\<lambda>_.
     and_then (ok_or (checked_add_i64 (md_end_ts d) SECONDS_PER_DAY) (Err ArithmeticError)) (\<lambda>earliest.
     and_then (require (sint earliest \<le> sint clawback_start_ts) (Err InsufficientClawbackDelay)) (\<lambda>_.
     Inr (put_distributor (st_distributor accs)
       (d\<lparr>md_clawback_start_ts := clawback_start_ts\<rparr>) st)))))"

section \<open>Successful calls\<close>

lemma set_enable_slot_Inr:
  "set_enable_slot tx accs slot st = Inr st' \<longleftrightarrow>
     (\<exists>d. distributors st (se_distributor accs) = Some d \<and>
       md_admin d = se_admin accs \<and> se_admin accs \<in> signers tx \<and>
       st' = put_distributor (se_distributor accs) (d\<lparr>md_enable_slot := slot\<rparr>) st)"
  by (auto simp: set_enable_slot_def validate_set_enable_slot_def check_defs exec_iff)

lemma set_admin_Inr:
  "set_admin tx accs st = Inr st' \<longleftrightarrow>
     (\<exists>d. distributors st (sa_distributor accs) = Some d \<and>
       md_admin d = sa_admin accs \<and> sa_admin accs \<in> signers tx \<and>
       sa_new_admin accs \<noteq> sa_admin accs \<and>
       st' = put_distributor (sa_distributor accs) (d\<lparr>md_admin := sa_new_admin accs\<rparr>) st)"
  by (auto simp: set_admin_def validate_set_admin_def check_defs exec_iff)

lemma set_clawback_receiver_Inr:
  "set_clawback_receiver tx accs st = Inr st' \<longleftrightarrow>
     (\<exists>d a. distributors st (sr_distributor accs) = Some d \<and>
       md_admin d = sr_admin accs \<and> sr_admin accs \<in> signers tx \<and>
       token_accounts st (sr_new_clawback_account accs) = Some a \<and> ta_mint a = md_mint d \<and>
       sr_new_clawback_account accs \<noteq> md_clawback_receiver d \<and>
       st' = put_distributor (sr_distributor accs)
         (d\<lparr>md_clawback_receiver := sr_new_clawback_account accs\<rparr>) st)"
  by (auto simp: set_clawback_receiver_def validate_set_clawback_receiver_def check_defs exec_iff)

lemma set_clawback_start_ts_Inr:
  "set_clawback_start_ts tx accs ts st = Inr st' \<longleftrightarrow>
     (\<exists>d. distributors st (st_distributor accs) = Some d \<and>
       md_admin d = st_admin accs \<and> st_admin accs \<in> signers tx \<and>
       sint (unix_timestamp tx) < sint ts \<and>
       in_i64 (sint (md_end_ts d) + 86400) \<and> sint (md_end_ts d) + 86400 \<le> sint ts \<and>
       st' = put_distributor (st_distributor accs) (d\<lparr>md_clawback_start_ts := ts\<rparr>) st)"
proof -
  have "set_clawback_start_ts tx accs ts st = Inr st' \<longleftrightarrow>
      (\<exists>d. distributors st (st_distributor accs) = Some d \<and>
       md_admin d = st_admin accs \<and> st_admin accs \<in> signers tx \<and>
       sint (unix_timestamp tx) < sint ts \<and>
       (\<exists>v. checked_add_i64 (md_end_ts d) SECONDS_PER_DAY = Some v \<and> sint v \<le> sint ts) \<and>
       put_distributor (st_distributor accs) (d\<lparr>md_clawback_start_ts := ts\<rparr>) st = st')"
    by (auto simp: set_clawback_start_ts_def validate_set_clawback_start_ts_def check_defs
        and_then_Inr_iff ok_or_Inr_iff require_Inr_iff)
  then show ?thesis
    by (simp only: day_later conj_assoc eq_commute [of _ st'])
qed

lemmas admin_Inr = set_enable_slot_Inr set_admin_Inr set_clawback_receiver_Inr
  set_clawback_start_ts_Inr

end
