(* ===== verification/Lifecycle_Instructions.thy ===== *)
theory Lifecycle_Instructions
  imports Admin_Instructions
begin

text \<open>
  The beginning and the ends of a distributor: \<open>new_distributor.rs\<close>, \<open>clawback.rs\<close>,
  \<open>close_distributor.rs\<close> and \<open>close_claim_status.rs\<close>.
\<close>

section \<open>\<open>new_distributor\<close>\<close>

record new_distributor_accounts =
  nd_distributor :: pubkey
  nd_base :: pubkey
  nd_clawback_receiver :: pubkey
  nd_mint :: pubkey
  nd_token_vault :: pubkey
  nd_admin :: pubkey

record new_distributor_args =
  na_version :: u64
  na_root :: hash
  na_max_total_claim :: u64
  na_max_num_nodes :: u64
  na_start_vesting_ts :: i64
  na_end_vesting_ts :: i64
  na_clawback_start_ts :: i64
  na_enable_slot :: u64
  na_closable :: bool

text \<open>The bump that \<open>init\<close> finds is handed to the handler.\<close>

definition validate_new_distributor ::
  "solana \<Rightarrow> tx \<Rightarrow> new_distributor_accounts \<Rightarrow> u64 \<Rightarrow> chain \<Rightarrow> program_error + u8" where
  "validate_new_distributor E tx accs version st =
     (let (key, bump) = get_merkle_distributor_pda E (program_id tx) (nd_base accs) (nd_mint accs) version in
      and_then (require (nd_distributor accs = key) (Anchor ConstraintSeeds)) (\<lambda>_.
      and_then (check_init st (nd_distributor accs)) (\<lambda>_.
      and_then (check_signer tx (nd_base accs)) (\<lambda>_.
      and_then (load_token_account st (nd_clawback_receiver accs)) (\<lambda>r.
      and_then (check_token_mint r (nd_mint accs)) (\<lambda>_.
      and_then (require (nd_mint accs \<in> mints st) (Anchor AccountNotInitialized)) (\<lambda>_.
      and_then (load_token_account st (nd_token_vault accs)) (\<lambda>v.
      and_then (check_associated_token E (nd_token_vault accs) v (nd_mint accs) (nd_distributor accs)) (\<lambda>_.
      and_then (check_signer tx (nd_admin accs)) (\<lambda>_.
      Inr bump))))))))))"

definition handle_new_distributor ::
  "tx \<Rightarrow> new_distributor_accounts \<Rightarrow> u8 \<Rightarrow> new_distributor_args \<Rightarrow> chain \<Rightarrow>
     program_error + chain" where
  "handle_new_distributor tx accs bump args st =
     (let curr_ts = sint (unix_timestamp tx) in
      and_then (require (sint (na_start_vesting_ts args) < sint (na_end_vesting_ts args))
        (Err StartTimestampAfterEnd)) (\<lambda>_.
      and_then (require (curr_ts < sint (na_start_vesting_ts args) \<and>
          curr_ts < sint (na_end_vesting_ts args) \<and> curr_ts < sint (na_clawback_start_ts args))
        (Err TimestampsNotInFuture)) (\<lambda>_.
      and_then (require (sint (na_end_vesting_ts args) < sint (na_clawback_start_ts args))
        (Err ClawbackDuringVesting)) (\<lambda>_.
      and_then (ok_or (checked_add_i64 (na_end_vesting_ts args) SECONDS_PER_DAY)
        (Err ArithmeticError)) (\<lambda>earliest.
      and_then (require (sint earliest \<le> sint (na_clawback_start_ts args))
        (Err InsufficientClawbackDelay)) (\<lambda>_.
      Inr (put_distributor (nd_distributor accs)
        \<lparr>md_bump = bump, md_version = na_version args, md_root = na_root args,
         md_mint = nd_mint accs, md_base = nd_base accs, md_token_vault = nd_token_vault accs,
         md_max_total_claim = na_max_total_claim args, md_max_num_nodes = na_max_num_nodes args,
         md_total_amount_claimed = 0, md_num_nodes_claimed = 0,
         md_start_ts = na_start_vesting_ts args, md_end_ts = na_end_vesting_ts args,
         md_clawback_start_ts = na_clawback_start_ts args,
         md_clawback_receiver = nd_clawback_receiver accs, md_admin = nd_admin accs,
         md_clawed_back = False, md_enable_slot = na_enable_slot args,
         md_closable = na_closable args,
         md_buffer_0 = fill32 0, md_buffer_1 = fill32 0, md_buffer_2 = fill32 0\<rparr> st)))))))"

definition new_distributor ::
  "solana \<Rightarrow> tx \<Rightarrow> new_distributor_accounts \<Rightarrow> new_distributor_args \<Rightarrow> chain \<Rightarrow>
     program_error + chain" where
  "new_distributor E tx accs args st =
     and_then (validate_new_distributor E tx accs (na_version args) st) (\<lambda>bump.
     handle_new_distributor tx accs bump args st)"

section \<open>\<open>clawback\<close>\<close>

record clawback_accounts =
  cb_distributor :: pubkey
  cb_from :: pubkey
  cb_to :: pubkey
  cb_claimant :: pubkey

definition validate_clawback ::
  "solana \<Rightarrow> tx \<Rightarrow> clawback_accounts \<Rightarrow> chain \<Rightarrow>
     program_error + merkle_distributor \<times> token_account" where
  "validate_clawback E tx accs st =
     and_then (load_distributor st (cb_distributor accs)) (\<lambda>d.
     and_then (load_token_account st (cb_from accs)) (\<lambda>from.
     and_then (check_associated_token E (cb_from accs) from (md_mint d) (cb_distributor accs)) (\<lambda>_.
     and_then (check_address (cb_from accs) (md_token_vault d)) (\<lambda>_.
     and_then (load_token_account st (cb_to accs)) (\<lambda>to.
     and_then (check_address (cb_to accs) (md_clawback_receiver d)) (\<lambda>_.
     and_then (check_signer tx (cb_claimant accs)) (\<lambda>_.
     Inr (d, from))))))))"

definition handle_clawback ::
  "solana \<Rightarrow> tx \<Rightarrow> clawback_accounts \<Rightarrow> merkle_distributor \<Rightarrow> token_account \<Rightarrow> chain \<Rightarrow>
     program_error + chain" where
  "handle_clawback E tx accs d from st =
     and_then (require (\<not> md_clawed_back d) (Err ClawbackAlreadyClaimed)) (\<lambda>_.
     if sint (unix_timestamp tx) < sint (md_clawback_start_ts d)
     then Inl (Err ClawbackBeforeStart)
     else and_then (transfer_signed E tx d (cb_distributor accs) (cb_from accs) (cb_to accs)
         (ta_amount from) st) (\<lambda>st.
       Inr (put_distributor (cb_distributor accs) (d\<lparr>md_clawed_back := True\<rparr>) st)))"

definition clawback ::
  "solana \<Rightarrow> tx \<Rightarrow> clawback_accounts \<Rightarrow> chain \<Rightarrow> program_error + chain" where
  "clawback E tx accs st =
     and_then (validate_clawback E tx accs st) (\<lambda>(d, from). handle_clawback E tx accs d from st)"

section \<open>\<open>close_distributor\<close>\<close>

record close_distributor_accounts =
  cd_distributor :: pubkey
  cd_token_vault :: pubkey
  cd_admin :: pubkey
  cd_destination_token_account :: pubkey

definition validate_close_distributor ::
  "tx \<Rightarrow> close_distributor_accounts \<Rightarrow> chain \<Rightarrow>
     program_error + merkle_distributor \<times> token_account" where
  "validate_close_distributor tx accs st =
     and_then (load_distributor st (cd_distributor accs)) (\<lambda>d.
     and_then (check_has_one (md_admin d) (cd_admin accs)) (\<lambda>_.
     and_then (check_has_one (md_token_vault d) (cd_token_vault accs)) (\<lambda>_.
     and_then (require (md_closable d) (Err CannotCloseDistributor)) (\<lambda>_.
     and_then (load_token_account st (cd_token_vault accs)) (\<lambda>vault.
     and_then (check_signer tx (cd_admin accs)) (\<lambda>_.
     and_then (load_token_account st (cd_destination_token_account accs)) (\<lambda>_.
     Inr (d, vault))))))))"

text \<open>The handler empties the vault; Anchor then closes the account (\<open>close = admin\<close>).\<close>

definition close_distributor ::
  "solana \<Rightarrow> tx \<Rightarrow> close_distributor_accounts \<Rightarrow> chain \<Rightarrow> program_error + chain" where
  "close_distributor E tx accs st =
     and_then (validate_close_distributor tx accs st) (\<lambda>(d, vault).
     and_then (transfer_signed E tx d (cd_distributor accs) (cd_token_vault accs)
         (cd_destination_token_account accs) (ta_amount vault) st) (\<lambda>st.
     Inr (st\<lparr>distributors := (distributors st)(cd_distributor accs := None)\<rparr>)))"

section \<open>\<open>close_claim_status\<close>\<close>

record close_claim_status_accounts =
  cc_claim_status :: pubkey
  cc_claimant :: pubkey
  cc_admin :: pubkey

definition validate_close_claim_status ::
  "tx \<Rightarrow> close_claim_status_accounts \<Rightarrow> chain \<Rightarrow> program_error + claim_status" where
  "validate_close_claim_status tx accs st =
     and_then (load_claim_status st (cc_claim_status accs)) (\<lambda>cs.
     and_then (check_has_one (cs_claimant cs) (cc_claimant accs)) (\<lambda>_.
     and_then (check_has_one (cs_admin cs) (cc_admin accs)) (\<lambda>_.
     and_then (require (cs_closable cs) (Err CannotCloseClaimStatus)) (\<lambda>_.
     and_then (check_signer tx (cc_admin accs)) (\<lambda>_. Inr cs)))))"

definition close_claim_status ::
  "tx \<Rightarrow> close_claim_status_accounts \<Rightarrow> chain \<Rightarrow> program_error + chain" where
  "close_claim_status tx accs st =
     and_then (validate_close_claim_status tx accs st) (\<lambda>_.
     Inr (st\<lparr>claim_statuses := (claim_statuses st)(cc_claim_status accs := None)\<rparr>))"

section \<open>Successful calls\<close>

text \<open>The timestamps that a new distributor is allowed to have.\<close>

definition schedule_ok :: "int \<Rightarrow> int \<Rightarrow> int \<Rightarrow> int \<Rightarrow> bool" where
  "schedule_ok now start end_vesting clawback_start \<longleftrightarrow>
     now < start \<and> start < end_vesting \<and> end_vesting + 86400 \<le> clawback_start"

lemma handle_new_distributor_schedule:
  "handle_new_distributor tx accs bump args st \<in> range Inr \<longleftrightarrow>
     schedule_ok (sint (unix_timestamp tx)) (sint (na_start_vesting_ts args))
       (sint (na_end_vesting_ts args)) (sint (na_clawback_start_ts args))"
proof -
  let ?e = "na_end_vesting_ts args" and ?c = "na_clawback_start_ts args"
  have "checked_add_i64 ?e SECONDS_PER_DAY = Some (?e + SECONDS_PER_DAY) \<and>
      sint (?e + SECONDS_PER_DAY) = sint ?e + 86400"
    if "sint ?e + 86400 \<le> sint ?c"
  proof -
    have "in_i64 (sint ?e + 86400)"
      using that in_i64_sint [of ?c] in_i64_sint [of ?e] by (simp add: in_i64_def)
    then have "checked_add_i64 ?e SECONDS_PER_DAY = Some (?e + SECONDS_PER_DAY)"
      by (simp add: checked_add_i64_def)
    moreover from this have "sint (?e + SECONDS_PER_DAY) = sint ?e + 86400"
      by (simp add: checked_add_i64_Some_iff)
    ultimately show ?thesis by blast
  qed
  then show ?thesis
    by (auto simp: handle_new_distributor_def Let_def schedule_ok_def image_iff exec_iff)
qed

lemma new_distributor_Inr:
  assumes "new_distributor E tx accs args st = Inr st'"
  obtains d where "st' = put_distributor (nd_distributor accs) d st"
    and "\<not> in_use st (nd_distributor accs)"
    and "schedule_ok (sint (unix_timestamp tx)) (sint (md_start_ts d)) (sint (md_end_ts d))
      (sint (md_clawback_start_ts d))"
    and "(nd_distributor accs, md_bump d) =
      get_merkle_distributor_pda E (program_id tx) (md_base d) (md_mint d) (md_version d)"
    and "md_token_vault d = get_associated_token_address E (nd_distributor accs) (md_mint d)"
    and "md_root d = na_root args" and "md_max_total_claim d = na_max_total_claim args"
    and "md_max_num_nodes d = na_max_num_nodes args" and "md_admin d = nd_admin accs"
    and "md_total_amount_claimed d = 0" and "md_num_nodes_claimed d = 0"
    and "\<not> md_clawed_back d" and "nd_admin accs \<in> signers tx" and "nd_base accs \<in> signers tx"
    and "md_base d = nd_base accs" and "md_closable d = na_closable args"
    and "md_token_vault d = nd_token_vault accs"
proof -
  obtain bump where v: "validate_new_distributor E tx accs (na_version args) st = Inr bump"
    and h: "handle_new_distributor tx accs bump args st = Inr st'"
    using assms by (auto simp: new_distributor_def exec_iff)
  have s: "schedule_ok (sint (unix_timestamp tx)) (sint (na_start_vesting_ts args))
      (sint (na_end_vesting_ts args)) (sint (na_clawback_start_ts args))"
    using handle_new_distributor_schedule [of tx accs bump args st] h by auto
  show thesis
    using v h s
    by (intro that)
      (auto simp: validate_new_distributor_def handle_new_distributor_def Let_def check_defs exec_iff
        split: prod.splits)
qed

lemma clawback_Inr:
  "clawback E tx accs st = Inr st' \<longleftrightarrow>
     (\<exists>d from toks. distributors st (cb_distributor accs) = Some d \<and>
       token_accounts st (cb_from accs) = Some from \<and> ta_owner from = cb_distributor accs \<and>
       cb_from accs = get_associated_token_address E (cb_distributor accs) (md_mint d) \<and>
       cb_from accs = md_token_vault d \<and> cb_to accs = md_clawback_receiver d \<and>
       token_accounts st (cb_to accs) \<noteq> None \<and> cb_claimant accs \<in> signers tx \<and>
       \<not> md_clawed_back d \<and> sint (md_clawback_start_ts d) \<le> sint (unix_timestamp tx) \<and>
       create_program_address E (merkle_distributor_seeds (md_base d) (md_mint d) (md_version d) @
         [[md_bump d]]) (program_id tx) = Some (cb_distributor accs) \<and>
       spl_transfer E (token_accounts st) (cb_from accs) (cb_to accs) (cb_distributor accs)
         (ta_amount from) = Inr toks \<and>
       st' = put_distributor (cb_distributor accs) (d\<lparr>md_clawed_back := True\<rparr>)
         (st\<lparr>token_accounts := toks\<rparr>))"
  by (auto simp: clawback_def validate_clawback_def handle_clawback_def check_defs exec_iff not_less)

lemma close_distributor_Inr:
  assumes "close_distributor E tx accs st = Inr st'"
  obtains d vault toks where "distributors st (cd_distributor accs) = Some d"
    and "md_closable d" and "md_admin d = cd_admin accs" and "cd_admin accs \<in> signers tx"
    and "md_token_vault d = cd_token_vault accs"
    and "token_accounts st (cd_token_vault accs) = Some vault"
    and "spl_transfer E (token_accounts st) (cd_token_vault accs) (cd_destination_token_account accs)
      (cd_distributor accs) (ta_amount vault) = Inr toks"
    and "st' = st\<lparr>distributors := (distributors st)(cd_distributor accs := None),
      token_accounts := toks\<rparr>"
  using assms by (auto simp: close_distributor_def validate_close_distributor_def check_defs exec_iff)

lemma close_claim_status_Inr:
  "close_claim_status tx accs st = Inr st' \<longleftrightarrow>
     (\<exists>cs. claim_statuses st (cc_claim_status accs) = Some cs \<and> cs_closable cs \<and>
       cs_claimant cs = cc_claimant accs \<and> cs_admin cs = cc_admin accs \<and>
       cc_admin accs \<in> signers tx \<and>
       st' = st\<lparr>claim_statuses := (claim_statuses st)(cc_claim_status accs := None)\<rparr>)"
  by (auto simp: close_claim_status_def validate_close_claim_status_def check_defs exec_iff)

end
