(* ===== verification/Effects.thy ===== *)
theory Effects
  imports Claim_Instructions Lifecycle_Instructions
begin

text \<open>
  The entry points of \<open>programs/merkle-distributor/src/lib.rs\<close> and their specification: the relation
  \<open>effect\<close> lists the seven things that an instruction may do to the accounts, and every successful
  instruction does one of them (\<open>process_instruction_effect\<close>).  What holds along runs is proved over
  the seven cases.
\<close>

section \<open>The entry points\<close>

datatype instruction =
    NewDistributor new_distributor_accounts new_distributor_args
  | CloseDistributor close_distributor_accounts
  | CloseClaimStatus close_claim_status_accounts
  | SetEnableSlot set_enable_slot_accounts u64
  | NewClaim new_claim_accounts u64 u64 "hash list"
  | ClaimLocked claim_locked_accounts
  | Clawback clawback_accounts
  | SetClawbackReceiver set_clawback_receiver_accounts
  | SetAdmin set_admin_accounts
  | SetClawbackStartTs set_clawback_start_ts_accounts i64

fun process_instruction ::
  "solana \<Rightarrow> tx \<Rightarrow> instruction \<Rightarrow> chain \<Rightarrow> program_error + chain" where
  "process_instruction E tx (NewDistributor accs args) st = new_distributor E tx accs args st"
| "process_instruction E tx (CloseDistributor accs) st = close_distributor E tx accs st"
| "process_instruction E tx (CloseClaimStatus accs) st = close_claim_status tx accs st"
| "process_instruction E tx (SetEnableSlot accs enable_slot) st = set_enable_slot tx accs enable_slot st"
| "process_instruction E tx (NewClaim accs amount_unlocked amount_locked proof) st =
     new_claim E tx accs amount_unlocked amount_locked proof st"
| "process_instruction E tx (ClaimLocked accs) st = claim_locked E tx accs st"
| "process_instruction E tx (Clawback accs) st = clawback E tx accs st"
| "process_instruction E tx (SetClawbackReceiver accs) st = set_clawback_receiver tx accs st"
| "process_instruction E tx (SetAdmin accs) st = set_admin tx accs st"
| "process_instruction E tx (SetClawbackStartTs accs clawback_start_ts) st =
     set_clawback_start_ts tx accs clawback_start_ts st"

section \<open>The effect of an instruction on one distributor\<close>

text \<open>Fields that no instruction changes once a distributor exists.\<close>

definition same_terms :: "merkle_distributor \<Rightarrow> merkle_distributor \<Rightarrow> bool" where
  "same_terms d d' \<longleftrightarrow>
     md_bump d' = md_bump d \<and> md_version d' = md_version d \<and> md_root d' = md_root d \<and>
     md_mint d' = md_mint d \<and> md_base d' = md_base d \<and> md_token_vault d' = md_token_vault d \<and>
     md_max_total_claim d' = md_max_total_claim d \<and> md_max_num_nodes d' = md_max_num_nodes d \<and>
     md_start_ts d' = md_start_ts d \<and> md_end_ts d' = md_end_ts d \<and> md_closable d' = md_closable d"

text \<open>How a distributor may change: counters grow, within their limits, and a clawback is final.\<close>

definition grows :: "merkle_distributor \<Rightarrow> merkle_distributor \<Rightarrow> bool" where
  "grows d d' \<longleftrightarrow> same_terms d d' \<and>
     md_total_amount_claimed d \<le> md_total_amount_claimed d' \<and>
     md_num_nodes_claimed d \<le> md_num_nodes_claimed d' \<and>
     (md_clawed_back d \<longrightarrow> md_clawed_back d' \<and>
        md_total_amount_claimed d' = md_total_amount_claimed d \<and>
        md_num_nodes_claimed d' = md_num_nodes_claimed d)"

lemma same_terms_refl [simp]: "same_terms d d"
  by (simp add: same_terms_def)

lemma grows_refl [simp]: "grows d d"
  by (simp add: grows_def)

lemma grows_trans: "grows d d' \<Longrightarrow> grows d' d'' \<Longrightarrow> grows d d''"
  by (auto simp: grows_def same_terms_def)

text \<open>A claim status only records more withdrawals.\<close>

definition status_grows :: "claim_status \<Rightarrow> claim_status \<Rightarrow> bool" where
  "status_grows c c' \<longleftrightarrow> cs_claimant c' = cs_claimant c \<and> cs_locked_amount c' = cs_locked_amount c \<and>
     cs_unlocked_amount c' = cs_unlocked_amount c \<and> cs_closable c' = cs_closable c \<and>
     cs_admin c' = cs_admin c \<and> cs_locked_amount_withdrawn c \<le> cs_locked_amount_withdrawn c'"

lemma status_grows_refl [simp]: "status_grows c c"
  by (simp add: status_grows_def)

lemma status_grows_trans: "status_grows c c' \<Longrightarrow> status_grows c' c'' \<Longrightarrow> status_grows c c''"
  by (auto simp: status_grows_def)


section \<open>The specification\<close>

text \<open>What an admin may change: the slot, the admin, the clawback receiver and start.\<close>

definition administered :: "int \<Rightarrow> merkle_distributor \<Rightarrow> merkle_distributor \<Rightarrow> bool" where
  "administered t d d' \<longleftrightarrow> same_terms d d' \<and>
     md_total_amount_claimed d' = md_total_amount_claimed d \<and>
     md_num_nodes_claimed d' = md_num_nodes_claimed d \<and> md_clawed_back d' = md_clawed_back d \<and>
     (md_clawback_start_ts d' = md_clawback_start_ts d \<or>
      t < sint (md_clawback_start_ts d') \<and> sint (md_end_ts d) + 86400 \<le> sint (md_clawback_start_ts d'))"

text \<open>How a claim changes a distributor that has not been clawed back.\<close>

definition counted :: "nat \<Rightarrow> nat \<Rightarrow> merkle_distributor \<Rightarrow> merkle_distributor \<Rightarrow> bool" where
  "counted nodes_more amount_more d d' \<longleftrightarrow> (\<exists>n t.
     d' = d\<lparr>md_num_nodes_claimed := n, md_total_amount_claimed := t\<rparr> \<and> \<not> md_clawed_back d \<and>
     unat n = unat (md_num_nodes_claimed d) + nodes_more \<and>
     unat t = unat (md_total_amount_claimed d) + amount_more \<and>
     (nodes_more = 0 \<or> n \<le> md_max_num_nodes d) \<and> t \<le> md_max_total_claim d)"

definition fresh_distributor ::
  "solana \<Rightarrow> tx \<Rightarrow> chain \<Rightarrow> pubkey \<Rightarrow> merkle_distributor \<Rightarrow> bool" where
  "fresh_distributor E tx st k d \<longleftrightarrow> \<not> in_use st k \<and>
     schedule_ok (sint (unix_timestamp tx)) (sint (md_start_ts d)) (sint (md_end_ts d))
       (sint (md_clawback_start_ts d)) \<and>
     (k, md_bump d) = get_merkle_distributor_pda E (program_id tx) (md_base d) (md_mint d) (md_version d) \<and>
     md_token_vault d = get_associated_token_address E k (md_mint d) \<and>
     (\<exists>v. token_accounts st (md_token_vault d) = Some v \<and> ta_owner v = k) \<and>
     md_total_amount_claimed d = 0 \<and> md_num_nodes_claimed d = 0 \<and> \<not> md_clawed_back d \<and>
     md_base d \<in> signers tx \<and> md_admin d \<in> signers tx"

text \<open>A claim status after a withdrawal.\<close>

definition withdrawn :: "nat \<Rightarrow> claim_status \<Rightarrow> claim_status \<Rightarrow> bool" where
  "withdrawn amount_more cs cs' \<longleftrightarrow> (\<exists>w. cs' = cs\<lparr>cs_locked_amount_withdrawn := w\<rparr> \<and>
     unat w = unat (cs_locked_amount_withdrawn cs) + amount_more \<and> w \<le> cs_locked_amount cs)"

inductive effect :: "solana \<Rightarrow> tx \<Rightarrow> chain \<Rightarrow> chain \<Rightarrow> bool" for E :: solana and tx :: tx where
  opens: "fresh_distributor E tx st k d \<Longrightarrow> effect E tx st (put_distributor k d st)"
| administers: "distributors st k = Some d \<Longrightarrow> md_admin d \<in> signers tx \<Longrightarrow>
    administered (sint (unix_timestamp tx)) d d' \<Longrightarrow> effect E tx st (put_distributor k d' st)"
| claims: "distributors st k = Some d \<Longrightarrow> \<not> in_use st c \<Longrightarrow>
    c = fst (get_claim_status_pda E (program_id tx) (cs_claimant cs) k) \<Longrightarrow>
    cs_claimant cs \<in> signers tx \<Longrightarrow> cs_locked_amount_withdrawn cs = 0 \<Longrightarrow>
    cs_closable cs = md_closable d \<Longrightarrow> cs_admin cs = md_admin d \<Longrightarrow> md_enable_slot d \<le> clock_slot tx \<Longrightarrow>
    verify (rt_hashv E) pf (md_root d)
      (claim_leaf (rt_hashv E) (cs_claimant cs) (cs_unlocked_amount cs) (cs_locked_amount cs)) \<Longrightarrow>
    counted 1 (unat (cs_unlocked_amount cs)) d d' \<Longrightarrow>
    spl_transfer E (token_accounts st) (md_token_vault d) to k (cs_unlocked_amount cs) = Inr toks \<Longrightarrow>
    token_accounts st (md_token_vault d) = Some vault \<Longrightarrow> ta_owner vault = k \<Longrightarrow>
    token_accounts st to = Some dest \<Longrightarrow> ta_owner dest = cs_claimant cs \<Longrightarrow>
    effect E tx st (st\<lparr>distributors := (distributors st)(k \<mapsto> d'),
      claim_statuses := (claim_statuses st)(c \<mapsto> cs), token_accounts := toks, events := evs\<rparr>)"
| withdraws: "distributors st k = Some d \<Longrightarrow> claim_statuses st c = Some cs \<Longrightarrow>
    c = fst (get_claim_status_pda E (program_id tx) claimant k) \<Longrightarrow> claimant \<in> signers tx \<Longrightarrow>
    md_enable_slot d \<le> clock_slot tx \<Longrightarrow> 0 < amt \<Longrightarrow>
    amount_withdrawable cs (unix_timestamp tx) (md_start_ts d) (md_end_ts d) = Inr amt \<Longrightarrow>
    counted 0 (unat amt) d d' \<Longrightarrow> withdrawn (unat amt) cs cs' \<Longrightarrow>
    spl_transfer E (token_accounts st) (md_token_vault d) to k amt = Inr toks \<Longrightarrow>
    token_accounts st (md_token_vault d) = Some vault \<Longrightarrow> ta_owner vault = k \<Longrightarrow>
    token_accounts st to = Some dest \<Longrightarrow> ta_owner dest = claimant \<Longrightarrow>
    effect E tx st (st\<lparr>distributors := (distributors st)(k \<mapsto> d'),
      claim_statuses := (claim_statuses st)(c \<mapsto> cs'), token_accounts := toks, events := evs\<rparr>)"
| claws_back: "distributors st k = Some d \<Longrightarrow> \<not> md_clawed_back d \<Longrightarrow>
    sint (md_clawback_start_ts d) \<le> sint (unix_timestamp tx) \<Longrightarrow>
    token_accounts st (md_token_vault d) = Some vault \<Longrightarrow> ta_owner vault = k \<Longrightarrow>
    spl_transfer E (token_accounts st) (md_token_vault d) (md_clawback_receiver d) k
      (ta_amount vault) = Inr toks \<Longrightarrow>
    effect E tx st (put_distributor k (d\<lparr>md_clawed_back := True\<rparr>) (st\<lparr>token_accounts := toks\<rparr>))"
| closes: "distributors st k = Some d \<Longrightarrow> md_closable d \<Longrightarrow> md_admin d \<in> signers tx \<Longrightarrow>
    token_accounts st (md_token_vault d) = Some vault \<Longrightarrow>
    spl_transfer E (token_accounts st) (md_token_vault d) to k (ta_amount vault) = Inr toks \<Longrightarrow>
    effect E tx st (st\<lparr>distributors := (distributors st)(k := None), token_accounts := toks\<rparr>)"
| closes_status: "claim_statuses st c = Some cs \<Longrightarrow> cs_closable cs \<Longrightarrow> cs_admin cs \<in> signers tx \<Longrightarrow>
    effect E tx st (st\<lparr>claim_statuses := (claim_statuses st)(c := None)\<rparr>)"

inductive_cases effectE: "effect E tx st st'"

section \<open>The instructions implement it\<close>

lemma put_distributor_upd [simp]:
  "distributors (put_distributor k d st) = (distributors st)(k \<mapsto> d)"
  "claim_statuses (put_distributor k d st) = claim_statuses st"
  "token_accounts (put_distributor k d st) = token_accounts st"
  by (simp_all add: put_distributor_def)

lemma administers_effect:
  assumes "distributors st k = Some d" and "md_admin d \<in> signers tx"
    and "st' = put_distributor k d' st" and "administered (sint (unix_timestamp tx)) d d'"
  shows "effect E tx st st'"
  using effect.administers [OF assms(1,2,4)] assms(3) by simp

lemma admin_effect:
  "set_enable_slot tx sea slot st = Inr st' \<Longrightarrow> effect E tx st st'"
  "set_admin tx saa st = Inr st' \<Longrightarrow> effect E tx st st'"
  "set_clawback_receiver tx sra st = Inr st' \<Longrightarrow> effect E tx st st'"
  "set_clawback_start_ts tx sta ts st = Inr st' \<Longrightarrow> effect E tx st st'"
  unfolding admin_Inr
  by (elim exE conjE, rule administers_effect, assumption, simp, assumption,
      simp add: administered_def same_terms_def)+

lemma new_distributor_effect:
  assumes "new_distributor E tx accs args st = Inr st'"
  shows "effect E tx st st'"
proof -
  from assms obtain bump where v: "validate_new_distributor E tx accs (na_version args) st = Inr bump"
    by (auto simp: new_distributor_def exec_iff)
  show ?thesis
  proof (rule new_distributor_Inr [OF assms])
    fix d
    assume d: "st' = put_distributor (nd_distributor accs) d st"
      "\<not> in_use st (nd_distributor accs)"
      "schedule_ok (sint (unix_timestamp tx)) (sint (md_start_ts d)) (sint (md_end_ts d))
        (sint (md_clawback_start_ts d))"
      "(nd_distributor accs, md_bump d) =
        get_merkle_distributor_pda E (program_id tx) (md_base d) (md_mint d) (md_version d)"
      "md_token_vault d = get_associated_token_address E (nd_distributor accs) (md_mint d)"
      "md_admin d = nd_admin accs" "md_total_amount_claimed d = 0" "md_num_nodes_claimed d = 0"
      "\<not> md_clawed_back d" "nd_admin accs \<in> signers tx" "nd_base accs \<in> signers tx"
      "md_base d = nd_base accs" "md_token_vault d = nd_token_vault accs"
    then show ?thesis
      using v by (auto simp: fresh_distributor_def validate_new_distributor_def check_defs exec_iff
          intro!: effect.opens split: prod.splits)
  qed
qed

lemma new_claim_effect:
  assumes "new_claim E tx accs u l pf st = Inr st'"
  shows "effect E tx st st'"
proof -
  from assms obtain d where v: "validate_new_claim E tx accs st = Inr d"
    and h: "handle_new_claim E tx accs d u l pf st = Inr st'"
    by (auto simp: new_claim_def exec_iff)
  note v' = validate_new_claim_Inr [OF v]
  let ?cs = "\<lparr>cs_claimant = nc_claimant accs, cs_locked_amount = l, cs_locked_amount_withdrawn = 0,
    cs_unlocked_amount = u, cs_closable = md_closable d, cs_admin = md_admin d\<rparr>"
  from h show ?thesis
  proof (rule handle_new_claim_Inr)
    fix n t toks
    assume a: "\<not> md_clawed_back d" "md_enable_slot d \<le> clock_slot tx"
      "unat n = unat (md_num_nodes_claimed d) + 1" "n \<le> md_max_num_nodes d"
      "verify (rt_hashv E) pf (md_root d) (claim_leaf (rt_hashv E) (nc_claimant accs) u l)"
      "spl_transfer E (token_accounts st) (nc_from accs) (nc_to accs) (nc_distributor accs) u = Inr toks"
      "unat t = unat (md_total_amount_claimed d) + unat u" "t \<le> md_max_total_claim d"
      and st': "st' = st\<lparr>distributors := (distributors st)(nc_distributor accs \<mapsto>
          d\<lparr>md_num_nodes_claimed := n, md_total_amount_claimed := t\<rparr>),
        claim_statuses := (claim_statuses st)(nc_claim_status accs \<mapsto> ?cs),
        token_accounts := toks,
        events := events st @ [NewClaimEvent (nc_claimant accs) (unix_timestamp tx)]\<rparr>"
    have "counted 1 (unat u) d (d\<lparr>md_num_nodes_claimed := n, md_total_amount_claimed := t\<rparr>)"
      using a unfolding counted_def by blast
    with v' a show ?thesis
      unfolding st' by (auto intro!: effect.claims [where pf = pf])
  qed
qed

lemma claim_locked_effect:
  assumes "claim_locked E tx accs st = Inr st'"
  shows "effect E tx st st'"
proof -
  from assms obtain d cs where v: "validate_claim_locked E tx accs st = Inr (d, cs)"
    and h: "handle_claim_locked E tx accs d cs st = Inr st'"
    by (auto simp: claim_locked_def exec_iff)
  note v' = validate_claim_locked_Inr [OF v]
  from h show ?thesis
  proof (rule handle_claim_locked_Inr)
    fix amount w t toks
    assume a: "\<not> md_clawed_back d" "md_enable_slot d \<le> clock_slot tx"
      "amount_withdrawable cs (unix_timestamp tx) (md_start_ts d) (md_end_ts d) = Inr amount"
      "0 < amount"
      "spl_transfer E (token_accounts st) (cl_from accs) (cl_to accs) (cl_distributor accs) amount =
        Inr toks"
      "unat w = unat (cs_locked_amount_withdrawn cs) + unat amount" "w \<le> cs_locked_amount cs"
      "unat t = unat (md_total_amount_claimed d) + unat amount" "t \<le> md_max_total_claim d"
      and st': "st' = st\<lparr>
        distributors := (distributors st)(cl_distributor accs \<mapsto> d\<lparr>md_total_amount_claimed := t\<rparr>),
        claim_statuses := (claim_statuses st)(cl_claim_status accs \<mapsto>
          cs\<lparr>cs_locked_amount_withdrawn := w\<rparr>),
        token_accounts := toks,
        events := events st @ [ClaimedEvent (cl_claimant accs) amount]\<rparr>"
    have "counted 0 (unat amount) d (d\<lparr>md_total_amount_claimed := t\<rparr>)"
      unfolding counted_def
      by (rule exI [of _ "md_num_nodes_claimed d"], rule exI [of _ t]) (use a in simp)
    moreover have "withdrawn (unat amount) cs (cs\<lparr>cs_locked_amount_withdrawn := w\<rparr>)"
      using a unfolding withdrawn_def by blast
    ultimately show ?thesis
      using v' a unfolding st' by (auto intro!: effect.withdraws [where cs = cs and amt = amount])
  qed
qed

lemma lifecycle_effect:
  "clawback E tx cba st = Inr st' \<Longrightarrow> effect E tx st st'"
  "close_distributor E tx cda st = Inr st' \<Longrightarrow> effect E tx st st'"
  "close_claim_status tx cca st = Inr st' \<Longrightarrow> effect E tx st st'"
proof -
  assume "clawback E tx cba st = Inr st'"
  then show "effect E tx st st'"
    unfolding clawback_Inr by (elim exE conjE) (metis effect.claws_back)
next
  assume "close_distributor E tx cda st = Inr st'"
  then show "effect E tx st st'"
    by (rule close_distributor_Inr) (metis effect.closes)
next
  assume "close_claim_status tx cca st = Inr st'"
  then show "effect E tx st st'"
    unfolding close_claim_status_Inr by (elim exE conjE) (metis effect.closes_status)
qed

lemmas instruction_effect = new_distributor_effect lifecycle_effect admin_effect new_claim_effect
  claim_locked_effect

lemma process_instruction_effect:
  "process_instruction E tx ins st = Inr st' \<Longrightarrow> effect E tx st st'"
  by (cases ins) (simp_all add: instruction_effect)

end
