(* ===== verification/Step_System.thy ===== *)
theory Step_System
  imports Prelude
begin

text \<open>
  What a component with a step relation owes to those who reason about its runs, as interfaces: an
  invariant that every step keeps, and a relation between earlier and later states that every step
  from a good state extends.  The on-chain program's ledger is interpreted against them.
\<close>

locale stepping_invariant =
  fixes step :: "'s \<Rightarrow> 's \<Rightarrow> bool"
    and inv :: "'s \<Rightarrow> bool"
  assumes step_inv: "inv s \<Longrightarrow> step s s' \<Longrightarrow> inv s'"
begin

lemma run_inv: "step\<^sup>*\<^sup>* s s' \<Longrightarrow> inv s \<Longrightarrow> inv s'"
  by (induction rule: rtranclp_induct) (auto intro: step_inv)

end

locale stepping_order = stepping_invariant step inv
  for step :: "'s \<Rightarrow> 's \<Rightarrow> bool"
    and inv :: "'s \<Rightarrow> bool" +
  fixes evolves :: "'s \<Rightarrow> 's \<Rightarrow> bool"
  assumes evolves_refl: "evolves s s"
    and evolves_trans: "evolves s s' \<Longrightarrow> evolves s' s'' \<Longrightarrow> evolves s s''"
    and step_evolves: "inv s \<Longrightarrow> step s s' \<Longrightarrow> evolves s s'"
begin

lemma run_evolves: "step\<^sup>*\<^sup>* s s' \<Longrightarrow> inv s \<Longrightarrow> evolves s s'"
proof (induction rule: rtranclp_induct)
  case base
  show ?case by (rule evolves_refl)
next
  case (step s' s'')
  then have "evolves s' s''"
    by (blast intro: step_evolves run_inv)
  with step show ?case by (blast intro: evolves_trans)
qed

end

text \<open>A further condition that steps keep as long as the invariant holds.\<close>

locale stepping_condition = stepping_invariant step inv
  for step :: "'s \<Rightarrow> 's \<Rightarrow> bool"
    and inv :: "'s \<Rightarrow> bool" +
  fixes cond :: "'s \<Rightarrow> bool"
  assumes step_cond: "inv s \<Longrightarrow> cond s \<Longrightarrow> step s s' \<Longrightarrow> cond s'"
begin

sublocale both: stepping_invariant step "\<lambda>s. inv s \<and> cond s"
  by unfold_locales (blast intro: step_inv step_cond)

lemma run_cond: "step\<^sup>*\<^sup>* s s' \<Longrightarrow> inv s \<Longrightarrow> cond s \<Longrightarrow> cond s'"
  using both.run_inv by blast

end

end
