(* ===== verification/Distributor_System.thy ===== *)
theory Distributor_System
  imports Effects Step_System
begin

text \<open>
  The ledger that the program acts on, and what holds along every run of it.  A step is one
  instruction that succeeds, a transaction that fails (which leaves the accounts as they were), or a
  change of token accounts by someone else; such a change cannot take from an account whose owner is
  a distributor, because only the program can sign for a distributor's address.  The invariants are
  proved over the cases of \<open>effect\<close> and interpreted against the interfaces of \<open>Step_System\<close>.
\<close>

section \<open>The ledger\<close>

record ledger =
  now :: i64
  accounts :: chain

definition external_change :: "chain \<Rightarrow> (pubkey \<rightharpoonup> token_account) \<Rightarrow> bool" where
  "external_change st accs \<longleftrightarrow> (\<forall>k a. token_accounts st k = Some a \<longrightarrow>
     ta_owner a \<in> dom (distributors st) \<longrightarrow>
     (\<exists>a'. accs k = Some a' \<and> ta_owner a' = ta_owner a \<and> ta_mint a' = ta_mint a \<and>
       unat (ta_amount a) \<le> unat (ta_amount a')))"

inductive ledger_step :: "solana \<Rightarrow> pubkey \<Rightarrow> ledger \<Rightarrow> ledger \<Rightarrow> bool"
  for E :: solana and pid :: pubkey where
  executed: "process_instruction E tx ins (accounts l) = Inr st' \<Longrightarrow> program_id tx = pid \<Longrightarrow>
    sint (now l) \<le> sint (unix_timestamp tx) \<Longrightarrow>
    ledger_step E pid l \<lparr>now = unix_timestamp tx, accounts = st'\<rparr>"
| failed: "process_instruction E tx ins (accounts l) = Inl e \<Longrightarrow> program_id tx = pid \<Longrightarrow>
    sint (now l) \<le> sint (unix_timestamp tx) \<Longrightarrow>
    ledger_step E pid l (l\<lparr>now := unix_timestamp tx\<rparr>)"
| external: "external_change (accounts l) accs \<Longrightarrow>
    ledger_step E pid l (l\<lparr>accounts := (accounts l)\<lparr>token_accounts := accs, mints := ms\<rparr>\<rparr>)"

inductive_cases ledger_stepE: "ledger_step E pid l l'"

text \<open>Before the program is used there are no distributors and no claims.\<close>

inductive reachable :: "solana \<Rightarrow> pubkey \<Rightarrow> ledger \<Rightarrow> bool"
  for E :: solana and pid :: pubkey where
  start: "distributors (accounts l) = Map.empty \<Longrightarrow> claim_statuses (accounts l) = Map.empty \<Longrightarrow>
    0 \<le> sint (now l) \<Longrightarrow> reachable E pid l"
| next_step: "reachable E pid l \<Longrightarrow> ledger_step E pid l l' \<Longrightarrow> reachable E pid l'"

section \<open>The invariant\<close>

definition distributor_ok :: "solana \<Rightarrow> pubkey \<Rightarrow> pubkey \<Rightarrow> merkle_distributor \<Rightarrow> bool" where
  "distributor_ok E pid k d \<longleftrightarrow>
     md_num_nodes_claimed d \<le> md_max_num_nodes d \<and>
     md_total_amount_claimed d \<le> md_max_total_claim d \<and>
     0 < sint (md_start_ts d) \<and> sint (md_start_ts d) < sint (md_end_ts d) \<and>
     sint (md_end_ts d) + 86400 \<le> sint (md_clawback_start_ts d) \<and>
     (k, md_bump d) = get_merkle_distributor_pda E pid (md_base d) (md_mint d) (md_version d) \<and>
     md_token_vault d = get_associated_token_address E k (md_mint d)"

definition status_ok :: "claim_status \<Rightarrow> bool" where
  "status_ok cs \<longleftrightarrow> cs_locked_amount_withdrawn cs \<le> cs_locked_amount cs"

text \<open>Every distributor owns its vault.\<close>

definition vaults_ok :: "chain \<Rightarrow> bool" where
  "vaults_ok st \<longleftrightarrow> (\<forall>k d. distributors st k = Some d \<longrightarrow>
     (\<exists>v. token_accounts st (md_token_vault d) = Some v \<and> ta_owner v = k))"

definition ledger_inv :: "solana \<Rightarrow> pubkey \<Rightarrow> ledger \<Rightarrow> bool" where
  "ledger_inv E pid l \<longleftrightarrow> 0 \<le> sint (now l) \<and>
     (\<forall>k d. distributors (accounts l) k = Some d \<longrightarrow> distributor_ok E pid k d) \<and>
     (\<forall>c cs. claim_statuses (accounts l) c = Some cs \<longrightarrow> status_ok cs) \<and>
     (spl_transfer_sound E \<longrightarrow> vaults_ok (accounts l))"

lemma administered_ok:
  "administered t d d' \<Longrightarrow> distributor_ok E pid k d \<Longrightarrow> distributor_ok E pid k d'"
  by (auto simp: administered_def same_terms_def distributor_ok_def)

lemma counted_ok:
  "counted n a d d' \<Longrightarrow> distributor_ok E pid k d \<Longrightarrow> distributor_ok E pid k d'"
  by (auto simp: counted_def distributor_ok_def word_le_nat_alt)

lemma distributor_ok_clawed [simp]:
  "distributor_ok E pid k (d\<lparr>md_clawed_back := b\<rparr>) = distributor_ok E pid k d"
  by (simp add: distributor_ok_def)

lemma withdrawn_ok: "withdrawn a cs cs' \<Longrightarrow> status_ok cs'"
  by (auto simp: withdrawn_def status_ok_def)

lemma fresh_distributor_ok:
  "fresh_distributor E tx st k d \<Longrightarrow> 0 \<le> sint (unix_timestamp tx) \<Longrightarrow> program_id tx = pid \<Longrightarrow>
     distributor_ok E pid k d"
  by (auto simp: fresh_distributor_def distributor_ok_def schedule_ok_def)

lemma effect_distributors_ok:
  assumes "effect E tx st st'" and "0 \<le> sint (unix_timestamp tx)" and "program_id tx = pid"
    and "\<forall>k d. distributors st k = Some d \<longrightarrow> distributor_ok E pid k d"
    and "distributors st' k = Some d"
  shows "distributor_ok E pid k d"
  using assms
  by (cases rule: effect.cases)
    (auto split: if_splits intro: fresh_distributor_ok administered_ok counted_ok)

lemma effect_statuses_ok:
  assumes "effect E tx st st'" and "\<forall>c cs. claim_statuses st c = Some cs \<longrightarrow> status_ok cs"
    and "claim_statuses st' c = Some cs"
  shows "status_ok cs"
  using assms
  by (cases rule: effect.cases) (auto split: if_splits dest: withdrawn_ok simp: status_ok_def)

text \<open>Transfers keep the owners of accounts.\<close>

definition owners_kept :: "(pubkey \<rightharpoonup> token_account) \<Rightarrow> (pubkey \<rightharpoonup> token_account) \<Rightarrow> bool" where
  "owners_kept accs accs' \<longleftrightarrow> (\<forall>k a. accs k = Some a \<longrightarrow>
     (\<exists>a'. accs' k = Some a' \<and> ta_owner a' = ta_owner a))"

lemma owners_kept_refl [simp]: "owners_kept accs accs"
  by (simp add: owners_kept_def)

lemma moves_owners:
  assumes "moves accs from to amt accs'"
  shows "owners_kept accs accs'"
proof -
  have "\<exists>a'. accs' k = Some a' \<and> ta_owner a' = ta_owner a" if "accs k = Some a" for k a
  proof -
    from assms have "dom accs' = dom accs" by (simp add: moves_def)
    with that obtain a' where "accs' k = Some a'" by blast
    with assms that show ?thesis unfolding moves_def by blast
  qed
  then show ?thesis by (simp add: owners_kept_def)
qed

lemma effect_owners:
  assumes "effect E tx st st'" and "spl_transfer_sound E"
  shows "owners_kept (token_accounts st) (token_accounts st')"
  using assms
  by (cases rule: effect.cases)
    (auto dest: moves_owners [OF spl_transfer_moves])

lemma effect_origin:
  assumes "effect E tx st st'" and "distributors st' k = Some d'"
  shows "(\<exists>d. distributors st k = Some d \<and> md_token_vault d' = md_token_vault d) \<or>
    fresh_distributor E tx st k d'"
  using assms
  by (cases rule: effect.cases)
    (auto split: if_splits simp: administered_def counted_def same_terms_def)

lemma vaults_ok_kept:
  assumes "effect E tx st st'" and "spl_transfer_sound E" and "vaults_ok st"
  shows "vaults_ok st'"
proof -
  have "\<exists>v. token_accounts st' (md_token_vault d') = Some v \<and> ta_owner v = k"
    if "distributors st' k = Some d'" for k d'
    using effect_origin [OF assms(1) that] assms(3) effect_owners [OF assms(1,2)]
    unfolding vaults_ok_def fresh_distributor_def owners_kept_def by metis
  then show ?thesis by (simp add: vaults_ok_def)
qed

lemma external_vaults_ok:
  assumes "external_change st accs" and "vaults_ok st"
  shows "vaults_ok (st\<lparr>token_accounts := accs, mints := ms\<rparr>)"
  using assms unfolding vaults_ok_def external_change_def by (simp, metis domI)

lemma ledger_step_inv:
  assumes "ledger_inv E pid l" and "ledger_step E pid l l'"
  shows "ledger_inv E pid l'"
  using assms(2)
proof (cases rule: ledger_step.cases)
  case (executed tx ins st')
  note eff = process_instruction_effect [OF executed(2)]
  have t: "0 \<le> sint (unix_timestamp tx)"
    using assms(1) executed(4) by (simp add: ledger_inv_def)
  show ?thesis
    using assms(1) executed(3) t effect_distributors_ok [OF eff t executed(3)]
      effect_statuses_ok [OF eff] vaults_ok_kept [OF eff]
    unfolding ledger_inv_def executed(1) by simp
next
  case (failed tx ins e)
  with assms(1) show ?thesis by (simp add: ledger_inv_def)
next
  case (external accs ms)
  with assms(1) external_vaults_ok [OF external(2)] show ?thesis by (simp add: ledger_inv_def)
qed

interpretation ledger: stepping_invariant "ledger_step E pid" "ledger_inv E pid"
  for E :: solana and pid :: pubkey
  by unfold_locales (rule ledger_step_inv)

lemma reachable_run:
  assumes "reachable E pid l"
  obtains l0 where "(ledger_step E pid)\<^sup>*\<^sup>* l0 l" and "ledger_inv E pid l0"
proof -
  from assms have "\<exists>l0. (ledger_step E pid)\<^sup>*\<^sup>* l0 l \<and> ledger_inv E pid l0"
  proof (induction rule: reachable.induct)
    case (start l)
    then have "ledger_inv E pid l" by (simp add: ledger_inv_def vaults_ok_def)
    then show ?case by blast
  next
    case (next_step l l')
    then show ?case by (blast intro: rtranclp.rtrancl_into_rtrancl)
  qed
  then show thesis using that by blast
qed

lemma reachable_inv: "reachable E pid l \<Longrightarrow> ledger_inv E pid l"
  by (erule reachable_run) (rule ledger.run_inv)

section \<open>How accounts evolve\<close>

lemma effect_distributor:
  assumes "effect E tx st st'" and "distributors st k = Some d"
  shows "(distributors st' k = None \<and> md_closable d \<and> md_admin d \<in> signers tx) \<or>
    (\<exists>d'. distributors st' k = Some d' \<and> grows d d')"
  using assms
  by (cases rule: effect.cases)
    (auto simp: grows_def same_terms_def administered_def counted_def fresh_distributor_def in_use_def
      word_le_nat_alt)

lemma effect_status:
  assumes "effect E tx st st'" and "claim_statuses st c = Some cs"
  shows "(claim_statuses st' c = None \<and> cs_closable cs \<and> cs_admin cs \<in> signers tx) \<or>
    (\<exists>cs'. claim_statuses st' c = Some cs' \<and> status_grows cs cs')"
  using assms
  by (cases rule: effect.cases)
    (auto simp: status_grows_def withdrawn_def in_use_def word_le_nat_alt)

text \<open>Distributors and claim statuses that are not closable stay, and time does not go back.\<close>

definition evolves :: "ledger \<Rightarrow> ledger \<Rightarrow> bool" where
  "evolves l l' \<longleftrightarrow> sint (now l) \<le> sint (now l') \<and>
     (\<forall>k d. distributors (accounts l) k = Some d \<longrightarrow> \<not> md_closable d \<longrightarrow>
       (\<exists>d'. distributors (accounts l') k = Some d' \<and> grows d d')) \<and>
     (\<forall>c cs. claim_statuses (accounts l) c = Some cs \<longrightarrow> \<not> cs_closable cs \<longrightarrow>
       (\<exists>cs'. claim_statuses (accounts l') c = Some cs' \<and> status_grows cs cs'))"

lemma evolves_refl: "evolves l l"
  by (simp add: evolves_def)

lemma evolves_trans:
  assumes "evolves l l'" and "evolves l' l''"
  shows "evolves l l''"
proof -
  have "\<exists>d''. distributors (accounts l'') k = Some d'' \<and> grows d d''"
    if d: "distributors (accounts l) k = Some d" "\<not> md_closable d" for k d
  proof -
    from assms(1) d obtain d' where d': "distributors (accounts l') k = Some d'" "grows d d'"
      unfolding evolves_def by blast
    with d(2) have "\<not> md_closable d'" by (simp add: grows_def same_terms_def)
    with assms(2) d'(1) obtain d'' where "distributors (accounts l'') k = Some d''" "grows d' d''"
      unfolding evolves_def by blast
    with d'(2) show ?thesis by (blast intro: grows_trans)
  qed
  moreover have "\<exists>cs''. claim_statuses (accounts l'') c = Some cs'' \<and> status_grows cs cs''"
    if cs: "claim_statuses (accounts l) c = Some cs" "\<not> cs_closable cs" for c cs
  proof -
    from assms(1) cs obtain cs' where cs': "claim_statuses (accounts l') c = Some cs'" "status_grows cs cs'"
      unfolding evolves_def by blast
    with cs(2) have "\<not> cs_closable cs'" by (simp add: status_grows_def)
    with assms(2) cs'(1) obtain cs'' where "claim_statuses (accounts l'') c = Some cs''"
      "status_grows cs' cs''"
      unfolding evolves_def by blast
    with cs'(2) show ?thesis by (blast intro: status_grows_trans)
  qed
  ultimately show ?thesis
    using assms unfolding evolves_def by fastforce
qed

lemma ledger_step_evolves:
  assumes "ledger_step E pid l l'"
  shows "evolves l l'"
  using assms
proof (cases rule: ledger_step.cases)
  case (executed tx ins st')
  note eff = process_instruction_effect [OF executed(2)]
  from effect_distributor [OF eff] effect_status [OF eff] executed(4) show ?thesis
    unfolding evolves_def executed(1) by (simp, blast)
qed (auto simp: evolves_def)

interpretation history: stepping_order "ledger_step E pid" "ledger_inv E pid" evolves
  for E :: solana and pid :: pubkey
  by unfold_locales (rule evolves_refl, erule (1) evolves_trans, erule ledger_step_evolves)

section \<open>Solvency\<close>

lemma moves_from: "moves accs from to amt accs' \<Longrightarrow> balance accs from \<le> balance accs' from + amt"
  by (auto simp: moves_def split: if_splits)

lemma moves_other:
  assumes "moves accs from to amt accs'" and "v \<noteq> from"
  shows "balance accs v \<le> balance accs' v"
proof (cases "v = to")
  case True
  with assms show ?thesis by (auto simp: moves_def split: if_splits)
next
  case False
  with assms show ?thesis by (simp add: moves_def balance_def)
qed

text \<open>What a distributor has paid out and what its vault still holds.\<close>

definition paid_and_held :: "chain \<Rightarrow> merkle_distributor \<Rightarrow> nat" where
  "paid_and_held st d =
     unat (md_total_amount_claimed d) + balance (token_accounts st) (md_token_vault d)"

lemma vaults_distinct:
  assumes "vaults_ok st" and "distributors st k = Some d" and "distributors st k' = Some d'"
    and "k \<noteq> k'"
  shows "md_token_vault d \<noteq> md_token_vault d'"
  using assms unfolding vaults_ok_def by (metis option.inject)

text \<open>A transfer out of the vault of \<open>k1\<close>, as seen from the vault of \<open>k\<close>.\<close>

lemma vault_transfer:
  assumes "spl_transfer_sound E" and "vaults_ok st"
    and "spl_transfer E (token_accounts st) (md_token_vault d1) to k1 amt = Inr toks"
    and "distributors st k1 = Some d1" and "distributors st k = Some d"
  shows "balance (token_accounts st) (md_token_vault d) \<le>
    balance toks (md_token_vault d) + (if k = k1 then unat amt else 0)"
proof -
  note m = spl_transfer_moves [OF assms(1,3)]
  show ?thesis
  proof (cases "k = k1")
    case True
    with assms(4,5) moves_from [OF m] show ?thesis by simp
  next
    case False
    with vaults_distinct [OF assms(2,5,4)] moves_other [OF m] show ?thesis by simp
  qed
qed

lemma effect_paid_and_held:
  assumes "effect E tx st st'" and "spl_transfer_sound E" and "vaults_ok st"
    and d: "distributors st k = Some d" and d': "distributors st' k = Some d'"
    and "\<not> md_clawed_back d'"
  shows "paid_and_held st d \<le> paid_and_held st' d'"
  using assms(1)
proof (cases rule: effect.cases)
  case (opens k1 d1)
  then have "k \<noteq> k1" using d by (auto simp: fresh_distributor_def in_use_def)
  with opens d d' show ?thesis by (simp add: paid_and_held_def)
next
  case (administers k1 d1 d2)
  with d d' show ?thesis
    by (cases "k = k1") (auto simp: paid_and_held_def administered_def same_terms_def)
next
  case (claims k1 d1 c cs pf d2 to toks vault dest evs)
  with d d' vault_transfer [OF assms(2,3) claims(12) claims(2) d] show ?thesis
    by (cases "k = k1") (auto simp: paid_and_held_def counted_def)
next
  case (withdraws k1 d1 c cs claimant amt d2 cs' to toks vault dest evs)
  with d d' vault_transfer [OF assms(2,3) withdraws(11) withdraws(2) d] show ?thesis
    by (cases "k = k1") (auto simp: paid_and_held_def counted_def)
next
  case (claws_back k1 d1 vault toks)
  with d d' assms(6) vault_transfer [OF assms(2,3) claws_back(7) claws_back(2) d] show ?thesis
    by (cases "k = k1") (auto simp: paid_and_held_def)
next
  case (closes k1 d1 vault to toks)
  with d d' vault_transfer [OF assms(2,3) closes(6) closes(2) d] show ?thesis
    by (cases "k = k1") (auto simp: paid_and_held_def)
next
  case (closes_status c cs)
  with d d' show ?thesis by (simp add: paid_and_held_def)
qed

lemma external_balance:
  assumes "external_change st accs" and "vaults_ok st" and "distributors st k = Some d"
  shows "balance (token_accounts st) (md_token_vault d) \<le> balance accs (md_token_vault d)"
proof -
  from assms(2,3) obtain v where v: "token_accounts st (md_token_vault d) = Some v" "ta_owner v = k"
    unfolding vaults_ok_def by blast
  with assms(1,3) obtain v' where "accs (md_token_vault d) = Some v'"
    "unat (ta_amount v) \<le> unat (ta_amount v')"
    unfolding external_change_def by blast
  with v show ?thesis by (simp add: balance_def)
qed

lemma step_paid_and_held:
  assumes "ledger_step E pid l l'" and "spl_transfer_sound E" and "vaults_ok (accounts l)"
    and "distributors (accounts l) k = Some d" and "distributors (accounts l') k = Some d'"
    and "\<not> md_clawed_back d'"
  shows "paid_and_held (accounts l) d \<le> paid_and_held (accounts l') d'"
  using assms(1)
proof (cases rule: ledger_step.cases)
  case (executed tx ins st')
  with effect_paid_and_held [OF process_instruction_effect [OF executed(2)]] assms(2-6)
  show ?thesis by simp
next
  case (failed tx ins e)
  with assms show ?thesis by simp
next
  case (external accs ms)
  with external_balance [OF external(2) assms(3,4)] assms(4,5) show ?thesis
    by (simp add: paid_and_held_def)
qed

text \<open>A distributor that can still pay everything it was set up for.\<close>

definition funded :: "solana \<Rightarrow> pubkey \<Rightarrow> ledger \<Rightarrow> bool" where
  "funded E k l \<longleftrightarrow> spl_transfer_sound E \<longrightarrow>
     (\<exists>d. distributors (accounts l) k = Some d \<and> \<not> md_closable d \<and>
       (md_clawed_back d \<or> unat (md_max_total_claim d) \<le> paid_and_held (accounts l) d))"

lemma step_funded:
  assumes inv: "ledger_inv E pid l" and "funded E k l" and step: "ledger_step E pid l l'"
  shows "funded E k l'"
  unfolding funded_def
proof
  assume snd: "spl_transfer_sound E"
  with assms(2) obtain d where d: "distributors (accounts l) k = Some d" "\<not> md_closable d"
    and pays: "md_clawed_back d \<or> unat (md_max_total_claim d) \<le> paid_and_held (accounts l) d"
    unfolding funded_def by blast
  from ledger_step_evolves [OF step] d obtain d' where
    d': "distributors (accounts l') k = Some d'" and g: "grows d d'"
    unfolding evolves_def by blast
  have "vaults_ok (accounts l)" using inv snd by (simp add: ledger_inv_def)
  from step_paid_and_held [OF step snd this d(1) d'] pays g
  have "md_clawed_back d' \<or> unat (md_max_total_claim d') \<le> paid_and_held (accounts l') d'"
    by (cases "md_clawed_back d'") (auto simp: grows_def same_terms_def)
  with d' d(2) g show "\<exists>d'. distributors (accounts l') k = Some d' \<and> \<not> md_closable d' \<and>
      (md_clawed_back d' \<or> unat (md_max_total_claim d') \<le> paid_and_held (accounts l') d')"
    by (auto simp: grows_def same_terms_def)
qed

interpretation solvent: stepping_condition "ledger_step E pid" "ledger_inv E pid" "funded E k"
  for E :: solana and pid :: pubkey and k :: pubkey
  by unfold_locales (rule step_funded)

end
