(* ===== verification/Merkle_Tree.thy ===== *)
theory Merkle_Tree
  imports Merkle_Verify
begin

text \<open>
  The Merkle tree of \<open>merkle-tree/src/merkle_tree.rs\<close>: one flat vector of hashes, leaves first, each
  level after the one below it.  The definitions keep the index arithmetic of the code, and every
  indexing that could panic is a branch.  The abstract view is the list of levels; the lemmas at the
  end of each section show that the flat algorithms compute it and never panic.
\<close>

section \<open>The data\<close>

record merkle_tree =
  leaf_count :: nat
  nodes :: "hash list"

text \<open>A tuple struct of the target and its two optional siblings.\<close>

datatype proof_entry =
  ProofEntry (pe_target: hash) (get_left_sibling: "hash option") (get_right_sibling: "hash option")

definition hash_leaf :: "hashv \<Rightarrow> u8 list \<Rightarrow> hash" where
  "hash_leaf h d = h [LEAF_PREFIX, d]"

definition hash_intermediate :: "hashv \<Rightarrow> hash \<Rightarrow> hash \<Rightarrow> hash" where
  "hash_intermediate h l r = h [INTERMEDIATE_PREFIX, to_bytes l, to_bytes r]"

text \<open>\<open>ProofEntry::new\<close> asserts that exactly one sibling is given.\<close>

definition proof_entry_new :: "hash \<Rightarrow> hash option \<Rightarrow> hash option \<Rightarrow> panic + proof_entry" where
  "proof_entry_new target left_sibling right_sibling =
     and_then (require ((left_sibling = None) \<noteq> (right_sibling = None)) AssertionFailed)
       (\<lambda>_. Inr (ProofEntry target left_sibling right_sibling))"

section \<open>Building the tree\<close>

definition next_level_len :: "nat \<Rightarrow> nat" where
  "next_level_len level_len = (if level_len = 1 then 0 else (level_len + 1) div 2)"

text \<open>The hash of two siblings, sorted first when the tree is built for the distributor.\<close>

definition combine :: "hashv \<Rightarrow> bool \<Rightarrow> hash \<Rightarrow> hash \<Rightarrow> hash" where
  "combine h sorted_hashes lsib rsib =
     (if sorted_hashes
      then (if lsib \<le> rsib then hash_intermediate h lsib rsib else hash_intermediate h rsib lsib)
      else hash_intermediate h lsib rsib)"

text \<open>The body of the inner \<open>for\<close> loop, and the loop over its remaining indices.\<close>

definition push_parent ::
  "hashv \<Rightarrow> bool \<Rightarrow> nat \<Rightarrow> nat \<Rightarrow> nat \<Rightarrow> hash list \<Rightarrow> panic + hash list" where
  "push_parent h sorted_hashes prev_level_start prev_level_len i ns =
     (let prev_level_idx = 2 * i in
      and_then (index_vec ns (prev_level_start + prev_level_idx)) (\<lambda>lsib.
      and_then (if prev_level_idx + 1 < prev_level_len
                then index_vec ns (prev_level_start + prev_level_idx + 1)
                else index_vec ns (prev_level_start + prev_level_idx)) (\<lambda>rsib.
      Inr (ns @ [combine h sorted_hashes lsib rsib]))))"

fun push_level ::
  "hashv \<Rightarrow> bool \<Rightarrow> nat \<Rightarrow> nat \<Rightarrow> nat list \<Rightarrow> hash list \<Rightarrow> panic + hash list" where
  "push_level h sorted_hashes prev_level_start prev_level_len [] ns = Inr ns"
| "push_level h sorted_hashes prev_level_start prev_level_len (i # is) ns =
     and_then (push_parent h sorted_hashes prev_level_start prev_level_len i ns)
       (push_level h sorted_hashes prev_level_start prev_level_len is)"

lemma next_level_len_less: "0 < n \<Longrightarrow> next_level_len n < n"
  by (auto simp: next_level_len_def)

text \<open>The outer \<open>while level_len > 0\<close> loop.\<close>

function build_loop ::
  "hashv \<Rightarrow> bool \<Rightarrow> nat \<Rightarrow> nat \<Rightarrow> nat \<Rightarrow> nat \<Rightarrow> hash list \<Rightarrow> panic + hash list" where
  "build_loop h sorted_hashes level_len level_start prev_level_len prev_level_start ns =
     (if 0 < level_len
      then and_then (push_level h sorted_hashes prev_level_start prev_level_len [0..<level_len] ns)
             (build_loop h sorted_hashes (next_level_len level_len) (level_start + level_len)
                level_len level_start)
      else Inr ns)"
  by pat_completeness auto
termination
  by (relation "measure (\<lambda>(h, s, level_len, _). level_len)") (auto simp: next_level_len_less)

declare build_loop.simps [simp del]

text \<open>
  \<open>MerkleTree::new\<close>.  The capacity that \<open>calculate_vec_capacity\<close> reserves is a hint to the allocator
  and has no effect on the result.
\<close>

definition merkle_tree_new :: "hashv \<Rightarrow> bool \<Rightarrow> u8 list list \<Rightarrow> panic + merkle_tree" where
  "merkle_tree_new h sorted_hashes items =
     and_then
       (build_loop h sorted_hashes (next_level_len (length items)) (length items) (length items) 0
          (map (hash_leaf h) items))
       (\<lambda>ns. Inr \<lparr>leaf_count = length items, nodes = ns\<rparr>)"

definition get_root :: "merkle_tree \<Rightarrow> hash option" where
  "get_root mt = (if nodes mt = [] then None else Some (last (nodes mt)))"

subsection \<open>The levels of a tree\<close>

fun pair_level :: "('a \<Rightarrow> 'a \<Rightarrow> 'a) \<Rightarrow> 'a list \<Rightarrow> 'a list" where
  "pair_level f [] = []"
| "pair_level f [x] = [f x x]"
| "pair_level f (x # y # zs) = f x y # pair_level f zs"

lemma length_pair_level [simp]: "length (pair_level f xs) = (length xs + 1) div 2"
  by (induction f xs rule: pair_level.induct) auto

lemma pair_level_nth:
  "2 * i < length xs \<Longrightarrow>
     pair_level f xs ! i = f (xs ! (2 * i)) (if 2 * i + 1 < length xs then xs ! (2 * i + 1) else xs ! (2 * i))"
proof (induction f xs arbitrary: i rule: pair_level.induct)
  case (3 f x y zs)
  then show ?case by (cases i) auto
qed auto

function levels :: "('a \<Rightarrow> 'a \<Rightarrow> 'a) \<Rightarrow> 'a list \<Rightarrow> 'a list list" where
  "levels f xs = xs # (if length xs \<le> 1 then [] else levels f (pair_level f xs))"
  by pat_completeness auto
termination
  by (relation "measure (\<lambda>(f, xs). length xs)") auto

declare levels.simps [simp del]

lemma levels_short: "length xs \<le> 1 \<Longrightarrow> levels f xs = [xs]"
  by (subst levels.simps) simp

lemma levels_step: "1 < length xs \<Longrightarrow> levels f xs = xs # levels f (pair_level f xs)"
  by (subst levels.simps) simp

lemma levels_ne [simp]: "levels f xs \<noteq> []"
  by (subst levels.simps) simp

lemma hd_levels [simp]: "hd (levels f xs) = xs"
  by (subst levels.simps) simp

definition top_node :: "('a \<Rightarrow> 'a \<Rightarrow> 'a) \<Rightarrow> 'a list \<Rightarrow> 'a" where
  "top_node f xs = hd (last (levels f xs))"

lemma top_node_step: "1 < length xs \<Longrightarrow> top_node f xs = top_node f (pair_level f xs)"
  by (simp add: top_node_def levels_step)

lemma top_node_single [simp]: "top_node f [x] = x"
  by (simp add: top_node_def levels_short)

lemma length_pair_level_pos: "xs \<noteq> [] \<Longrightarrow> pair_level f xs \<noteq> []"
  by (cases xs; cases "tl xs") auto

lemma last_level_single:
  "xs \<noteq> [] \<Longrightarrow> last (levels f xs) = [top_node f xs]"
proof (induction f xs rule: levels.induct)
  case (1 f xs)
  show ?case
  proof (cases "length xs \<le> 1")
    case True
    with "1.prems" obtain x where "xs = [x]" by (cases xs) auto
    then show ?thesis by (simp add: levels_short)
  next
    case False
    with 1 show ?thesis
      by (simp add: levels_step top_node_step length_pair_level_pos)
  qed
qed


subsection \<open>The flat vector holds the levels one after another\<close>

lemma combine_sorted: "combine h True a b = h (step_input a b)"
  by (simp add: combine_def hash_intermediate_def step_input_def INTERMEDIATE_PREFIX_def)

lemma push_parent_level:
  assumes "2 * i < length prev"
  shows "push_parent h s (length pre) (length prev) i (pre @ prev @ acc) =
    Inr (pre @ prev @ acc @ [pair_level (combine h s) prev ! i])"
  using assms
  by (auto simp: push_parent_def Let_def index_vec_def nth_append pair_level_nth)

lemma push_level_from:
  assumes "n = (length prev + 1) div 2" and "i \<le> n"
  shows "push_level h s (length pre) (length prev) [i..<n]
      (pre @ prev @ take i (pair_level (combine h s) prev)) =
    Inr (pre @ prev @ pair_level (combine h s) prev)"
  using assms
proof (induction "n - i" arbitrary: i)
  case 0
  then show ?case by simp
next
  case (Suc k)
  let ?up = "pair_level (combine h s) prev"
  from Suc have i: "i < n" "2 * i < length prev" by auto
  then have "take i ?up @ [?up ! i] = take (Suc i) ?up"
    using Suc.prems(1) by (simp add: take_Suc_conv_app_nth)
  moreover have "push_level h s (length pre) (length prev) [Suc i..<n]
      (pre @ prev @ take (Suc i) ?up) = Inr (pre @ prev @ ?up)"
    using Suc i by (intro Suc.hyps(1)) auto
  ultimately show ?case
    using i by (simp add: upt_conv_Cons push_parent_level)
qed

lemma push_level_pair_level:
  assumes "n = (length prev + 1) div 2"
  shows "push_level h s (length pre) (length prev) [0..<n] (pre @ prev) =
    Inr (pre @ prev @ pair_level (combine h s) prev)"
  using push_level_from [OF assms, of 0] by simp

lemma build_loop_levels:
  assumes "ps = length pre" and "pl = length prev" and "ls = ps + pl"
    and "l = next_level_len pl"
  shows "build_loop h s l ls pl ps (pre @ prev) = Inr (pre @ concat (levels (combine h s) prev))"
  using assms
proof (induction "length prev" arbitrary: prev pre l ls pl ps rule: less_induct)
  case less
  show ?case
  proof (cases "length prev \<le> 1")
    case True
    then have "l = 0"
      using less.prems by (auto simp: next_level_len_def)
    with True show ?thesis
      by (simp add: build_loop.simps levels_short)
  next
    case False
    let ?up = "pair_level (combine h s) prev"
    from False have l: "l = (length prev + 1) div 2" "0 < l"
      using less.prems by (auto simp: next_level_len_def)
    have "push_level h s ps pl [0..<l] (pre @ prev) = Inr ((pre @ prev) @ ?up)"
      using push_level_pair_level [OF l(1)] less.prems by simp
    moreover have "build_loop h s (next_level_len l) (ls + l) l ls ((pre @ prev) @ ?up) =
        Inr ((pre @ prev) @ concat (levels (combine h s) ?up))"
      using False less.prems l by (intro less.hyps) auto
    ultimately show ?thesis
      using False l(2) by (subst build_loop.simps) (simp add: levels_step)
  qed
qed

lemma merkle_tree_new_levels:
  "merkle_tree_new h s items =
     Inr \<lparr>leaf_count = length items,
          nodes = concat (levels (combine h s) (map (hash_leaf h) items))\<rparr>"
  using build_loop_levels [of 0 "[]" "length items" "map (hash_leaf h) items"]
  by (simp add: merkle_tree_new_def)

lemma last_concat_levels:
  "xs \<noteq> [] \<Longrightarrow> last (concat (levels f xs)) = top_node f xs"
  by (metis (no_types, lifting) append_butlast_last_id concat.simps concat_append
      last_level_single last_snoc levels_ne append_Nil2)

lemma concat_levels_Nil_iff: "concat (levels f xs) = [] \<longleftrightarrow> xs = []"
  by (subst levels.simps) (auto simp: levels_short)

end
