(* ===== verification/Merkle_Path.thy ===== *)
theory Merkle_Path
  imports Merkle_Tree
begin

text \<open>
  Paths through the tree: \<open>MerkleTree::find_path\<close> and \<open>Proof::verify\<close> of
  \<open>merkle-tree/src/merkle_tree.rs\<close>, and \<open>get_proof\<close> of \<open>merkle-tree/src/utils.rs\<close>, which strips a
  path to the sibling hashes that the on-chain check takes.  The abstract view is the list of
  siblings read off the levels.
\<close>

section \<open>The code\<close>

text \<open>The siblings that one round of the loop records for the next one.\<close>

definition siblings :: "hash list \<Rightarrow> nat \<Rightarrow> panic + hash option \<times> hash option" where
  "siblings level node_index =
     (if node_index mod 2 = 0
      then and_then (if node_index + 1 < length level
                     then index_vec level (node_index + 1) else index_vec level node_index)
             (\<lambda>r. Inr (None, Some r))
      else and_then (index_vec level (node_index - 1)) (\<lambda>l. Inr (Some l, None)))"

function path_loop ::
  "hash list \<Rightarrow> nat \<Rightarrow> nat \<Rightarrow> nat \<Rightarrow> hash option \<Rightarrow> hash option \<Rightarrow> proof_entry list \<Rightarrow>
     panic + proof_entry list" where
  "path_loop ns level_len level_start node_index lsib rsib path =
     (if 0 < level_len
      then and_then (slice_vec ns level_start (level_start + level_len)) (\<lambda>level.
           and_then (index_vec level node_index) (\<lambda>target.
           and_then (if lsib \<noteq> None \<or> rsib \<noteq> None
                     then and_then (proof_entry_new target lsib rsib) (\<lambda>e. Inr (path @ [e]))
                     else Inr path) (\<lambda>path'.
           and_then (siblings level node_index) (\<lambda>(lsib', rsib').
           path_loop ns (next_level_len level_len) (level_start + level_len)
             (node_index div 2) lsib' rsib' path'))))
      else Inr path)"
  by pat_completeness auto
termination
  by (relation "measure (\<lambda>(ns, level_len, _). level_len)") (auto simp: next_level_len_less)

declare path_loop.simps [simp del]

definition find_path :: "merkle_tree \<Rightarrow> nat \<Rightarrow> panic + proof_entry list option" where
  "find_path mt index =
     (if leaf_count mt \<le> index then Inr None
      else and_then (path_loop (nodes mt) (leaf_count mt) 0 index None None [])
             (\<lambda>path. Inr (Some path)))"

text \<open>\<open>Proof::verify\<close> folds over the entries and gives up at the first target that differs.\<close>

fun proof_verify_fold :: "hashv \<Rightarrow> proof_entry list \<Rightarrow> hash \<Rightarrow> hash option" where
  "proof_verify_fold h [] candidate = Some candidate"
| "proof_verify_fold h (pe # pes) candidate =
     (let lsib = (case get_left_sibling pe of Some l \<Rightarrow> l | None \<Rightarrow> candidate);
          rsib = (case get_right_sibling pe of Some r \<Rightarrow> r | None \<Rightarrow> candidate);
          hash = hash_intermediate h lsib rsib
      in if hash = pe_target pe then proof_verify_fold h pes hash else None)"

definition proof_verify :: "hashv \<Rightarrow> proof_entry list \<Rightarrow> hash \<Rightarrow> bool" where
  "proof_verify h p candidate \<longleftrightarrow> proof_verify_fold h p candidate \<noteq> None"

text \<open>\<open>get_proof\<close> expects a path and a sibling in each entry.\<close>

definition branch_hash :: "proof_entry \<Rightarrow> panic + hash" where
  "branch_hash branch =
     (case get_left_sibling branch of
        Some hash \<Rightarrow> Inr hash
      | None \<Rightarrow> (case get_right_sibling branch of
          Some hash \<Rightarrow> Inr hash
        | None \<Rightarrow> Inl ExplicitPanic))"

definition get_proof :: "merkle_tree \<Rightarrow> nat \<Rightarrow> panic + hash list" where
  "get_proof mt index =
     and_then (find_path mt index) (\<lambda>r.
     and_then (unwrap r) (\<lambda>path. traverse branch_hash path))"

section \<open>The path read off the levels\<close>

definition sibling :: "'a list \<Rightarrow> nat \<Rightarrow> 'a" where
  "sibling lv i =
     (if even i then (if i + 1 < length lv then lv ! (i + 1) else lv ! i) else lv ! (i - 1))"

definition left_sib :: "'a list \<Rightarrow> nat \<Rightarrow> 'a option" where
  "left_sib lv i = (if even i then None else Some (sibling lv i))"

definition right_sib :: "'a list \<Rightarrow> nat \<Rightarrow> 'a option" where
  "right_sib lv i = (if even i then Some (sibling lv i) else None)"

fun level_entries :: "hash list list \<Rightarrow> nat \<Rightarrow> proof_entry list" where
  "level_entries (lv # up # rest) i =
     ProofEntry (up ! (i div 2)) (left_sib lv i) (right_sib lv i) # level_entries (up # rest) (i div 2)"
| "level_entries _ i = []"

fun level_siblings :: "'a list list \<Rightarrow> nat \<Rightarrow> 'a list" where
  "level_siblings (lv # up # rest) i = sibling lv i # level_siblings (up # rest) (i div 2)"
| "level_siblings _ i = []"

lemma siblings_in:
  "i < length lv \<Longrightarrow> siblings lv i = Inr (left_sib lv i, right_sib lv i)"
  by (auto simp: siblings_def left_sib_def right_sib_def sibling_def even_iff_mod_2_eq_zero)

lemma one_sibling: "(left_sib lv i = None) \<noteq> (right_sib lv i = None)"
  by (simp add: left_sib_def right_sib_def)

lemma branch_hash_sibling:
  "branch_hash (ProofEntry t (left_sib lv i) (right_sib lv i)) = Inr (sibling lv i)"
  by (simp add: branch_hash_def left_sib_def right_sib_def)

lemma traverse_level_entries:
  "traverse branch_hash (level_entries lvs i) = Inr (level_siblings lvs i)"
  by (induction lvs i rule: level_entries.induct) (simp_all add: branch_hash_sibling)

lemma pair_level_index:
  "i < length xs \<Longrightarrow> i div 2 < length (pair_level f xs)"
  by simp

text \<open>One round above the leaves pushes an entry for the node it reaches.\<close>

lemma path_loop_levels:
  assumes "ns = pre @ concat (levels f lv)" and "l = length lv" and "ls = length pre"
    and "i < length lv" and "(lsib = None) \<noteq> (rsib = None)"
  shows "path_loop ns l ls i lsib rsib path =
    Inr (path @ ProofEntry (lv ! i) lsib rsib # level_entries (levels f lv) i)"
  using assms
proof (induction "length lv" arbitrary: lv pre l ls i lsib rsib path rule: less_induct)
  case less
  have slice: "slice_vec ns ls (ls + l) = Inr lv"
    using less.prems by (subst (asm) levels.simps) (simp add: slice_vec_def)
  have entry: "(if lsib \<noteq> None \<or> rsib \<noteq> None
      then and_then (proof_entry_new (lv ! i) lsib rsib) (\<lambda>e. Inr (path @ [e])) else Inr path) =
      Inr (path @ [ProofEntry (lv ! i) lsib rsib])"
    using less.prems(5) by (auto simp: proof_entry_new_def)
  have round: "path_loop ns l ls i lsib rsib path =
      path_loop ns (next_level_len l) (ls + l) (i div 2) (left_sib lv i) (right_sib lv i)
        (path @ [ProofEntry (lv ! i) lsib rsib])"
    using less.prems(2,4) slice entry
    by (subst path_loop.simps) (auto simp: siblings_in)
  show ?case
  proof (cases "length lv \<le> 1")
    case True
    with less.prems have "next_level_len l = 0"
      by (auto simp: next_level_len_def)
    with round True show ?thesis
      by (simp add: path_loop.simps [of _ 0] levels_short)
  next
    case False
    let ?up = "pair_level f lv"
    have "path_loop ns (next_level_len l) (ls + l) (i div 2) (left_sib lv i) (right_sib lv i)
        (path @ [ProofEntry (lv ! i) lsib rsib]) =
      Inr ((path @ [ProofEntry (lv ! i) lsib rsib]) @
        ProofEntry (?up ! (i div 2)) (left_sib lv i) (right_sib lv i) #
        level_entries (levels f ?up) (i div 2))"
      using False less.prems
      by (intro less.hyps [where pre = "pre @ lv"])
        (auto simp: next_level_len_def levels_step one_sibling)
    moreover have "level_entries (levels f lv) i =
        ProofEntry (?up ! (i div 2)) (left_sib lv i) (right_sib lv i) #
        level_entries (levels f ?up) (i div 2)"
      using False by (simp add: levels_step) (subst (1 2) levels.simps, simp)
    ultimately show ?thesis
      using round by simp
  qed
qed

lemma level_entries_levels_step:
  "1 < length lv \<Longrightarrow> level_entries (levels f lv) i =
     ProofEntry (pair_level f lv ! (i div 2)) (left_sib lv i) (right_sib lv i) #
     level_entries (levels f (pair_level f lv)) (i div 2)"
  by (simp add: levels_step) (subst (1 2) levels.simps, simp)

lemma level_siblings_levels_step:
  "1 < length lv \<Longrightarrow> level_siblings (levels f lv) i =
     sibling lv i # level_siblings (levels f (pair_level f lv)) (i div 2)"
  by (simp add: levels_step) (subst (1 2) levels.simps, simp)

lemma level_siblings_short: "length lv \<le> 1 \<Longrightarrow> level_siblings (levels f lv) i = []"
  by (simp add: levels_short)

lemma path_loop_first:
  assumes "i < length lv"
  shows "path_loop (concat (levels f lv)) (length lv) 0 i None None [] =
    Inr (level_entries (levels f lv) i)"
proof -
  let ?ns = "concat (levels f lv)"
  have slice: "slice_vec ?ns 0 (length lv) = Inr lv"
    by (subst levels.simps) (simp add: slice_vec_def)
  have round: "path_loop ?ns (length lv) 0 i None None [] =
      path_loop ?ns (next_level_len (length lv)) (length lv) (i div 2)
        (left_sib lv i) (right_sib lv i) []"
    using assms slice by (subst path_loop.simps) (auto simp: siblings_in)
  show ?thesis
  proof (cases "length lv \<le> 1")
    case True
    with assms have "next_level_len (length lv) = 0"
      by (auto simp: next_level_len_def)
    with round True show ?thesis
      by (simp add: path_loop.simps [of _ 0] levels_short)
  next
    case False
    then have "path_loop ?ns (next_level_len (length lv)) (length lv) (i div 2)
        (left_sib lv i) (right_sib lv i) [] = Inr ([] @
          ProofEntry (pair_level f lv ! (i div 2)) (left_sib lv i) (right_sib lv i) #
          level_entries (levels f (pair_level f lv)) (i div 2))"
      using assms by (intro path_loop_levels [where pre = lv])
        (auto simp: next_level_len_def levels_step one_sibling)
    with round False show ?thesis
      by (simp add: level_entries_levels_step)
  qed
qed

lemma find_path_levels:
  assumes "merkle_tree_new h s items = Inr mt"
  shows "find_path mt i = (if i < length items
    then Inr (Some (level_entries (levels (combine h s) (map (hash_leaf h) items)) i))
    else Inr None)"
  using assms path_loop_first [of i "map (hash_leaf h) items" "combine h s"]
  by (auto simp: merkle_tree_new_levels find_path_def)

lemma get_proof_levels:
  assumes "merkle_tree_new h s items = Inr mt" and "i < length items"
  shows "get_proof mt i =
    Inr (level_siblings (levels (combine h s) (map (hash_leaf h) items)) i)"
  using assms by (simp add: get_proof_def find_path_levels traverse_level_entries)

lemma get_root_top:
  assumes "merkle_tree_new h s items = Inr mt"
  shows "get_root mt =
    (if items = [] then None else Some (top_node (combine h s) (map (hash_leaf h) items)))"
proof -
  let ?lv = "map (hash_leaf h) items"
  obtain ns where ns: "ns = concat (levels (combine h s) ?lv)" by simp
  have "ns = [] \<longleftrightarrow> items = []"
    unfolding ns concat_levels_Nil_iff by simp
  moreover have "last ns = top_node (combine h s) ?lv" if "items \<noteq> []"
    unfolding ns using that by (intro last_concat_levels) simp
  moreover have "mt = \<lparr>leaf_count = length items, nodes = ns\<rparr>"
    using assms by (simp only: merkle_tree_new_levels ns sum.inject)
  ultimately show ?thesis by (simp add: get_root_def)
qed

section \<open>The on-chain check accepts the proofs of the tree\<close>

lemma pair_level_sibling:
  assumes "\<And>a b. f a b = f b a" and "i < length lv"
  shows "f (lv ! i) (sibling lv i) = pair_level f lv ! (i div 2)"
proof -
  have "2 * (i div 2) < length lv" using assms(2) by simp
  from pair_level_nth [OF this, of f] show ?thesis
    using assms by (cases "even i") (auto simp: sibling_def elim!: evenE oddE)
qed

lemma verify_loop_levels:
  assumes "i < length lv"
  shows "verify_loop h (lv ! i) (level_siblings (levels (combine h True) lv) i) =
    top_node (combine h True) lv"
  using assms
proof (induction "length lv" arbitrary: lv i rule: less_induct)
  case less
  let ?f = "combine h True"
  have sym: "?f a b = ?f b a" for a b
    by (simp add: combine_sorted step_input_sym)
  show ?case
  proof (cases "length lv \<le> 1")
    case True
    with less.prems obtain x where "lv = [x]" by (cases lv) auto
    with less.prems show ?thesis by (simp add: levels_short)
  next
    case False
    from pair_level_sibling [where f = ?f, OF sym less.prems]
    have "h (step_input (lv ! i) (sibling lv i)) = pair_level ?f lv ! (i div 2)"
      by (simp add: combine_sorted)
    moreover have "verify_loop h (pair_level ?f lv ! (i div 2))
        (level_siblings (levels ?f (pair_level ?f lv)) (i div 2)) = top_node ?f (pair_level ?f lv)"
      using False less.prems by (intro less.hyps) auto
    ultimately show ?thesis
      using False by (simp add: level_siblings_levels_step top_node_step)
  qed
qed

section \<open>Sibling order: \<open>Proof::verify\<close> follows unsorted trees\<close>

lemma pair_level_entry:
  assumes "i < length lv"
  shows "f (case left_sib lv i of Some l \<Rightarrow> l | None \<Rightarrow> lv ! i)
           (case right_sib lv i of Some r \<Rightarrow> r | None \<Rightarrow> lv ! i) = pair_level f lv ! (i div 2)"
proof -
  have "2 * (i div 2) < length lv" using assms by simp
  from pair_level_nth [OF this, of f] show ?thesis
    using assms
    by (cases "even i") (auto simp: left_sib_def right_sib_def sibling_def elim!: evenE oddE)
qed

lemma combine_unsorted: "combine h False = hash_intermediate h"
  by (simp add: combine_def fun_eq_iff)

lemma proof_verify_fold_levels:
  assumes "i < length lv"
  shows "proof_verify_fold h (level_entries (levels (hash_intermediate h) lv) i) (lv ! i) =
    Some (top_node (hash_intermediate h) lv)"
  using assms
proof (induction "length lv" arbitrary: lv i rule: less_induct)
  case less
  let ?f = "hash_intermediate h"
  show ?case
  proof (cases "length lv \<le> 1")
    case True
    with less.prems obtain x where "lv = [x]" by (cases lv) auto
    with less.prems show ?thesis by (simp add: levels_short)
  next
    case False
    then have "proof_verify_fold h (level_entries (levels ?f (pair_level ?f lv)) (i div 2))
        (pair_level ?f lv ! (i div 2)) = Some (top_node ?f (pair_level ?f lv))"
      using less.prems by (intro less.hyps) auto
    with False pair_level_entry [OF less.prems, of ?f] show ?thesis
      by (simp add: level_entries_levels_step top_node_step)
  qed
qed

end
