(* ===== verification/Merkle_Soundness.thy ===== *)
theory Merkle_Soundness
  imports Merkle_Path
begin

text \<open>
  What the Merkle tree promises its clients, as an interface: every item has a proof that the check
  accepts, and the check accepts nothing else unless the hash function collides on one of the
  finitely many inputs that the tree and the check hash.  The interface is interpreted on
  \<open>merkle_tree_new\<close>, \<open>get_root\<close>, \<open>get_proof\<close> and \<open>verify\<close>; the airdrop tree and the on-chain
  program are its clients.
\<close>

section \<open>The inputs that building a tree hashes\<close>

fun level_inputs :: "hash list \<Rightarrow> u8 list list list" where
  "level_inputs [] = []"
| "level_inputs [x] = [step_input x x]"
| "level_inputs (x # y # zs) = step_input x y # level_inputs zs"

definition inner_inputs :: "hashv \<Rightarrow> hash list \<Rightarrow> u8 list list list" where
  "inner_inputs h lv = concat (map level_inputs (butlast (levels (combine h True) lv)))"

definition tree_inputs :: "hashv \<Rightarrow> u8 list list \<Rightarrow> u8 list list list" where
  "tree_inputs h items =
     map (\<lambda>x. [LEAF_PREFIX, x]) items @ inner_inputs h (map (hash_leaf h) items)"

text \<open>The inputs hashed when the proof of an item is checked: the item's leaf, then the path.\<close>

definition check_inputs :: "hashv \<Rightarrow> hash list \<Rightarrow> u8 list \<Rightarrow> u8 list list list" where
  "check_inputs h proof x = [LEAF_PREFIX, x] # verify_inputs h (hash_leaf h x) proof"

lemma pair_level_origin:
  assumes "n \<in> set (pair_level (combine h True) lv)"
  shows "\<exists>l\<in>set lv. \<exists>r\<in>set lv. step_input l r \<in> set (level_inputs lv) \<and> n = h (step_input l r)"
  using assms
  by (induction lv rule: level_inputs.induct) (auto simp: combine_sorted)

lemma inner_inputs_step:
  "1 < length lv \<Longrightarrow>
     inner_inputs h lv = level_inputs lv @ inner_inputs h (pair_level (combine h True) lv)"
  by (simp add: inner_inputs_def levels_step)

text \<open>A node is a leaf of the level list, or the hash of two nodes that was computed.\<close>

lemma node_origin:
  assumes "n \<in> set (concat (levels (combine h True) lv))"
  shows "n \<in> set lv \<or> (\<exists>l r. l \<in> set (concat (levels (combine h True) lv)) \<and>
    r \<in> set (concat (levels (combine h True) lv)) \<and>
    step_input l r \<in> set (inner_inputs h lv) \<and> n = h (step_input l r))"
  using assms
proof (induction "length lv" arbitrary: lv rule: less_induct)
  case less
  let ?f = "combine h True"
  show ?case
  proof (cases "length lv \<le> 1")
    case True
    with less.prems show ?thesis by (simp add: levels_short)
  next
    case False
    let ?up = "pair_level ?f lv"
    have nodes: "set (concat (levels ?f lv)) = set lv \<union> set (concat (levels ?f ?up))"
      using False by (simp add: levels_step)
    have inputs: "set (inner_inputs h lv) = set (level_inputs lv) \<union> set (inner_inputs h ?up)"
      using False by (simp add: inner_inputs_step)
    consider "n \<in> set lv" | "n \<in> set (concat (levels ?f ?up))"
      using less.prems nodes by blast
    then show ?thesis
    proof cases
      case 2
      then have "n \<in> set ?up \<or> (\<exists>l r. l \<in> set (concat (levels ?f ?up)) \<and>
          r \<in> set (concat (levels ?f ?up)) \<and> step_input l r \<in> set (inner_inputs h ?up) \<and>
          n = h (step_input l r))"
        using False by (intro less.hyps) auto
      then show ?thesis
        using pair_level_origin [of n h lv] nodes inputs by blast
    qed simp
  qed
qed

text \<open>Walking a path backwards from a node of the tree stays in the tree.\<close>

lemma verify_loop_stays:
  assumes "verify_loop h c pf \<in> set (concat (levels (combine h True) (map (hash_leaf h) items)))"
    and "collision_free h (set (tree_inputs h items) \<union> set (verify_inputs h c pf))"
  shows "c \<in> set (concat (levels (combine h True) (map (hash_leaf h) items)))"
  using assms
proof (induction pf arbitrary: c)
  case Nil
  then show ?case by simp
next
  case (Cons p pf)
  let ?inp = "step_input c p"
  let ?lv = "map (hash_leaf h) items"
  let ?N = "set (concat (levels (combine h True) ?lv))"
  let ?S = "set (tree_inputs h items) \<union> set (verify_inputs h c (p # pf))"
  have cf: "collision_free h ?S" by (rule Cons.prems(2))
  have in_S: "?inp \<in> ?S" by simp
  have "h ?inp \<in> ?N"
  proof (rule Cons.IH)
    show "verify_loop h (h ?inp) pf \<in> ?N" using Cons.prems(1) by simp
    show "collision_free h (set (tree_inputs h items) \<union> set (verify_inputs h (h ?inp) pf))"
      by (rule collision_free_subset [OF cf]) auto
  qed
  from node_origin [OF this] consider (leaf) "h ?inp \<in> set ?lv"
    | (inner) l r where "l \<in> ?N" "r \<in> ?N" "step_input l r \<in> set (inner_inputs h ?lv)"
        "h ?inp = h (step_input l r)"
    by blast
  then show ?case
  proof cases
    case leaf
    then obtain x where x: "x \<in> set items" "h ?inp = h [LEAF_PREFIX, x]"
      by (auto simp: hash_leaf_def)
    then have "[LEAF_PREFIX, x] \<in> ?S" by (simp add: tree_inputs_def)
    from collision_freeD [OF cf x(2) in_S this] concat_step_input_not_leaf
    show ?thesis by blast
  next
    case inner
    from inner(3) have "step_input l r \<in> ?S" by (simp add: tree_inputs_def)
    from concat_step_input_eq [OF collision_freeD [OF cf inner(4) in_S this]] inner(1,2)
    show ?thesis by blast
  qed
qed

lemma leaf_in_tree:
  assumes "hash_leaf h x \<in> set (concat (levels (combine h True) (map (hash_leaf h) items)))"
    and cf: "collision_free h (insert [LEAF_PREFIX, x] (set (tree_inputs h items)))"
  shows "x \<in> set items"
  using node_origin [OF assms(1)]
proof (elim disjE exE conjE)
  assume "hash_leaf h x \<in> set (map (hash_leaf h) items)"
  then obtain y where y: "y \<in> set items" "h [LEAF_PREFIX, x] = h [LEAF_PREFIX, y]"
    by (auto simp: hash_leaf_def)
  have "concat [LEAF_PREFIX, x] = concat [LEAF_PREFIX, y]"
    by (rule collision_freeD [OF cf y(2)]) (use y(1) in \<open>auto simp: tree_inputs_def\<close>)
  with y(1) show ?thesis by simp
next
  fix l r
  assume inner: "step_input l r \<in> set (inner_inputs h (map (hash_leaf h) items))"
    and eq: "hash_leaf h x = h (step_input l r)"
  from eq have eq': "h (step_input l r) = h [LEAF_PREFIX, x]"
    by (simp add: hash_leaf_def)
  have "concat (step_input l r) = concat [LEAF_PREFIX, x]"
    by (rule collision_freeD [OF cf eq']) (use inner in \<open>auto simp: tree_inputs_def\<close>)
  then show ?thesis
    using concat_step_input_not_leaf by blast
qed

section \<open>The interface\<close>

locale membership_scheme =
  fixes build :: "'item list \<Rightarrow> panic + 'tree"
    and root_of :: "'tree \<Rightarrow> hash option"
    and prove_at :: "'tree \<Rightarrow> nat \<Rightarrow> panic + hash list"
    and accept :: "hash list \<Rightarrow> hash \<Rightarrow> 'item \<Rightarrow> bool"
  assumes build_total: "\<exists>t. build items = Inr t"
    and root_None_iff: "build items = Inr t \<Longrightarrow> root_of t = None \<longleftrightarrow> items = []"
    and complete: "build items = Inr t \<Longrightarrow> root_of t = Some r \<Longrightarrow> i < length items \<Longrightarrow>
      \<exists>p. prove_at t i = Inr p \<and> accept p r (items ! i)"
begin

lemma root_exists:
  assumes "items \<noteq> []"
  obtains t r where "build items = Inr t" and "root_of t = Some r"
  using build_total [of items] root_None_iff assms by (metis not_None_eq)

text \<open>A client that asks for every proof gets them all, and each is accepted.\<close>

lemma prove_all:
  assumes "build items = Inr t" and "root_of t = Some r"
  obtains ps where "traverse (prove_at t) [0..<length items] = Inr ps"
    and "length ps = length items" and "\<forall>i<length items. prove_at t i = Inr (ps ! i)"
    and "\<forall>i<length items. accept (ps ! i) r (items ! i)"
proof -
  let ?p = "\<lambda>i. SOME p. prove_at t i = Inr p \<and> accept p r (items ! i)"
  have p: "prove_at t i = Inr (?p i) \<and> accept (?p i) r (items ! i)" if "i < length items" for i
    using complete [OF assms that] by (rule someI_ex)
  have "traverse (prove_at t) [0..<length items] = Inr (map ?p [0..<length items])"
    using p by (intro traverse_all) auto
  then show thesis
    using p by (intro that) auto
qed

end

text \<open>Soundness, relative to a predicate that says which sets of hashed inputs are safe.\<close>

locale sound_membership_scheme = membership_scheme build root_of prove_at accept
  for build :: "'item list \<Rightarrow> panic + 'tree"
    and root_of :: "'tree \<Rightarrow> hash option"
    and prove_at :: "'tree \<Rightarrow> nat \<Rightarrow> panic + hash list"
    and accept :: "hash list \<Rightarrow> hash \<Rightarrow> 'item \<Rightarrow> bool" +
  fixes build_inputs :: "'item list \<Rightarrow> 'q list"
    and accept_inputs :: "hash list \<Rightarrow> 'item \<Rightarrow> 'q list"
    and safe :: "'q set \<Rightarrow> bool"
  assumes sound: "build items = Inr t \<Longrightarrow> root_of t = Some r \<Longrightarrow> accept p r x \<Longrightarrow>
      safe (set (build_inputs items) \<union> set (accept_inputs p x)) \<Longrightarrow> x \<in> set items"
begin

text \<open>A client's item is refused with every proof when it is not in the tree.\<close>

lemma outsider_refused:
  assumes "build items = Inr t" and "root_of t = Some r" and "x \<notin> set items"
    and "safe (set (build_inputs items) \<union> set (accept_inputs p x))"
  shows "\<not> accept p r x"
  using sound assms by blast

end

interpretation tree: sound_membership_scheme "merkle_tree_new h True" get_root get_proof
  "\<lambda>p r x. verify h p r (hash_leaf h x)" "tree_inputs h" "check_inputs h" "collision_free h"
  for h :: hashv
proof unfold_locales
  fix items :: "u8 list list"
  show "\<exists>t. merkle_tree_new h True items = Inr t"
    by (simp add: merkle_tree_new_levels)
next
  fix items :: "u8 list list" and t
  assume "merkle_tree_new h True items = Inr t"
  then show "get_root t = None \<longleftrightarrow> items = []"
    by (simp add: get_root_top)
next
  fix items :: "u8 list list" and t r i
  assume t: "merkle_tree_new h True items = Inr t" and r: "get_root t = Some r"
    and i: "i < length items"
  from r i have "r = top_node (combine h True) (map (hash_leaf h) items)"
    using get_root_top [OF t] by (auto split: if_splits)
  with verify_loop_levels [of i "map (hash_leaf h) items" h] i
  show "\<exists>p. get_proof t i = Inr p \<and> verify h p r (hash_leaf h (items ! i))"
    by (simp add: get_proof_levels [OF t i] verify_def)
next
  fix items :: "u8 list list" and t r p x
  assume t: "merkle_tree_new h True items = Inr t" and r: "get_root t = Some r"
    and acc: "verify h p r (hash_leaf h x)"
    and cf: "collision_free h (set (tree_inputs h items) \<union> set (check_inputs h p x))"
  let ?lv = "map (hash_leaf h) items"
  from r have ne: "items \<noteq> []" and top_node: "r = top_node (combine h True) ?lv"
    using get_root_top [OF t] by (auto split: if_splits)
  have "top_node (combine h True) ?lv \<in> set (last (levels (combine h True) ?lv))"
    using last_level_single [of ?lv "combine h True"] ne by simp
  then have "r \<in> set (concat (levels (combine h True) ?lv))"
    unfolding top_node by (auto intro: bexI [OF _ last_in_set])
  with acc have stays: "verify_loop h (hash_leaf h x) p \<in> set (concat (levels (combine h True) ?lv))"
    by (simp only: verify_def)
  have "hash_leaf h x \<in> set (concat (levels (combine h True) ?lv))"
    by (rule verify_loop_stays [OF stays], rule collision_free_subset [OF cf])
      (auto simp: check_inputs_def)
  then show "x \<in> set items"
    by (rule leaf_in_tree, intro collision_free_subset [OF cf]) (auto simp: check_inputs_def)
qed

end
