(* ===== verification/Tree_Node.thy ===== *)
theory Tree_Node
  imports Merkle_Verify
begin

text \<open>
  The claim of one account: \<open>merkle-tree/src/tree_node.rs\<close>, the entry it is read from,
  \<open>merkle-tree/src/csv_entry.rs\<close>, and the conversion between them, which goes through \<open>f64\<close>.

  A finite double is a sign, a 53-bit significand and a binary exponent.  Only what the conversion
  does with doubles is modelled: \<open>u64 as f64\<close>, the product, \<open>floor\<close> and \<open>f64 as u64\<close>.  The factor
  \<open>10\<^sup>d\<close> is a positive integer, so a product never falls below the smallest exponent \<open>-1074\<close> and
  rounding only concerns the width of the significand.
\<close>

section \<open>Doubles\<close>


datatype f64 =
    F64 (negative: bool) (significand: nat) (exponent: int)
  | F64_Infinity bool
  | F64_NaN

fun bit_length :: "nat \<Rightarrow> nat" where
  "bit_length n = (if n = 0 then 0 else Suc (bit_length (n div 2)))"

declare bit_length.simps [simp del]

text \<open>Dropping the last \<open>k\<close> bits, to nearest, ties to even.\<close>

definition round_shift :: "nat \<Rightarrow> nat \<Rightarrow> nat" where
  "round_shift m k =
     (let q = m div 2 ^ k; r = m mod 2 ^ k
      in if 2 * r > 2 ^ k \<or> (2 * r = 2 ^ k \<and> odd q) then q + 1 else q)"

definition round_f64 :: "bool \<Rightarrow> nat \<Rightarrow> int \<Rightarrow> f64" where
  "round_f64 s m e =
     (let k = bit_length m - 53; q = round_shift m k; e' = e + int k
      in if q \<noteq> 0 \<and> e' + int (bit_length q) > 1024 then F64_Infinity s else F64 s q e')"

definition u64_as_f64 :: "u64 \<Rightarrow> f64" where
  "u64_as_f64 w = round_f64 False (unat w) 0"

fun f64_mul :: "f64 \<Rightarrow> f64 \<Rightarrow> f64" where
  "f64_mul (F64 s m e) (F64 t n f) = round_f64 (s \<noteq> t) (m * n) (e + f)"
| "f64_mul (F64_Infinity s) (F64 t n f) = (if n = 0 then F64_NaN else F64_Infinity (s \<noteq> t))"
| "f64_mul (F64 s m e) (F64_Infinity t) = (if m = 0 then F64_NaN else F64_Infinity (s \<noteq> t))"
| "f64_mul (F64_Infinity s) (F64_Infinity t) = F64_Infinity (s \<noteq> t)"
| "f64_mul F64_NaN _ = F64_NaN"
| "f64_mul _ F64_NaN = F64_NaN"

fun f64_floor :: "f64 \<Rightarrow> f64" where
  "f64_floor (F64 s m e) =
     (if 0 \<le> e then F64 s m e
      else if s then F64 s ((m + 2 ^ nat (- e) - 1) div 2 ^ nat (- e)) 0
      else F64 s (m div 2 ^ nat (- e)) 0)"
| "f64_floor x = x"

text \<open>\<open>as u64\<close> truncates towards zero and saturates; NaN becomes zero.\<close>

fun f64_as_u64 :: "f64 \<Rightarrow> u64" where
  "f64_as_u64 (F64 s m e) =
     (let v = (if 0 \<le> e then m * 2 ^ nat e else m div 2 ^ nat (- e))
      in if s then 0 else if v < 2 ^ 64 then of_nat v else - 1)"
| "f64_as_u64 (F64_Infinity s) = (if s then 0 else - 1)"
| "f64_as_u64 F64_NaN = 0"

section \<open>Entries and nodes\<close>

record csv_entry =
  ce_pubkey :: string
  ce_amount :: f64

record tree_node =
  tn_claimant :: pubkey
  tn_amount :: u64
  tn_proof :: "hash list option"

text \<open>\<open>TreeNode::hash\<close>: claimant, unlocked amount, and a locked amount that is always zero.\<close>

definition tree_node_hash :: "hashv \<Rightarrow> tree_node \<Rightarrow> hash" where
  "tree_node_hash h n =
     h [to_bytes (tn_claimant n), to_le_bytes (tn_amount n), to_le_bytes 0]"

definition amount :: "tree_node \<Rightarrow> u64" where
  "amount n = tn_amount n"

definition checked_pow10_u64 :: "u32 \<Rightarrow> u64 option" where
  "checked_pow10_u64 d = (if (10 :: nat) ^ unat d < 2 ^ 64 then Some (of_nat (10 ^ unat d)) else None)"

definition ui_amount_to_token_amount :: "f64 \<Rightarrow> u32 \<Rightarrow> panic + u64" where
  "ui_amount_to_token_amount ui_amount decimals =
     and_then (unwrap (checked_pow10_u64 decimals)) (\<lambda>p.
     Inr (f64_as_u64 (f64_floor (f64_mul ui_amount (u64_as_f64 p)))))"

text \<open>\<open>Pubkey::from_str\<close> of the SDK is the parameter \<open>from_str\<close>.\<close>

definition tree_node_from_csv ::
  "(string \<Rightarrow> pubkey option) \<Rightarrow> csv_entry \<Rightarrow> u32 \<Rightarrow> panic + tree_node" where
  "tree_node_from_csv from_str entry decimals =
     and_then (unwrap (from_str (ce_pubkey entry))) (\<lambda>claimant.
     and_then (ui_amount_to_token_amount (ce_amount entry) decimals) (\<lambda>amt.
     Inr \<lparr>tn_claimant = claimant, tn_amount = amt, tn_proof = None\<rparr>))"

section \<open>Exactness of the conversion\<close>

lemma bit_length_le: "n < 2 ^ k \<Longrightarrow> bit_length n \<le> k"
proof (induction n arbitrary: k rule: bit_length.induct)
  case (1 n)
  show ?case
  proof (cases "n = 0")
    case True
    then show ?thesis by (simp add: bit_length.simps)
  next
    case False
    with "1.prems" obtain j where k: "k = Suc j" by (cases k) auto
    with "1.prems" have "n div 2 < 2 ^ j" by auto
    with "1.IH" [OF False] have "bit_length (n div 2) \<le> j" .
    with False k show ?thesis by (simp add: bit_length.simps [of n])
  qed
qed

lemma bit_length_numeral [simp]:
  "bit_length 0 = 0"
  "bit_length (Suc 0) = 1"
  "bit_length (numeral (Num.Bit0 k)) = Suc (bit_length (numeral k))"
  "bit_length (numeral (Num.Bit1 k)) = Suc (bit_length (numeral k))"
  by (simp_all add: bit_length.simps [of "numeral _"] bit_length.simps [of 0] bit_length.simps [of "Suc 0"])

lemma round_shift_0 [simp]: "round_shift m 0 = m"
  by (simp add: round_shift_def)

text \<open>A product that fits in the significand is exact.\<close>

lemma round_f64_exact:
  assumes "m < 2 ^ 53" and "e \<le> 971"
  shows "round_f64 s m e = F64 s m e"
proof -
  from bit_length_le [OF assms(1)] have "bit_length m \<le> 53" .
  with assms(2) show ?thesis
    by (simp add: round_f64_def Let_def)
qed

lemma checked_pow10_Some:
  "(10 :: nat) ^ unat d < 2 ^ 64 \<Longrightarrow> checked_pow10_u64 d = Some (of_nat (10 ^ unat d))"
  by (simp add: checked_pow10_u64_def)

lemma ui_amount_exact:
  assumes fits: "m * 10 ^ unat d < 2 ^ 53" and small: "(10 :: nat) ^ unat d < 2 ^ 53"
    and e: "- 1074 \<le> e" "e \<le> 0"
  shows "ui_amount_to_token_amount (F64 False m e) d =
    Inr (of_nat (m * 10 ^ unat d div 2 ^ nat (- e)))"
proof -
  let ?p = "10 ^ unat d :: nat"
  have p64: "?p < 2 ^ 64" using small by simp
  then have "unat (of_nat ?p :: u64) = ?p" by (simp add: unat_of_nat take_bit_eq_mod del: of_nat_power)
  then have fp: "u64_as_f64 (of_nat ?p) = F64 False ?p 0"
    using small by (simp add: u64_as_f64_def round_f64_exact)
  have mul: "f64_mul (F64 False m e) (F64 False ?p 0) = F64 False (m * ?p) e"
    using fits e by (simp add: round_f64_exact)
  have "m * ?p div 2 ^ nat (- e) < 2 ^ 64"
    by (rule order.strict_trans1 [OF div_le_dividend order.strict_trans [OF fits]]) simp
  with e show ?thesis
    using mul by (auto simp: ui_amount_to_token_amount_def checked_pow10_Some [OF p64] fp simp del: of_nat_power)
qed

end
