(* ===== verification/Airdrop_Tree.thy ===== *)
theory Airdrop_Tree
  imports Merkle_Soundness Tree_Node
begin

text \<open>
  The distribution file of \<open>merkle-tree/src/airdrop_merkle_tree.rs\<close>: claims merged by claimant, the
  Merkle root over them, a stored proof for each, and the validation that a tree passes before it is
  returned.  The insertion-ordered \<open>IndexMap\<close> is an association list.
\<close>

section \<open>The data\<close>

record airdrop_merkle_tree =
  merkle_root :: hash
  airdrop_version :: u64
  at_max_num_nodes :: u64
  at_max_total_claim :: u64
  tree_nodes :: "tree_node list"

text \<open>The formatted messages of \<open>MerkleValidationError\<close>, by the values they print.\<close>

datatype validation_message =
    MaxNumNodesTooLarge u64
  | TreeNodesLengthMismatch nat u64
  | DuplicateClaimants
  | SumMismatch u64 u64
  | MerkleRootInvalid
  | InvalidMerkleProof

datatype merkle_tree_error =
    MerkleValidationError validation_message
  | MerkleRootError
  | IoError string
  | SerdeError string

type_synonym 'a merkle_result = "merkle_tree_error failure + 'a"

section \<open>The code\<close>

text \<open>\<open>get_max_total_claim\<close>: a checked sum that is unwrapped.\<close>

fun sum_amounts :: "u64 \<Rightarrow> tree_node list \<Rightarrow> u64 option" where
  "sum_amounts acc [] = Some acc"
| "sum_amounts acc (n # ns) =
     (case checked_add_u64 acc (amount n) of None \<Rightarrow> None | Some acc' \<Rightarrow> sum_amounts acc' ns)"

definition get_max_total_claim :: "tree_node list \<Rightarrow> panic + u64" where
  "get_max_total_claim ns = unwrap (sum_amounts 0 ns)"

text \<open>One \<open>entry(..).and_modify(..).or_insert_with(..)\<close>, and the loop over all nodes.\<close>

fun upsert :: "tree_node \<Rightarrow> (pubkey \<times> tree_node) list \<Rightarrow> panic + (pubkey \<times> tree_node) list" where
  "upsert tn [] = Inr [(tn_claimant tn, tn)]"
| "upsert tn ((k, n) # m) =
     (if k = tn_claimant tn
      then and_then (unwrap (checked_add_u64 (tn_amount n) (tn_amount tn)))
             (\<lambda>a. Inr ((k, n\<lparr>tn_amount := a\<rparr>) # m))
      else and_then (upsert tn m) (\<lambda>m'. Inr ((k, n) # m')))"

fun combine_nodes ::
  "tree_node list \<Rightarrow> (pubkey \<times> tree_node) list \<Rightarrow> panic + (pubkey \<times> tree_node) list" where
  "combine_nodes [] m = Inr m"
| "combine_nodes (tn # tns) m = and_then (upsert tn m) (combine_nodes tns)"

definition hashed_nodes :: "hashv \<Rightarrow> tree_node list \<Rightarrow> u8 list list" where
  "hashed_nodes h ns = map (\<lambda>n. to_bytes (tree_node_hash h n)) ns"

text \<open>The loop that stores each node's proof.\<close>

definition attach_proofs :: "merkle_tree \<Rightarrow> tree_node list \<Rightarrow> panic + tree_node list" where
  "attach_proofs tree ns =
     traverse (\<lambda>(i, n). and_then (get_proof tree i) (\<lambda>p. Inr (n\<lparr>tn_proof := Some p\<rparr>)))
       (enumerate 0 ns)"

definition verify_proof :: "hashv \<Rightarrow> airdrop_merkle_tree \<Rightarrow> unit merkle_result" where
  "verify_proof h self =
     (let root = merkle_root self; hs = hashed_nodes h (tree_nodes self) in
      and_then (or_panic (merkle_tree_new h True hs)) (\<lambda>mk.
      and_then (or_return (ok_or (get_root mk) (MerkleValidationError InvalidMerkleProof))) (\<lambda>r.
      and_then (or_panic (require (r = root) AssertionFailed)) (\<lambda>_.
      and_then (traverse (\<lambda>(i, x).
          let node = h [LEAF_PREFIX, x] in
          and_then (or_panic (get_proof mk i)) (\<lambda>p.
          or_return (require (verify h p root node) (MerkleValidationError InvalidMerkleProof))))
        (enumerate 0 hs)) (\<lambda>_.
      Inr ())))))"

definition validate :: "hashv \<Rightarrow> airdrop_merkle_tree \<Rightarrow> unit merkle_result" where
  "validate h self =
     (let ns = tree_nodes self in
      if unat (at_max_num_nodes self) > 2 ^ 32 - 1
      then Inl (Returned (MerkleValidationError (MaxNumNodesTooLarge (at_max_num_nodes self))))
      else if length ns \<noteq> unat (at_max_num_nodes self)
      then Inl (Returned (MerkleValidationError
             (TreeNodesLengthMismatch (length ns) (at_max_num_nodes self))))
      else if card (set (map tn_claimant ns)) \<noteq> length ns
      then Inl (Returned (MerkleValidationError DuplicateClaimants))
      else and_then (or_panic (get_max_total_claim ns)) (\<lambda>s.
        if s \<noteq> at_max_total_claim self
        then Inl (Returned (MerkleValidationError (SumMismatch s (at_max_total_claim self))))
        else (case verify_proof h self of
            Inl (Panicked p) \<Rightarrow> Inl (Panicked p)
          | Inl (Returned _) \<Rightarrow> Inl (Returned (MerkleValidationError MerkleRootInvalid))
          | Inr _ \<Rightarrow> Inr ())))"

definition airdrop_merkle_tree_new ::
  "hashv \<Rightarrow> tree_node list \<Rightarrow> u64 \<Rightarrow> airdrop_merkle_tree merkle_result" where
  "airdrop_merkle_tree_new h ns version =
     and_then (or_panic (combine_nodes ns [])) (\<lambda>m.
     let ns = map snd m in
     and_then (or_panic (merkle_tree_new h True (hashed_nodes h ns))) (\<lambda>tree.
     and_then (or_panic (attach_proofs tree ns)) (\<lambda>ns.
     and_then (or_panic (get_max_total_claim ns)) (\<lambda>total.
     and_then (or_return (ok_or (get_root tree) MerkleRootError)) (\<lambda>root.
     let t = \<lparr>merkle_root = root, airdrop_version = version,
              at_max_num_nodes = of_nat (length ns), at_max_total_claim = total,
              tree_nodes = ns\<rparr> in
     and_then (validate h t) (\<lambda>_. Inr t))))))"

definition new_from_entries ::
  "hashv \<Rightarrow> (string \<Rightarrow> pubkey option) \<Rightarrow> csv_entry list \<Rightarrow> u64 \<Rightarrow> u32 \<Rightarrow>
     airdrop_merkle_tree merkle_result" where
  "new_from_entries h from_str csv_entries version decimals =
     and_then (or_panic (traverse (\<lambda>x. tree_node_from_csv from_str x decimals) csv_entries)) (\<lambda>ns.
     airdrop_merkle_tree_new h ns version)"

text \<open>
  The rows of a CSV file below its header, by the reader of the \<open>csv\<close> crate: a file that cannot be
  opened is an error, a row that cannot be read panics.
\<close>

definition read_rows :: "(string \<Rightarrow> merkle_tree_error + 'a option list) \<Rightarrow> string \<Rightarrow> 'a list merkle_result" where
  "read_rows open_csv path =
     and_then (or_return (open_csv path)) (\<lambda>rows. or_panic (traverse unwrap rows))"

definition csv_entry_new_from_file ::
  "(string \<Rightarrow> merkle_tree_error + csv_entry option list) \<Rightarrow> string \<Rightarrow> csv_entry list merkle_result" where
  "csv_entry_new_from_file open_csv path = read_rows open_csv path"

definition new_from_csv ::
  "hashv \<Rightarrow> (string \<Rightarrow> pubkey option) \<Rightarrow> (string \<Rightarrow> merkle_tree_error + csv_entry option list) \<Rightarrow> string \<Rightarrow>
     u64 \<Rightarrow> u32 \<Rightarrow> airdrop_merkle_tree merkle_result" where
  "new_from_csv h from_str open_csv path version decimals =
     and_then (csv_entry_new_from_file open_csv path) (\<lambda>csv_entries.
     and_then (or_panic (traverse (\<lambda>x. tree_node_from_csv from_str x decimals) csv_entries)) (\<lambda>ns.
     airdrop_merkle_tree_new h ns version))"

lemma read_rows_Inr_iff [exec_iff]: "read_rows open_csv path = Inr xs \<longleftrightarrow> open_csv path = Inr (map Some xs)"
  by (auto simp: read_rows_def exec_iff list_all2_conv_all_nth list_eq_iff_nth_eq)

lemma read_rows_all [simp]: "open_csv path = Inr (map Some xs) \<Longrightarrow> read_rows open_csv path = Inr xs"
  by (simp add: exec_iff)

text \<open>Building from a file is building from its entries.\<close>

lemma new_from_csv_entries:
  "open_csv path = Inr (map Some entries) \<Longrightarrow>
     new_from_csv h from_str open_csv path version decimals = new_from_entries h from_str entries version decimals"
  by (simp add: new_from_csv_def new_from_entries_def csv_entry_new_from_file_def)

fun find_node :: "tree_node list \<Rightarrow> pubkey \<Rightarrow> panic + tree_node" where
  "find_node [] claimant = Inl ExplicitPanic"
| "find_node (i # is) claimant =
     (if tn_claimant i = claimant then Inr i else find_node is claimant)"

definition get_node :: "airdrop_merkle_tree \<Rightarrow> pubkey \<Rightarrow> panic + tree_node" where
  "get_node self claimant = find_node (tree_nodes self) claimant"

definition convert_to_hashmap :: "airdrop_merkle_tree \<Rightarrow> (pubkey \<rightharpoonup> tree_node)" where
  "convert_to_hashmap self = foldl (\<lambda>m n. m(tn_claimant n \<mapsto> n)) Map.empty (tree_nodes self)"

section \<open>Sums of amounts\<close>

definition amount_sum :: "tree_node list \<Rightarrow> nat" where
  "amount_sum ns = sum_list (map (\<lambda>n. unat (tn_amount n)) ns)"

text \<open>What one claimant is owed by a list of claims.\<close>

definition owed :: "tree_node list \<Rightarrow> pubkey \<Rightarrow> nat" where
  "owed ns k = amount_sum (filter (\<lambda>n. tn_claimant n = k) ns)"

lemma amount_sum_simps [simp]:
  "amount_sum [] = 0" "amount_sum (n # ns) = unat (tn_amount n) + amount_sum ns"
  "amount_sum (ms @ ns) = amount_sum ms + amount_sum ns"
  by (simp_all add: amount_sum_def)

lemma owed_simps [simp]:
  "owed [] k = 0"
  "owed (n # ns) k = (if tn_claimant n = k then unat (tn_amount n) else 0) + owed ns k"
  "owed (ms @ ns) k = owed ms k + owed ns k"
  by (simp_all add: owed_def)

lemma owed_le_sum: "owed ns k \<le> amount_sum ns"
  by (induction ns) auto

lemma owed_distinct:
  assumes "distinct (map tn_claimant ns)" and "n \<in> set ns"
  shows "owed ns (tn_claimant n) = unat (tn_amount n)"
proof -
  have none: "owed ms k = 0" if "k \<notin> tn_claimant ` set ms" for ms k
    using that by (induction ms) auto
  show ?thesis using assms by (induction ns) (auto simp: none)
qed

lemma sum_amounts_Some_iff:
  "sum_amounts acc ns = Some s \<longleftrightarrow> unat s = unat acc + amount_sum ns"
proof (induction ns arbitrary: acc)
  case Nil
  show ?case by (auto simp: word_unat_eq_iff)
next
  case (Cons n ns)
  show ?case
  proof (cases "checked_add_u64 acc (amount n)")
    case None
    then have "2 ^ 64 \<le> unat acc + unat (tn_amount n)"
      by (simp add: checked_add_u64_None_iff amount_def)
    with unat_u64_less [of s] None show ?thesis by auto
  next
    case (Some acc')
    then have "unat acc' = unat acc + unat (tn_amount n)"
      by (simp add: exec_iff amount_def)
    with Some Cons.IH show ?thesis by (simp add: add.assoc)
  qed
qed

lemma get_max_total_claim_cases:
  "get_max_total_claim ns =
     (if amount_sum ns < 2 ^ 64 then Inr (of_nat (amount_sum ns)) else Inl UnwrapFailed)"
proof (cases "sum_amounts 0 ns")
  case None
  have "\<not> amount_sum ns < 2 ^ 64"
  proof
    assume "amount_sum ns < 2 ^ 64"
    then have "sum_amounts 0 ns = Some (of_nat (amount_sum ns))"
      by (simp add: sum_amounts_Some_iff unat_of_nat_u64)
    with None show False by simp
  qed
  with None show ?thesis by (simp add: get_max_total_claim_def)
next
  case (Some s)
  then have s: "unat s = amount_sum ns" by (simp add: sum_amounts_Some_iff)
  with unat_u64_less [of s] have "amount_sum ns < 2 ^ 64" by simp
  moreover have "s = of_nat (amount_sum ns)" by (simp flip: s)
  ultimately show ?thesis using Some by (simp add: get_max_total_claim_def)
qed

section \<open>Merging by claimant\<close>

definition keyed :: "(pubkey \<times> tree_node) list \<Rightarrow> bool" where
  "keyed m \<longleftrightarrow> (\<forall>(k, n)\<in>set m. k = tn_claimant n)"

lemma keyed_claimants: "keyed m \<Longrightarrow> map tn_claimant (map snd m) = map fst m"
  by (auto simp: keyed_def)

text \<open>First occurrences, in order.\<close>

definition first_occurrences :: "'a list \<Rightarrow> 'a list" where
  "first_occurrences xs = rev (remdups (rev xs))"

lemma first_occurrences_snoc:
  "first_occurrences (xs @ [x]) =
     (if x \<in> set xs then first_occurrences xs else first_occurrences xs @ [x])"
  by (simp add: first_occurrences_def)

lemma set_first_occurrences [simp]: "set (first_occurrences xs) = set xs"
  by (simp add: first_occurrences_def)

lemma distinct_first_occurrences [simp]: "distinct (first_occurrences xs)"
  by (simp add: first_occurrences_def)

lemma upsert_all:
  assumes "upsert tn m = Inr m'" and "keyed m"
  shows "keyed m' \<and>
    map fst m' = (if tn_claimant tn \<in> set (map fst m) then map fst m
      else map fst m @ [tn_claimant tn]) \<and>
    amount_sum (map snd m') = amount_sum (map snd m) + unat (tn_amount tn) \<and>
    (\<forall>k. owed (map snd m') k =
      owed (map snd m) k + (if tn_claimant tn = k then unat (tn_amount tn) else 0))"
  using assms
proof (induction tn m arbitrary: m' rule: upsert.induct)
  case (1 tn)
  then show ?case by (auto simp: keyed_def)
next
  case (2 tn k n m)
  show ?case
  proof (cases "k = tn_claimant tn")
    case True
    with "2.prems"(1) obtain a where
      a: "unat a = unat (tn_amount n) + unat (tn_amount tn)" and m': "m' = (k, n\<lparr>tn_amount := a\<rparr>) # m"
      by (auto simp: exec_iff)
    show ?thesis using "2.prems"(2) True a by (simp add: m' keyed_def)
  next
    case False
    with "2.prems"(1) obtain m1 where m1: "upsert tn m = Inr m1" and m': "m' = (k, n) # m1"
      by (auto simp: exec_iff)
    from "2.prems"(2) have "keyed m" and k: "k = tn_claimant n" by (simp_all add: keyed_def)
    from "2.IH" [OF False m1 \<open>keyed m\<close>] False k show ?thesis
      by (simp add: m' keyed_def)
  qed
qed

lemma upsert_Inr:
  assumes "upsert tn m = Inr m'" and "keyed m"
  shows "keyed m'"
    and "map fst m' = (if tn_claimant tn \<in> set (map fst m) then map fst m
           else map fst m @ [tn_claimant tn])"
    and "amount_sum (map snd m') = amount_sum (map snd m) + unat (tn_amount tn)"
    and "owed (map snd m') k =
           owed (map snd m) k + (if tn_claimant tn = k then unat (tn_amount tn) else 0)"
  using upsert_all [OF assms] by blast+

lemma upsert_Inl:
  assumes "upsert tn m = Inl e"
  shows "e = UnwrapFailed \<and> 2 ^ 64 \<le> amount_sum (map snd m) + unat (tn_amount tn)"
  using assms
proof (induction tn m rule: upsert.induct)
  case (2 tn k n m)
  show ?case
  proof (cases "k = tn_claimant tn")
    case True
    with "2.prems" show ?thesis
      by (cases "checked_add_u64 (tn_amount n) (tn_amount tn)")
        (auto simp: checked_add_u64_None_iff)
  next
    case False
    with 2 show ?thesis by (cases "upsert tn m") auto
  qed
qed simp

lemma combine_nodes_Inr:
  assumes "combine_nodes ns m = Inr m'" and "keyed m"
    and "map fst m = first_occurrences ks"
  shows "keyed m' \<and> map fst m' = first_occurrences (ks @ map tn_claimant ns) \<and>
    amount_sum (map snd m') = amount_sum (map snd m) + amount_sum ns \<and>
    (\<forall>k. owed (map snd m') k = owed (map snd m) k + owed ns k)"
  using assms
proof (induction ns arbitrary: m ks)
  case (Cons n ns)
  then obtain m1 where m1: "upsert n m = Inr m1" and rest: "combine_nodes ns m1 = Inr m'"
    by (auto simp: exec_iff)
  note step = upsert_Inr [OF m1 Cons.prems(2)]
  have "set (map fst m) = set ks"
    using arg_cong [OF Cons.prems(3), of set] by simp
  then have "map fst m1 = first_occurrences (ks @ [tn_claimant n])"
    using step(2) Cons.prems(3) by (simp add: first_occurrences_snoc)
  from Cons.IH [OF rest step(1) this] step(3,4) show ?case
    by (auto simp: add.assoc)
qed simp

lemma combine_nodes_Inl:
  assumes "combine_nodes ns m = Inl e" and "keyed m"
  shows "e = UnwrapFailed \<and> 2 ^ 64 \<le> amount_sum (map snd m) + amount_sum ns"
  using assms
proof (induction ns arbitrary: m)
  case (Cons n ns)
  show ?case
  proof (cases "upsert n m")
    case (Inl e')
    with Cons.prems upsert_Inl [OF Inl] show ?thesis by auto
  next
    case (Inr m1)
    with Cons.prems have "combine_nodes ns m1 = Inl e" by simp
    from Cons.IH [OF this upsert_Inr(1) [OF Inr Cons.prems(2)]]
    show ?thesis using upsert_Inr(3) [OF Inr Cons.prems(2)] by auto
  qed
qed simp

section \<open>Proofs and validation\<close>

lemma hash_set_proof [simp]:
  "tree_node_hash h (n\<lparr>tn_proof := p\<rparr>) = tree_node_hash h n"
  by (simp add: tree_node_hash_def)

lemma length_hashed_nodes [simp]: "length (hashed_nodes h ns) = length ns"
  by (simp add: hashed_nodes_def)

lemma hashed_nodes_nth [simp]:
  "i < length ns \<Longrightarrow> hashed_nodes h ns ! i = to_bytes (tree_node_hash h (ns ! i))"
  by (simp add: hashed_nodes_def)

lemma hashed_nodes_Nil_iff [simp]: "hashed_nodes h ns = [] \<longleftrightarrow> ns = []"
  by (simp add: hashed_nodes_def)

text \<open>The nodes with their proofs stored; only the proof fields change.\<close>

definition with_proofs :: "tree_node list \<Rightarrow> hash list list \<Rightarrow> tree_node list" where
  "with_proofs ns ps = map (\<lambda>i. (ns ! i)\<lparr>tn_proof := Some (ps ! i)\<rparr>) [0..<length ns]"

lemma with_proofs_same:
  "length (with_proofs ns ps) = length ns"
  "map tn_claimant (with_proofs ns ps) = map tn_claimant ns"
  "map tn_amount (with_proofs ns ps) = map tn_amount ns"
  "hashed_nodes h (with_proofs ns ps) = hashed_nodes h ns"
  by (auto simp: with_proofs_def hashed_nodes_def intro!: nth_equalityI)

lemma amount_sum_cong: "map tn_amount ms = map tn_amount ns \<Longrightarrow> amount_sum ms = amount_sum ns"
proof (induction ms arbitrary: ns)
  case (Cons m ms)
  then obtain n ns' where "ns = n # ns'" by (cases ns) auto
  with Cons show ?case by auto
qed simp

lemma owed_cong:
  assumes "map tn_amount ms = map tn_amount ns" and "map tn_claimant ms = map tn_claimant ns"
  shows "owed ms k = owed ns k"
  using assms
proof (induction ms arbitrary: ns)
  case (Cons m ms)
  then obtain n ns' where "ns = n # ns'" by (cases ns) auto
  with Cons show ?case by auto
qed simp

lemma with_proofs_sums [simp]:
  "amount_sum (with_proofs ns ps) = amount_sum ns"
  "owed (with_proofs ns ps) k = owed ns k"
  by (auto intro: amount_sum_cong owed_cong simp: with_proofs_same)

lemma attach_proofs_with:
  assumes "\<forall>i<length ns. get_proof tree i = Inr (ps ! i)"
  shows "attach_proofs tree ns = Inr (with_proofs ns ps)"
  unfolding attach_proofs_def with_proofs_def
  by (rule traverse_enumerate) (use assms in simp)

text \<open>A tree whose root and stored proofs are those of its nodes.\<close>

definition sealed :: "hashv \<Rightarrow> airdrop_merkle_tree \<Rightarrow> bool" where
  "sealed h t \<longleftrightarrow> (\<exists>tree. merkle_tree_new h True (hashed_nodes h (tree_nodes t)) = Inr tree \<and>
     get_root tree = Some (merkle_root t) \<and>
     (\<forall>i<length (tree_nodes t). \<exists>p. tn_proof (tree_nodes t ! i) = Some p \<and> get_proof tree i = Inr p))"

lemma verify_proof_sealed:
  assumes "sealed h t"
  shows "verify_proof h t = Inr ()"
proof -
  from assms obtain tree where
    tree: "merkle_tree_new h True (hashed_nodes h (tree_nodes t)) = Inr tree"
    and root: "get_root tree = Some (merkle_root t)"
    unfolding sealed_def by blast
  from tree.prove_all [OF tree root] obtain ps where
    ps: "\<forall>i<length (tree_nodes t). get_proof tree i = Inr (ps ! i)"
    and acc: "\<forall>i<length (tree_nodes t).
      verify h (ps ! i) (merkle_root t) (hash_leaf h (hashed_nodes h (tree_nodes t) ! i))"
    by (metis length_hashed_nodes)
  have "traverse (\<lambda>(i, x).
      let node = h [LEAF_PREFIX, x] in
      and_then (or_panic (get_proof tree i)) (\<lambda>p.
      or_return (require (verify h p (merkle_root t) node)
        (MerkleValidationError InvalidMerkleProof))))
    (enumerate 0 (hashed_nodes h (tree_nodes t))) =
    Inr (map (\<lambda>_. ()) [0..<length (hashed_nodes h (tree_nodes t))])"
    by (rule traverse_enumerate) (use ps acc in \<open>simp add: hash_leaf_def\<close>)
  with tree root show ?thesis
    by (simp add: verify_proof_def Let_def)
qed

text \<open>What a returned tree says about the list of claims it was made from.\<close>

definition airdrop_ok ::
  "hashv \<Rightarrow> tree_node list \<Rightarrow> u64 \<Rightarrow> airdrop_merkle_tree \<Rightarrow> bool" where
  "airdrop_ok h ns version t \<longleftrightarrow>
     sealed h t \<and> airdrop_version t = version \<and>
     map tn_claimant (tree_nodes t) = first_occurrences (map tn_claimant ns) \<and>
     (\<forall>n\<in>set (tree_nodes t). unat (tn_amount n) = owed ns (tn_claimant n)) \<and>
     unat (at_max_num_nodes t) = length (tree_nodes t) \<and>
     unat (at_max_total_claim t) = amount_sum ns"

lemma validate_sealed:
  assumes "sealed h t" and "distinct (map tn_claimant (tree_nodes t))"
    and "unat (at_max_num_nodes t) = length (tree_nodes t)" and "length (tree_nodes t) < 2 ^ 32"
    and "unat (at_max_total_claim t) = amount_sum (tree_nodes t)"
  shows "validate h t = Inr ()"
proof -
  have "card (set (map tn_claimant (tree_nodes t))) = length (tree_nodes t)"
    using distinct_card [OF assms(2)] by simp
  moreover have "get_max_total_claim (tree_nodes t) = Inr (at_max_total_claim t)"
    using assms(5) unat_u64_less [of "at_max_total_claim t"]
    by (simp add: get_max_total_claim_cases flip: assms(5))
  ultimately show ?thesis
    using assms(3,4) verify_proof_sealed [OF assms(1)] by (simp add: validate_def Let_def)
qed

lemma combine_all:
  assumes "combine_nodes ns [] = Inr m"
  shows "map tn_claimant (map snd m) = first_occurrences (map tn_claimant ns)"
    and "amount_sum (map snd m) = amount_sum ns"
    and "owed (map snd m) k = owed ns k"
    and "length (map snd m) = card (tn_claimant ` set ns)"
proof -
  have comb: "keyed m \<and> map fst m = first_occurrences (map tn_claimant ns) \<and>
      amount_sum (map snd m) = amount_sum ns \<and> (\<forall>k. owed (map snd m) k = owed ns k)"
    using combine_nodes_Inr [OF assms, of "[]"] by (simp add: keyed_def first_occurrences_def)
  show cl: "map tn_claimant (map snd m) = first_occurrences (map tn_claimant ns)"
    using keyed_claimants [of m] comb by (simp only:)
  show "amount_sum (map snd m) = amount_sum ns" and "owed (map snd m) k = owed ns k"
    using comb by blast+
  show "length (map snd m) = card (tn_claimant ` set ns)"
    using distinct_card [OF distinct_first_occurrences [of "map tn_claimant ns"]]
      arg_cong [OF cl, of length] by simp
qed

lemma tree_with_proofs:
  assumes "ns \<noteq> []"
  obtains tree root ps where "merkle_tree_new h True (hashed_nodes h ns) = Inr tree"
    and "get_root tree = Some root" and "\<forall>i<length ns. get_proof tree i = Inr (ps ! i)"
proof -
  from assms have "hashed_nodes h ns \<noteq> []" by simp
  from tree.root_exists [OF this] obtain tree root where
    tree: "merkle_tree_new h True (hashed_nodes h ns) = Inr tree" and root: "get_root tree = Some root"
    by blast
  from tree.prove_all [OF tree root] show thesis
    using that [OF tree root] by (metis length_hashed_nodes)
qed

text \<open>Every outcome of building a distribution file.\<close>

lemma airdrop_new_sealed:
  assumes m: "combine_nodes ns [] = Inr m" and fits: "amount_sum ns < 2 ^ 64"
    and ne: "ns \<noteq> []" and small: "card (tn_claimant ` set ns) < 2 ^ 32"
  shows "\<exists>t. airdrop_merkle_tree_new h ns version = Inr t \<and> airdrop_ok h ns version t"
proof -
  let ?ns = "map snd m"
  note comb = combine_all [OF m]
  have ne': "?ns \<noteq> []" using comb(4) ne by auto
  obtain tree root ps where tree: "merkle_tree_new h True (hashed_nodes h ?ns) = Inr tree"
    and root: "get_root tree = Some root" and ps: "\<forall>i<length ?ns. get_proof tree i = Inr (ps ! i)"
    using tree_with_proofs [OF ne'] .
  let ?ns' = "with_proofs ?ns ps"
  let ?t = "\<lparr>merkle_root = root, airdrop_version = version,
    at_max_num_nodes = of_nat (length ?ns'), at_max_total_claim = of_nat (amount_sum ns),
    tree_nodes = ?ns'\<rparr>"
  have nth: "?ns' ! i = (?ns ! i)\<lparr>tn_proof := Some (ps ! i)\<rparr>" if "i < length ?ns" for i
    using that by (simp add: with_proofs_def)
  have sealed: "sealed h ?t"
    unfolding sealed_def using tree root ps nth by (auto simp: with_proofs_same)
  have dist: "distinct (map tn_claimant ?ns')"
    by (simp only: with_proofs_same comb(1) distinct_first_occurrences)
  have n: "unat (of_nat (length ?ns') :: u64) = length ?ns'"
    using comb(4) small by (simp add: with_proofs_same unat_of_nat_u64)
  have tot: "unat (of_nat (amount_sum ns) :: u64) = amount_sum ns"
    using fits by (rule unat_of_nat_u64)
  have valid: "validate h ?t = Inr ()"
    by (rule validate_sealed) (use sealed dist n tot comb(2,4) small in \<open>simp_all add: with_proofs_same\<close>)
  have eq: "airdrop_merkle_tree_new h ns version = Inr ?t"
    unfolding airdrop_merkle_tree_new_def Let_def m tree attach_proofs_with [OF ps] root
      get_max_total_claim_cases or_panic.simps and_then.simps
    using comb(2) fits valid by simp
  have "unat (tn_amount n) = owed ns (tn_claimant n)" if "n \<in> set ?ns'" for n
    using owed_distinct [OF dist that] comb(3) by simp
  then have "airdrop_ok h ns version ?t"
    using sealed n tot comb(1)
    by (simp add: airdrop_ok_def with_proofs_same del: map_map)
  with eq show ?thesis by blast
qed

lemma airdrop_new_too_many:
  assumes m: "combine_nodes ns [] = Inr m" and fits: "amount_sum ns < 2 ^ 64"
    and ne: "ns \<noteq> []" and big: "2 ^ 32 \<le> card (tn_claimant ` set ns)"
  shows "\<exists>msg. airdrop_merkle_tree_new h ns version = Inl (Returned (MerkleValidationError msg))"
proof -
  let ?ns = "map snd m"
  note comb = combine_all [OF m]
  have ne': "?ns \<noteq> []" using comb(4) ne by auto
  obtain tree root ps where tree: "merkle_tree_new h True (hashed_nodes h ?ns) = Inr tree"
    and root: "get_root tree = Some root" and ps: "\<forall>i<length ?ns. get_proof tree i = Inr (ps ! i)"
    using tree_with_proofs [OF ne'] .
  have "\<exists>msg. validate h \<lparr>merkle_root = root, airdrop_version = version,
      at_max_num_nodes = of_nat (length (with_proofs ?ns ps)),
      at_max_total_claim = of_nat (amount_sum ns), tree_nodes = with_proofs ?ns ps\<rparr> =
    Inl (Returned (MerkleValidationError msg))"
    using comb(4) big by (simp add: validate_def Let_def with_proofs_same)
  then show ?thesis
    unfolding airdrop_merkle_tree_new_def Let_def m tree attach_proofs_with [OF ps] root
      get_max_total_claim_cases or_panic.simps and_then.simps
    using comb(2) fits by auto
qed

lemma airdrop_new_overflow:
  assumes "2 ^ 64 \<le> amount_sum ns"
  shows "airdrop_merkle_tree_new h ns version = Inl (Panicked UnwrapFailed)"
proof (cases "combine_nodes ns []")
  case (Inl e)
  with combine_nodes_Inl [OF Inl] show ?thesis
    by (simp add: airdrop_merkle_tree_new_def keyed_def)
next
  case (Inr m)
  let ?ns = "map snd m"
  note sum = combine_all(2) [OF Inr]
  with assms have ne': "?ns \<noteq> []" by auto
  obtain tree root ps where tree: "merkle_tree_new h True (hashed_nodes h ?ns) = Inr tree"
    and "get_root tree = Some root" and ps: "\<forall>i<length ?ns. get_proof tree i = Inr (ps ! i)"
    using tree_with_proofs [OF ne'] .
  show ?thesis
    unfolding airdrop_merkle_tree_new_def Let_def Inr tree attach_proofs_with [OF ps]
      get_max_total_claim_cases or_panic.simps and_then.simps
    using sum assms by simp
qed

lemma airdrop_new_empty:
  "airdrop_merkle_tree_new h [] version = Inl (Returned MerkleRootError)"
proof -
  obtain tree where tree: "merkle_tree_new h True [] = Inr tree"
    using tree.build_total by blast
  then have "get_root tree = None"
    by (simp add: tree.root_None_iff)
  with tree show ?thesis
    by (simp add: airdrop_merkle_tree_new_def hashed_nodes_def attach_proofs_def
        get_max_total_claim_def)
qed

lemma airdrop_new_Inr:
  assumes "airdrop_merkle_tree_new h ns version = Inr t"
  shows "airdrop_ok h ns version t"
proof -
  have fits: "amount_sum ns < 2 ^ 64"
    using assms airdrop_new_overflow [of ns h version] by force
  have ne: "ns \<noteq> []"
    using assms airdrop_new_empty by force
  obtain m where m: "combine_nodes ns [] = Inr m"
    using assms by (cases "combine_nodes ns []") (auto simp: airdrop_merkle_tree_new_def)
  have small: "card (tn_claimant ` set ns) < 2 ^ 32"
    using assms airdrop_new_too_many [OF m fits ne, of h version] by force
  from airdrop_new_sealed [OF m fits ne small, of h version] assms show ?thesis by auto
qed

end
