(* ===== verification/Runtime_Instance.thy ===== *)
theory Runtime_Instance
  imports Distributor_System Airdrop_Tree
begin

text \<open>
  A small runtime with the documented properties of the real one, and a distributor's life in it:
  created, claimed from, withdrawn from, clawed back.  The examples of the property theories are
  evaluated here, so that each hypothesis is seen to hold of a concrete state.
\<close>

section \<open>What the runtime documents\<close>

text \<open>An address found for some seeds is the one that the seeds and the bump create.\<close>

definition addresses_sound :: "solana \<Rightarrow> bool" where
  "addresses_sound E \<longleftrightarrow> (\<forall>seeds program k bump. find_program_address E seeds program = (k, bump) \<longrightarrow>
     create_program_address E (seeds @ [[bump]]) program = Some k)"

text \<open>The token program refuses a transfer only for want of funds, authority, mint or space.\<close>

definition spl_transfer_live :: "solana \<Rightarrow> bool" where
  "spl_transfer_live E \<longleftrightarrow> (\<forall>accs from to authority amt a b. accs from = Some a \<longrightarrow> accs to = Some b \<longrightarrow>
     ta_owner a = authority \<longrightarrow> ta_mint a = ta_mint b \<longrightarrow> amt \<le> ta_amount a \<longrightarrow>
     unat (ta_amount b) + unat amt < 2 ^ 64 \<longrightarrow>
     (\<exists>accs'. spl_transfer E accs from to authority amt = Inr accs'))"

section \<open>The instance\<close>

definition demo_hash :: hashv where
  "demo_hash vs = fill32 (foldl (\<lambda>a b. a * 3 + b) 1 (concat vs))"

text \<open>The bytes of a key are folded at once.\<close>

lemma foldl_fill32 [simp]:
  "foldl (\<lambda>a b. a * 3 + b) a (replicate 32 b) = (a * 129 + b * 64 :: u8)"
proof -
  have "foldl (\<lambda>a b. a * 3 + b) a (replicate 32 b) = (a * 1853020188851841 + b * 926510094425920 :: u8)"
    by (simp add: numeral_eq_Suc algebra_simps)
  moreover have "(1853020188851841 :: u8) = 129" and "(926510094425920 :: u8) = 64" by simp_all
  ultimately show ?thesis by (simp only:)
qed

definition demo_address :: "u8 list list \<Rightarrow> pubkey" where
  "demo_address seeds = fill32 (of_nat (length seeds) * 32 + hd (seeds ! 1))"

fun demo_transfer :: "(pubkey \<rightharpoonup> token_account) \<Rightarrow> pubkey \<Rightarrow> pubkey \<Rightarrow> pubkey \<Rightarrow> u64 \<Rightarrow>
    program_error + (pubkey \<rightharpoonup> token_account)" where
  "demo_transfer accs from to authority amt =
     (case accs from of None \<Rightarrow> Inl (TokenError 9) | Some a \<Rightarrow>
     (case accs to of None \<Rightarrow> Inl (TokenError 9) | Some b \<Rightarrow>
     if ta_amount a < amt then Inl (TokenError 1)
     else if ta_mint a \<noteq> ta_mint b then Inl (TokenError 3)
     else if ta_owner a \<noteq> authority then Inl (TokenError 4)
     else if from = to then Inr accs
     else (case checked_add_u64 (ta_amount b) amt of None \<Rightarrow> Inl (TokenError 14) | Some s \<Rightarrow>
       Inr (accs(from \<mapsto> a\<lparr>ta_amount := ta_amount a - amt\<rparr>, to \<mapsto> b\<lparr>ta_amount := s\<rparr>)))))"

definition demo :: solana where
  "demo = \<lparr>rt_hashv = demo_hash,
     find_program_address = (\<lambda>seeds program. (demo_address seeds, 255)),
     create_program_address = (\<lambda>seeds program. Some (demo_address (butlast seeds))),
     get_associated_token_address =
       (\<lambda>owner mint. fill32 (hd (to_bytes owner) + hd (to_bytes mint))),
     spl_transfer = demo_transfer\<rparr>"

lemma demo_simps [simp]:
  "rt_hashv demo = demo_hash"
  "find_program_address demo seeds p = (demo_address seeds, 255)"
  "create_program_address demo seeds p = Some (demo_address (butlast seeds))"
  "get_associated_token_address demo k m = fill32 (hd (to_bytes k) + hd (to_bytes m))"
  "spl_transfer demo = demo_transfer"
  by (simp_all add: demo_def)

lemma demo_addresses_sound: "addresses_sound demo"
  by (simp add: addresses_sound_def)

lemma demo_transfer_moves:
  assumes "demo_transfer accs from to authority amt = Inr accs'"
  shows "moves accs from to (unat amt) accs'"
proof -
  from assms obtain a b where a: "accs from = Some a" and b: "accs to = Some b"
    by (auto split: option.splits)
  with assms have le: "unat amt \<le> unat (ta_amount a)"
    by (auto split: if_splits simp: word_le_nat_alt not_less)
  show ?thesis
  proof (cases "from = to")
    case True
    with assms a le show ?thesis
      by (auto simp: moves_def balance_def split: if_splits)
  next
    case False
    with assms a b obtain s where s: "unat s = unat (ta_amount b) + unat amt"
      and accs': "accs' = accs(from \<mapsto> a\<lparr>ta_amount := ta_amount a - amt\<rparr>, to \<mapsto> b\<lparr>ta_amount := s\<rparr>)"
      by (auto split: if_splits option.splits simp: exec_iff)
    from le have "unat (ta_amount a - amt) = unat (ta_amount a) - unat amt"
      by (simp add: unat_sub word_le_nat_alt)
    with False a b le s show ?thesis
      unfolding accs' by (auto simp: moves_def balance_def)
  qed
qed

lemma demo_transfer_sound: "spl_transfer_sound demo"
  by (simp add: spl_transfer_sound_def demo_transfer_moves del: demo_transfer.simps)

lemma demo_transfer_live: "spl_transfer_live demo"
  by (auto simp: spl_transfer_live_def checked_add_u64_def not_less)

section \<open>A distributor's life\<close>

text \<open>
  Base \<open>1\<close>, mint \<open>2\<close>, admin \<open>3\<close>, claimant \<open>5\<close> with the token account \<open>7\<close>, clawback account \<open>9\<close>; the
  distributor's address is \<open>129\<close>, its vault's \<open>131\<close>, the claim status's \<open>101\<close>.
\<close>

definition demo_tx :: "i64 \<Rightarrow> tx" where
  "demo_tx t = \<lparr>unix_timestamp = t, clock_slot = 50, signers = {fill32 1, fill32 3, fill32 5},
     program_id = fill32 0\<rparr>"

definition demo_token :: "u8 \<Rightarrow> u64 \<Rightarrow> token_account" where
  "demo_token owner a = \<lparr>ta_mint = fill32 2, ta_owner = fill32 owner, ta_amount = a\<rparr>"

definition demo_tokens :: "u64 \<Rightarrow> u64 \<Rightarrow> u64 \<Rightarrow> pubkey \<rightharpoonup> token_account" where
  "demo_tokens vault claimant receiver = [fill32 131 \<mapsto> demo_token 129 vault,
     fill32 7 \<mapsto> demo_token 5 claimant, fill32 9 \<mapsto> demo_token 3 receiver]"

definition demo_leaf :: hash where
  "demo_leaf = claim_leaf demo_hash (fill32 5) 10 100"

definition demo_distributor :: "hash \<Rightarrow> bool \<Rightarrow> u64 \<Rightarrow> u64 \<Rightarrow> bool \<Rightarrow> merkle_distributor" where
  "demo_distributor root closable n t clawed =
     \<lparr>md_bump = 255, md_version = 0, md_root = root, md_mint = fill32 2, md_base = fill32 1,
      md_token_vault = fill32 131, md_max_total_claim = 150, md_max_num_nodes = 2,
      md_total_amount_claimed = t, md_num_nodes_claimed = n, md_start_ts = 1000, md_end_ts = 2000,
      md_clawback_start_ts = 100000, md_clawback_receiver = fill32 9, md_admin = fill32 3,
      md_clawed_back = clawed, md_enable_slot = 10, md_closable = closable,
      md_buffer_0 = fill32 0, md_buffer_1 = fill32 0, md_buffer_2 = fill32 0\<rparr>"

definition demo_status :: "bool \<Rightarrow> u64 \<Rightarrow> u64 \<Rightarrow> u64 \<Rightarrow> claim_status" where
  "demo_status closable l w u =
     \<lparr>cs_claimant = fill32 5, cs_locked_amount = l, cs_locked_amount_withdrawn = w,
      cs_unlocked_amount = u, cs_closable = closable, cs_admin = fill32 3\<rparr>"

definition demo_new :: chain where
  "demo_new = \<lparr>distributors = Map.empty, claim_statuses = Map.empty,
     token_accounts = demo_tokens 200 0 0, mints = {fill32 2}, events = []\<rparr>"

definition demo_open :: "hash \<Rightarrow> bool \<Rightarrow> chain" where
  "demo_open root closable = demo_new\<lparr>distributors := [fill32 129 \<mapsto> demo_distributor root closable 0 0 False]\<rparr>"

definition demo_claimed :: "hash \<Rightarrow> bool \<Rightarrow> chain" where
  "demo_claimed root closable = demo_new\<lparr>
     distributors := [fill32 129 \<mapsto> demo_distributor root closable 1 10 False],
     claim_statuses := [fill32 101 \<mapsto> demo_status closable 100 0 10],
     token_accounts := demo_tokens 190 10 0, events := [NewClaimEvent (fill32 5) 1100]\<rparr>"

definition demo_withdrawn :: "hash \<Rightarrow> bool \<Rightarrow> chain" where
  "demo_withdrawn root closable = demo_new\<lparr>
     distributors := [fill32 129 \<mapsto> demo_distributor root closable 1 60 False],
     claim_statuses := [fill32 101 \<mapsto> demo_status closable 100 50 10],
     token_accounts := demo_tokens 140 60 0,
     events := [NewClaimEvent (fill32 5) 1100, ClaimedEvent (fill32 5) 50]\<rparr>"

definition demo_clawed :: "hash \<Rightarrow> bool \<Rightarrow> chain" where
  "demo_clawed root closable = (demo_withdrawn root closable)\<lparr>
     distributors := [fill32 129 \<mapsto> demo_distributor root closable 1 60 True],
     token_accounts := demo_tokens 0 60 140\<rparr>"

definition demo_new_distributor :: new_distributor_accounts where
  "demo_new_distributor = \<lparr>nd_distributor = fill32 129, nd_base = fill32 1,
     nd_clawback_receiver = fill32 9, nd_mint = fill32 2, nd_token_vault = fill32 131,
     nd_admin = fill32 3\<rparr>"

definition demo_args :: "hash \<Rightarrow> bool \<Rightarrow> new_distributor_args" where
  "demo_args root closable = \<lparr>na_version = 0, na_root = root, na_max_total_claim = 150,
     na_max_num_nodes = 2, na_start_vesting_ts = 1000, na_end_vesting_ts = 2000,
     na_clawback_start_ts = 100000, na_enable_slot = 10, na_closable = closable\<rparr>"

definition demo_new_claim :: new_claim_accounts where
  "demo_new_claim = \<lparr>nc_distributor = fill32 129, nc_claim_status = fill32 101,
     nc_from = fill32 131, nc_to = fill32 7, nc_claimant = fill32 5\<rparr>"

definition demo_claim_locked :: claim_locked_accounts where
  "demo_claim_locked = \<lparr>cl_distributor = fill32 129, cl_claim_status = fill32 101,
     cl_from = fill32 131, cl_to = fill32 7, cl_claimant = fill32 5\<rparr>"

definition demo_clawback :: clawback_accounts where
  "demo_clawback = \<lparr>cb_distributor = fill32 129, cb_from = fill32 131, cb_to = fill32 9,
     cb_claimant = fill32 5\<rparr>"

lemmas demo_defs = demo_tx_def demo_token_def demo_tokens_def demo_distributor_def demo_status_def
  demo_new_def demo_open_def demo_claimed_def demo_withdrawn_def demo_clawed_def
  demo_new_distributor_def demo_args_def demo_new_claim_def demo_claim_locked_def demo_clawback_def
  demo_address_def merkle_distributor_seeds_def claim_status_seeds_def
  get_merkle_distributor_pda_def get_claim_status_pda_def

lemma demo_opens:
  "new_distributor demo (demo_tx 500) demo_new_distributor (demo_args root closable) demo_new =
     Inr (demo_open root closable)"
  by (simp add: new_distributor_def validate_new_distributor_def handle_new_distributor_def
      check_defs in_use_def demo_defs put_distributor_def checked_add_i64_def in_i64_def
      SECONDS_PER_DAY_def SECONDS_PER_HOUR_def HOURS_PER_DAY_def)

lemma demo_claims:
  "new_claim demo (demo_tx 1100) demo_new_claim 10 100 [] (demo_open demo_leaf closable) =
     Inr (demo_claimed demo_leaf closable)"
  by (simp add: new_claim_def validate_new_claim_def handle_new_claim_def transfer_signed_def
      check_defs in_use_def demo_defs checked_add_u64_def verify_def demo_leaf_def fun_eq_iff)

lemma demo_withdraws:
  "claim_locked demo (demo_tx 1500) demo_claim_locked (demo_claimed root closable) =
     Inr (demo_withdrawn root closable)"
  by (simp add: claim_locked_def validate_claim_locked_def handle_claim_locked_def transfer_signed_def
      check_defs demo_defs checked_defs amount_withdrawable_def unlocked_amount_def
      i64_as_u128_def u64_as_u128_def u128_as_u64_def remaining_seconds_def fun_eq_iff)

lemma demo_claws_back:
  "clawback demo (demo_tx 100000) demo_clawback (demo_withdrawn root closable) =
     Inr (demo_clawed root closable)"
  by (simp add: clawback_def validate_clawback_def handle_clawback_def transfer_signed_def
      check_defs demo_defs checked_defs put_distributor_def fun_eq_iff)

section \<open>Its ledger\<close>

definition demo_ledger :: "i64 \<Rightarrow> chain \<Rightarrow> ledger" where
  "demo_ledger t st = \<lparr>now = t, accounts = st\<rparr>"

lemma demo_ledger_sel [simp]: "now (demo_ledger t st) = t" "accounts (demo_ledger t st) = st"
  by (simp_all add: demo_ledger_def)

lemma demo_tx_sel [simp]: "program_id (demo_tx t) = fill32 0" "unix_timestamp (demo_tx t) = t"
  by (simp_all add: demo_tx_def)

lemma demo_executed:
  "process_instruction demo (demo_tx t') ins st = Inr st' \<Longrightarrow> sint t \<le> sint t' \<Longrightarrow>
     ledger_step demo (fill32 0) (demo_ledger t st) (demo_ledger t' st')"
  using ledger_step.executed [of demo "demo_tx t'" ins "demo_ledger t st" st' "fill32 0"]
  by (simp add: demo_ledger_def)

lemma demo_step_open:
  "ledger_step demo (fill32 0) (demo_ledger 0 demo_new) (demo_ledger 500 (demo_open r c))"
  by (rule demo_executed [of _ "NewDistributor demo_new_distributor (demo_args r c)"])
    (simp_all add: demo_opens)

lemma demo_step_claim:
  "ledger_step demo (fill32 0) (demo_ledger 500 (demo_open demo_leaf c))
     (demo_ledger 1100 (demo_claimed demo_leaf c))"
  by (rule demo_executed [of _ "NewClaim demo_new_claim 10 100 []"]) (simp_all add: demo_claims)

lemma demo_step_withdraw:
  "ledger_step demo (fill32 0) (demo_ledger 1100 (demo_claimed r c)) (demo_ledger 1500 (demo_withdrawn r c))"
  by (rule demo_executed [of _ "ClaimLocked demo_claim_locked"]) (simp_all add: demo_withdraws)

lemma demo_step_clawback:
  "ledger_step demo (fill32 0) (demo_ledger 1500 (demo_withdrawn r c)) (demo_ledger 100000 (demo_clawed r c))"
  by (rule demo_executed [of _ "Clawback demo_clawback"]) (simp_all add: demo_claws_back)

lemma demo_reachable_new: "reachable demo (fill32 0) (demo_ledger 0 demo_new)"
  by (rule reachable.start) (simp_all add: demo_new_def)

lemmas demo_reachable_open = reachable.next_step [OF demo_reachable_new demo_step_open]
lemmas demo_reachable_claimed = reachable.next_step [OF demo_reachable_open demo_step_claim]
lemmas demo_reachable_withdrawn = reachable.next_step [OF demo_reachable_claimed demo_step_withdraw]
lemmas demo_reachable_clawed = reachable.next_step [OF demo_reachable_withdrawn demo_step_clawback]

lemma demo_run:
  "(ledger_step demo (fill32 0))\<^sup>*\<^sup>* (demo_ledger 500 (demo_open demo_leaf c))
     (demo_ledger 1500 (demo_withdrawn demo_leaf c))"
  using demo_step_claim demo_step_withdraw by (blast intro: rtranclp.intros)

lemma demo_run_clawed:
  "(ledger_step demo (fill32 0))\<^sup>*\<^sup>* (demo_ledger 500 (demo_open demo_leaf c))
     (demo_ledger 100000 (demo_clawed demo_leaf c))"
  using demo_run demo_step_clawback by (rule rtranclp.rtrancl_into_rtrancl)

lemma demo_distributors [simp]:
  "distributors (demo_open r c) (fill32 129) = Some (demo_distributor r c 0 0 False)"
  "distributors (demo_claimed r c) (fill32 129) = Some (demo_distributor r c 1 10 False)"
  "distributors (demo_withdrawn r c) (fill32 129) = Some (demo_distributor r c 1 60 False)"
  "distributors (demo_clawed r c) (fill32 129) = Some (demo_distributor r c 1 60 True)"
  by (simp_all add: demo_open_def demo_claimed_def demo_withdrawn_def demo_clawed_def)

lemma demo_statuses [simp]:
  "claim_statuses (demo_open r c) = Map.empty"
  "claim_statuses (demo_claimed r c) = [fill32 101 \<mapsto> demo_status c 100 0 10]"
  "claim_statuses (demo_withdrawn r c) = [fill32 101 \<mapsto> demo_status c 100 50 10]"
  "claim_statuses (demo_clawed r c) = [fill32 101 \<mapsto> demo_status c 100 50 10]"
  by (simp_all add: demo_new_def demo_open_def demo_claimed_def demo_withdrawn_def demo_clawed_def)

lemma demo_token_accounts [simp]:
  "token_accounts (demo_open r c) = demo_tokens 200 0 0"
  "token_accounts (demo_claimed r c) = demo_tokens 190 10 0"
  "token_accounts (demo_withdrawn r c) = demo_tokens 140 60 0"
  "token_accounts (demo_clawed r c) = demo_tokens 0 60 140"
  by (simp_all add: demo_new_def demo_open_def demo_claimed_def demo_withdrawn_def demo_clawed_def)

section \<open>A distribution file\<close>

definition demo_node :: "u8 \<Rightarrow> u64 \<Rightarrow> hash list option \<Rightarrow> tree_node" where
  "demo_node k a p = \<lparr>tn_claimant = fill32 k, tn_amount = a, tn_proof = p\<rparr>"

text \<open>Two entries for the claimant \<open>5\<close> and one for \<open>6\<close>.\<close>

definition demo_nodes :: "tree_node list" where
  "demo_nodes = [demo_node 5 10 None, demo_node 6 20 None, demo_node 5 5 None]"

definition demo_item :: "u8 \<Rightarrow> u64 \<Rightarrow> u8 list" where
  "demo_item k a = to_bytes (tree_node_hash demo_hash (demo_node k a None))"

definition demo_file :: airdrop_merkle_tree where
  "demo_file = (let l = hash_leaf demo_hash (demo_item 5 15); r = hash_leaf demo_hash (demo_item 6 20)
     in \<lparr>merkle_root = combine demo_hash True l r, airdrop_version = 0, at_max_num_nodes = 2,
         at_max_total_claim = 35,
         tree_nodes = [demo_node 5 15 (Some [r]), demo_node 6 20 (Some [l])]\<rparr>)"

lemma demo_hashed_nodes:
  "hashed_nodes demo_hash [demo_node 5 15 p, demo_node 6 20 q] = [demo_item 5 15, demo_item 6 20]"
  by (simp add: hashed_nodes_def demo_item_def tree_node_hash_def demo_node_def)

lemma demo_tree:
  obtains t where "merkle_tree_new demo_hash True [demo_item 5 15, demo_item 6 20] = Inr t"
    and "get_root t = Some (combine demo_hash True (hash_leaf demo_hash (demo_item 5 15))
      (hash_leaf demo_hash (demo_item 6 20)))"
    and "get_proof t 0 = Inr [hash_leaf demo_hash (demo_item 6 20)]"
    and "get_proof t (Suc 0) = Inr [hash_leaf demo_hash (demo_item 5 15)]"
proof -
  let ?items = "[demo_item 5 15, demo_item 6 20]"
  let ?l = "hash_leaf demo_hash (demo_item 5 15)" and ?r = "hash_leaf demo_hash (demo_item 6 20)"
  let ?lvs = "levels (combine demo_hash True) (map (hash_leaf demo_hash) ?items)"
  obtain t where t: "merkle_tree_new demo_hash True ?items = Inr t"
    using tree.build_total by blast
  have lvs: "?lvs = [[?l, ?r], [combine demo_hash True ?l ?r]]"
    by (simp add: levels_step levels_short)
  have "get_proof t 0 = Inr [?r]" and "get_proof t (Suc 0) = Inr [?l]"
    using get_proof_levels [OF t, of 0] get_proof_levels [OF t, of 1]
    unfolding lvs by (simp_all add: sibling_def)
  moreover have "get_root t = Some (combine demo_hash True ?l ?r)"
    using get_root_top [OF t] by (simp add: top_node_step)
  ultimately show thesis using t that by blast
qed

lemma demo_node_proof [simp]: "(demo_node k a p)\<lparr>tn_proof := q\<rparr> = demo_node k a q"
  by (simp add: demo_node_def)

lemma demo_node_sel [simp]:
  "tn_claimant (demo_node k a p) = fill32 k" "tn_amount (demo_node k a p) = a"
  "tn_proof (demo_node k a p) = p"
  by (simp_all add: demo_node_def)

lemma demo_file_nodes [simp]:
  "tree_nodes demo_file = [demo_node 5 15 (Some [hash_leaf demo_hash (demo_item 6 20)]),
     demo_node 6 20 (Some [hash_leaf demo_hash (demo_item 5 15)])]"
  "merkle_root demo_file = combine demo_hash True (hash_leaf demo_hash (demo_item 5 15))
     (hash_leaf demo_hash (demo_item 6 20))"
  "at_max_num_nodes demo_file = 2" "at_max_total_claim demo_file = 35" "airdrop_version demo_file = 0"
  by (simp_all add: demo_file_def Let_def)

lemma demo_file_sealed: "sealed demo_hash demo_file"
  by (rule demo_tree) (simp add: sealed_def demo_hashed_nodes less_Suc_eq)

lemma demo_file_valid: "validate demo_hash demo_file = Inr ()"
  by (rule validate_sealed [OF demo_file_sealed]) simp_all

lemma demo_file_new: "airdrop_merkle_tree_new demo_hash demo_nodes 0 = Inr demo_file"
proof (rule demo_tree)
  fix t
  assume t: "merkle_tree_new demo_hash True [demo_item 5 15, demo_item 6 20] = Inr t"
    "get_root t = Some (combine demo_hash True (hash_leaf demo_hash (demo_item 5 15))
      (hash_leaf demo_hash (demo_item 6 20)))"
    "get_proof t 0 = Inr [hash_leaf demo_hash (demo_item 6 20)]"
    "get_proof t (Suc 0) = Inr [hash_leaf demo_hash (demo_item 5 15)]"
  have m: "combine_nodes demo_nodes [] =
      Inr [(fill32 5, demo_node 5 15 None), (fill32 6, demo_node 6 20 None)]"
    by (simp add: demo_nodes_def demo_node_def checked_add_u64_def)
  have "airdrop_merkle_tree_new demo_hash demo_nodes 0 = and_then (validate demo_hash demo_file) (\<lambda>_. Inr demo_file)"
    by (simp add: airdrop_merkle_tree_new_def m t demo_hashed_nodes attach_proofs_def
        get_max_total_claim_def checked_add_u64_def amount_def demo_file_def Let_def)
  then show ?thesis by (simp add: demo_file_valid)
qed

end
