(* ===== verification/Tree_Properties.thy ===== *)
theory Tree_Properties
  imports Runtime_Instance
begin

text \<open>
  The properties of the tree builder: the flat Merkle tree, its paths, \<open>Proof::verify\<close>, the
  distribution file and its validation, and the conversion of amounts.  Each is followed by the
  concrete input at which its hypotheses hold, where it has any.
\<close>

section \<open>The flat tree\<close>

text \<open>
  C35.  \<open>MerkleTree::new\<close> never panics, and its vector is the levels of the tree, leaves first, each
  level made by hashing neighbours and pairing a last odd node with itself.
\<close>

theorem flat_tree_is_levels:
  "merkle_tree_new h s items =
     Inr \<lparr>leaf_count = length items,
          nodes = concat (levels (combine h s) (map (hash_leaf h) items))\<rparr>"
  by (rule merkle_tree_new_levels)

text \<open>
  \<open>find_path\<close> never panics on a built tree: past the last leaf it returns \<open>None\<close>, otherwise one
  entry for each level, with the node reached and the one sibling on its side.
\<close>

theorem paths_are_siblings:
  "and_then (merkle_tree_new h s items) (\<lambda>mt. find_path mt i) =
     Inr (if i < length items
          then Some (level_entries (levels (combine h s) (map (hash_leaf h) items)) i) else None)"
  using find_path_levels [OF merkle_tree_new_levels, where h = h and s = s and items = items and i = i]
  by (simp add: merkle_tree_new_levels)

lemma level_count:
  assumes "xs \<noteq> []"
  shows "length xs \<le> 2 ^ (length (levels f xs) - 1) \<and>
    (1 < length (levels f xs) \<longrightarrow> 2 ^ (length (levels f xs) - 2) < length xs)"
  using assms
proof (induction "length xs" arbitrary: xs rule: less_induct)
  case less
  show ?case
  proof (cases "length xs \<le> 1")
    case True
    then show ?thesis by (simp add: levels_short)
  next
    case False
    let ?up = "pair_level f xs"
    obtain k where k: "length (levels f ?up) = Suc k"
      by (metis levels_ne length_greater_0_conv gr0_conv_Suc)
    have up: "length ?up \<le> 2 ^ k \<and> (0 < k \<longrightarrow> 2 ^ (k - 1) < length ?up)"
      using less.hyps [of ?up] False less.prems by (auto simp: k length_pair_level_pos)
    show ?thesis
    proof (cases k)
      case 0
      with up False k show ?thesis by (simp add: levels_step)
    next
      case (Suc j)
      with up have "2 ^ j < (length xs + 1) div 2" and "(length xs + 1) div 2 \<le> 2 ^ k" by auto
      then have "2 * 2 ^ j < length xs" and "length xs \<le> 2 * 2 ^ k" by linarith+
      with False k Suc show ?thesis by (simp add: levels_step)
    qed
  qed
qed

lemma length_level_siblings: "length (level_siblings lvs i) = length lvs - 1"
  by (induction lvs i rule: level_siblings.induct) auto

text \<open>
  The proof handed to the on-chain check has as many hashes as the binary logarithm of the
  number of leaves, rounded up.
\<close>

theorem proof_length_logarithmic:
  assumes "merkle_tree_new h s items = Inr mt" and "i < length items"
  shows "\<exists>p. get_proof mt i = Inr p \<and> length items \<le> 2 ^ length p \<and>
    (p = [] \<or> 2 ^ (length p - 1) < length items)"
proof -
  let ?lv = "map (hash_leaf h) items"
  let ?lvs = "levels (combine h s) ?lv"
  have "?lv \<noteq> []" using assms(2) by auto
  from level_count [OF this, of "combine h s"] show ?thesis
    unfolding get_proof_levels [OF assms]
    by (auto simp: length_level_siblings numeral_2_eq_2 simp flip: length_0_conv)
qed

lemma proof_length_logarithmic_witness:
  "\<exists>p. get_proof \<lparr>leaf_count = 3, nodes = concat (levels (combine demo_hash True)
       (map (hash_leaf demo_hash) [[1], [2], [3]]))\<rparr> 2 = Inr p \<and> 3 \<le> (2 :: nat) ^ length p \<and>
     (p = [] \<or> 2 ^ (length p - 1) < (3 :: nat))"
  using proof_length_logarithmic [OF merkle_tree_new_levels,
    where h = demo_hash and s = True and items = "[[1], [2], [3]]" and i = 2]
  by (simp add: numeral_3_eq_3)

text \<open>
  C15.  Completeness: for every item of a tree built with sorted hashes, \<open>get_proof\<close> returns a proof that
  the on-chain \<open>verify\<close> accepts for the tree's root and the item's leaf.
\<close>

theorem tree_complete:
  assumes "merkle_tree_new h True items = Inr t" and "get_root t = Some r" and "i < length items"
  shows "\<exists>p. get_proof t i = Inr p \<and> verify h p r (hash_leaf h (items ! i))"
  using assms by (rule tree.complete)

lemma tree_complete_witness:
  "\<exists>p. get_proof \<lparr>leaf_count = 2, nodes = concat (levels (combine demo_hash True)
       (map (hash_leaf demo_hash) [[1], [2]]))\<rparr> 1 = Inr p \<and>
     verify demo_hash p (combine demo_hash True (hash_leaf demo_hash [1]) (hash_leaf demo_hash [2]))
       (hash_leaf demo_hash [2])"
proof -
  let ?t = "\<lparr>leaf_count = 2, nodes = concat (levels (combine demo_hash True)
    (map (hash_leaf demo_hash) [[1], [2]]))\<rparr>"
  have "get_root ?t = Some (combine demo_hash True (hash_leaf demo_hash [1]) (hash_leaf demo_hash [2]))"
    by (simp add: get_root_def levels_step levels_short)
  from tree_complete [OF _ this, where items = "[[1], [2]]" and i = 1] show ?thesis
    by (simp add: merkle_tree_new_levels)
qed

text \<open>
  C14.  Soundness: if \<open>verify\<close> accepts any proof at all for the leaf of \<open>x\<close> and the root of the tree, then \<open>x\<close>
  is one of the items, provided that the hash function does not collide on the inputs that building
  the tree and running the check hash.
\<close>

theorem tree_sound:
  assumes "merkle_tree_new h True items = Inr t" and "get_root t = Some r"
    and "verify h p r (hash_leaf h x)"
    and "collision_free h (set (tree_inputs h items) \<union> set (check_inputs h p x))"
  shows "x \<in> set items"
  using assms by (rule tree.sound)

lemma tree_sound_witness:
  "collision_free demo_hash (set (tree_inputs demo_hash [[1], [2]]) \<union>
     set (check_inputs demo_hash [hash_leaf demo_hash [2]] [1])) \<and> [1] \<in> set [[1], [2 :: u8]]"
proof -
  let ?t = "\<lparr>leaf_count = 2, nodes = concat (levels (combine demo_hash True)
    (map (hash_leaf demo_hash) [[1], [2]]))\<rparr>"
  let ?r = "demo_hash (step_input (hash_leaf demo_hash [1]) (hash_leaf demo_hash [2]))"
  have r: "get_root ?t = Some ?r"
    by (simp add: get_root_def levels_step levels_short combine_sorted)
  have cf: "collision_free demo_hash (set (tree_inputs demo_hash [[1], [2]]) \<union>
     set (check_inputs demo_hash [hash_leaf demo_hash [2]] [1]))"
    by (simp add: collision_free_def tree_inputs_def check_inputs_def inner_inputs_def levels_step
        levels_short step_input_def hash_leaf_def demo_hash_def LEAF_PREFIX_def)
  have "verify demo_hash [hash_leaf demo_hash [2]] ?r (hash_leaf demo_hash [1])"
    by (simp add: verify_def)
  from tree_sound [OF _ r this cf] cf show ?thesis
    by (simp add: merkle_tree_new_levels)
qed

text \<open>
  The root does not determine the number of leaves: repeating the last of an odd number of items
  gives the same root.  The builder of distribution files never has equal items, as their claimants
  are distinct.
\<close>

theorem repeated_last_item_same_root:
  assumes "even (length xs)" and "xs \<noteq> []"
  shows "and_then (merkle_tree_new h s (xs @ [x])) (\<lambda>t. Inr (get_root t)) =
    and_then (merkle_tree_new h s (xs @ [x, x])) (\<lambda>t. Inr (get_root t))"
proof -
  have pair: "pair_level f (ys @ [y]) = pair_level f (ys @ [y, y])" if "even (length ys)"
    for f :: "hash \<Rightarrow> hash \<Rightarrow> hash" and ys y
    using that by (induction f ys rule: pair_level.induct) auto
  have "top_node (combine h s) (map (hash_leaf h) (xs @ [x])) =
      top_node (combine h s) (map (hash_leaf h) (xs @ [x, x]))"
    using assms pair [of "map (hash_leaf h) xs" "combine h s" "hash_leaf h x"]
    by (simp add: top_node_step [of "_ @ _"])
  then show ?thesis
    using get_root_top [OF merkle_tree_new_levels, where h = h and s = s and items = "xs @ [x]"]
      get_root_top [OF merkle_tree_new_levels, where h = h and s = s and items = "xs @ [x, x]"]
    by (simp add: merkle_tree_new_levels)
qed

lemma repeated_last_item_same_root_witness:
  "and_then (merkle_tree_new demo_hash True [[1], [2], [3]]) (\<lambda>t. Inr (get_root t)) =
     and_then (merkle_tree_new demo_hash True [[1], [2], [3], [3]]) (\<lambda>t. Inr (get_root t))"
  using repeated_last_item_same_root [of "[[1], [2]]" demo_hash True "[3]"] by simp

section \<open>\<open>Proof::verify\<close>\<close>

text \<open>
  On a tree built without sorting, the path of an item leads \<open>Proof::verify\<close> from the item's leaf to
  the root, and it accepts.
\<close>

theorem unsorted_path_verifies:
  assumes "merkle_tree_new h False items = Inr mt" and "i < length items"
  shows "\<exists>p. find_path mt i = Inr (Some p) \<and> proof_verify h p (hash_leaf h (items ! i)) \<and>
    proof_verify_fold h p (hash_leaf h (items ! i)) = get_root mt"
proof -
  let ?lv = "map (hash_leaf h) items"
  have "proof_verify_fold h (level_entries (levels (hash_intermediate h) ?lv) i)
      (hash_leaf h (items ! i)) = Some (top_node (hash_intermediate h) ?lv)"
    using proof_verify_fold_levels [of i ?lv h] assms(2) by simp
  moreover have "get_root mt = Some (top_node (hash_intermediate h) ?lv)"
    using get_root_top [OF assms(1)] assms(2) by (auto simp: combine_unsorted)
  ultimately show ?thesis
    using assms(2) by (simp add: find_path_levels [OF assms(1)] combine_unsorted proof_verify_def)
qed

lemma unsorted_path_verifies_witness:
  "\<exists>p. find_path \<lparr>leaf_count = 3, nodes = concat (levels (combine demo_hash False)
       (map (hash_leaf demo_hash) [[1], [2], [3]]))\<rparr> 2 = Inr (Some p) \<and>
     proof_verify demo_hash p (hash_leaf demo_hash [3])"
  using unsorted_path_verifies [OF merkle_tree_new_levels,
    where h = demo_hash and items = "[[1], [2], [3]]" and i = 2]
  by (auto simp: numeral_3_eq_3)

text \<open>What \<open>Proof::verify\<close> hashes at an entry for a candidate.\<close>

definition entry_input :: "proof_entry \<Rightarrow> hash \<Rightarrow> u8 list list" where
  "entry_input pe c = [INTERMEDIATE_PREFIX,
     to_bytes (case get_left_sibling pe of Some l \<Rightarrow> l | None \<Rightarrow> c),
     to_bytes (case get_right_sibling pe of Some r \<Rightarrow> r | None \<Rightarrow> c)]"

text \<open>
  With more than one leaf \<open>Proof::verify\<close> accepts only the leaf that the path belongs to, unless the
  hash function collides on the two inputs that the first entry hashes for them.
\<close>

theorem path_check_sound:
  assumes "merkle_tree_new h False items = Inr mt" and "1 < length items" and "i < length items"
    and "find_path mt i = Inr (Some p)" and "proof_verify h p c"
    and "collision_free h {entry_input (hd p) (hash_leaf h (items ! i)), entry_input (hd p) c}"
  shows "c = hash_leaf h (items ! i)"
proof -
  let ?f = "hash_intermediate h" and ?lv = "map (hash_leaf h) items"
  let ?e = "ProofEntry (pair_level ?f ?lv ! (i div 2)) (left_sib ?lv i) (right_sib ?lv i)"
  have len: "1 < length ?lv" "i < length ?lv" using assms(2,3) by simp_all
  have p: "p = ?e # level_entries (levels ?f (pair_level ?f ?lv)) (i div 2)"
    using assms(3,4) find_path_levels [OF assms(1), of i] level_entries_levels_step [OF len(1), of ?f i]
    by (simp add: combine_unsorted)
  with assms(5) have "h (entry_input ?e c) = pair_level ?f ?lv ! (i div 2)"
    by (auto simp: proof_verify_def Let_def entry_input_def hash_intermediate_def split: if_splits)
  also have "\<dots> = h (entry_input ?e (?lv ! i))"
    using pair_level_entry [OF len(2), of ?f] by (simp add: entry_input_def hash_intermediate_def)
  finally have "concat (entry_input ?e c) = concat (entry_input ?e (?lv ! i))"
    by (rule collision_freeD [OF assms(6)]) (use p len(2) in simp_all)
  then show ?thesis
    using len(2) by (cases "even i") (auto simp: entry_input_def left_sib_def right_sib_def)
qed

lemma path_check_sound_witness:
  "collision_free demo_hash {entry_input (ProofEntry (hash_intermediate demo_hash
       (hash_leaf demo_hash [1]) (hash_leaf demo_hash [2])) None (Some (hash_leaf demo_hash [2])))
     (hash_leaf demo_hash [1])} \<and> hash_leaf demo_hash [1] = hash_leaf demo_hash ([[1], [2]] ! 0)"
proof -
  have "find_path \<lparr>leaf_count = 2, nodes = concat (levels (combine demo_hash False)
      (map (hash_leaf demo_hash) [[1], [2]]))\<rparr> 0 = Inr (Some [ProofEntry (hash_intermediate demo_hash
       (hash_leaf demo_hash [1]) (hash_leaf demo_hash [2])) None (Some (hash_leaf demo_hash [2]))])"
    using find_path_levels [OF merkle_tree_new_levels,
      where h = demo_hash and s = False and items = "[[1], [2]]" and i = 0]
    by (simp add: levels_step levels_short combine_unsorted left_sib_def right_sib_def sibling_def
        numeral_2_eq_2)
  from path_check_sound [OF _ _ _ this, where items = "[[1], [2]]" and c = "hash_leaf demo_hash [1]"] show ?thesis
    by (simp add: merkle_tree_new_levels proof_verify_def Let_def collision_free_def)
qed

text \<open>
  On a tree with one leaf the path is empty, and \<open>Proof::verify\<close> then accepts every candidate: it
  never compares the result with a root.
\<close>

theorem single_leaf_accepts_all:
  "and_then (merkle_tree_new h s [x]) (\<lambda>mt. find_path mt 0) = Inr (Some []) \<and> proof_verify h [] c"
  using find_path_levels [OF merkle_tree_new_levels, where h = h and s = s and items = "[x]" and i = 0]
  by (simp add: merkle_tree_new_levels levels_short proof_verify_def)

section \<open>The distribution file\<close>

text \<open>
  C25.  Every outcome of building a distribution file.  A returned tree is sealed, has one node for each
  claimant in order of first appearance with the sum of the claimant's entries, and states their
  number and total; the builder panics only when the total does not fit in 64 bits; it returns
  \<open>MerkleRootError\<close> only for no claims and a validation error only for more than \<open>2\<^sup>3\<^sup>2 - 1\<close> claimants.
\<close>

theorem airdrop_new_outcomes:
  "case airdrop_merkle_tree_new h ns version of
     Inr t \<Rightarrow> airdrop_ok h ns version t \<and> ns \<noteq> [] \<and> amount_sum ns < 2 ^ 64 \<and>
       card (tn_claimant ` set ns) < 2 ^ 32
   | Inl (Panicked p) \<Rightarrow> p = UnwrapFailed \<and> 2 ^ 64 \<le> amount_sum ns
   | Inl (Returned MerkleRootError) \<Rightarrow> ns = []
   | Inl (Returned (MerkleValidationError msg)) \<Rightarrow>
       amount_sum ns < 2 ^ 64 \<and> 2 ^ 32 \<le> card (tn_claimant ` set ns)
   | Inl (Returned _) \<Rightarrow> False"
proof (cases "2 ^ 64 \<le> amount_sum ns \<or> ns = []")
  case True
  then show ?thesis
    by (auto simp: airdrop_new_empty airdrop_new_overflow)
next
  case False
  then have fits: "amount_sum ns < 2 ^ 64" and ne: "ns \<noteq> []" by auto
  obtain m where m: "combine_nodes ns [] = Inr m"
    using combine_nodes_Inl [of ns "[]"] fits
    by (cases "combine_nodes ns []") (auto simp: keyed_def)
  show ?thesis
  proof (cases "card (tn_claimant ` set ns) < 2 ^ 32")
    case True
    with airdrop_new_sealed [OF m fits ne True, of h version] fits ne show ?thesis by auto
  next
    case big: False
    then have "2 ^ 32 \<le> card (tn_claimant ` set ns)" by simp
    from airdrop_new_too_many [OF m fits ne this, of h version] big fits show ?thesis by auto
  qed
qed

lemma verify_proof_iff:
  "verify_proof h t = Inr () \<longleftrightarrow>
     and_then (merkle_tree_new h True (hashed_nodes h (tree_nodes t))) (\<lambda>m. Inr (get_root m)) =
       Inr (Some (merkle_root t))"
proof
  assume "verify_proof h t = Inr ()"
  then show "and_then (merkle_tree_new h True (hashed_nodes h (tree_nodes t))) (\<lambda>m. Inr (get_root m)) =
      Inr (Some (merkle_root t))"
    by (auto simp: verify_proof_def Let_def exec_iff)
next
  assume *: "and_then (merkle_tree_new h True (hashed_nodes h (tree_nodes t))) (\<lambda>m. Inr (get_root m)) =
      Inr (Some (merkle_root t))"
  then obtain mk where mk: "merkle_tree_new h True (hashed_nodes h (tree_nodes t)) = Inr mk"
    and root: "get_root mk = Some (merkle_root t)"
    by (auto simp: exec_iff)
  let ?ps = "map (\<lambda>i. case get_proof mk i of Inr p \<Rightarrow> p | Inl _ \<Rightarrow> []) [0..<length (tree_nodes t)]"
  have "get_proof mk i = Inr (?ps ! i)" if "i < length (tree_nodes t)" for i
    using tree.complete [OF mk root, of i] that by auto
  then have "sealed h (t\<lparr>tree_nodes := with_proofs (tree_nodes t) ?ps\<rparr>)"
    unfolding sealed_def using mk root by (auto simp: with_proofs_same) (simp add: with_proofs_def)
  from verify_proof_sealed [OF this] show "verify_proof h t = Inr ()"
    by (simp add: verify_proof_def with_proofs_same)
qed

lemma card_claimants_iff:
  "card (set (map tn_claimant ns)) = length ns \<longleftrightarrow> distinct (map tn_claimant ns)"
  using card_distinct [of "map tn_claimant ns"] distinct_card [of "map tn_claimant ns"] by auto

lemma validate_iff:
  "validate h t = Inr () \<longleftrightarrow> unat (at_max_num_nodes t) < 2 ^ 32 \<and>
     length (tree_nodes t) = unat (at_max_num_nodes t) \<and>
     distinct (map tn_claimant (tree_nodes t)) \<and>
     get_max_total_claim (tree_nodes t) = Inr (at_max_total_claim t) \<and> verify_proof h t = Inr ()"
  unfolding card_claimants_iff [symmetric]
  by (auto simp: validate_def Let_def exec_iff split: sum.splits failure.splits)

text \<open>
  \<open>validate\<close> accepts a distribution file exactly when its claimants are distinct, its node count and
  total are those of its nodes and in range, and its root is the root of its nodes.  The stored
  proofs are not looked at.
\<close>

theorem validate_accepts:
  "validate h t = Inr () \<longleftrightarrow>
     distinct (map tn_claimant (tree_nodes t)) \<and>
     length (tree_nodes t) = unat (at_max_num_nodes t) \<and> unat (at_max_num_nodes t) < 2 ^ 32 \<and>
     amount_sum (tree_nodes t) = unat (at_max_total_claim t) \<and>
     and_then (merkle_tree_new h True (hashed_nodes h (tree_nodes t))) (\<lambda>m. Inr (get_root m)) =
       Inr (Some (merkle_root t))"
proof -
  have "get_max_total_claim (tree_nodes t) = Inr (at_max_total_claim t) \<longleftrightarrow>
      amount_sum (tree_nodes t) = unat (at_max_total_claim t)"
    by (auto simp: get_max_total_claim_def exec_iff sum_amounts_Some_iff)
  then show ?thesis
    unfolding validate_iff verify_proof_iff by blast
qed

text \<open>
  A validated file stays valid when all its stored proofs are replaced.
\<close>

theorem stored_proofs_not_validated:
  "validate h (t\<lparr>tree_nodes := map (\<lambda>n. n\<lparr>tn_proof := p\<rparr>) (tree_nodes t)\<rparr>) = validate h t"
proof -
  let ?ns = "map (\<lambda>n. n\<lparr>tn_proof := p\<rparr>) (tree_nodes t)"
  have "hashed_nodes h ?ns = hashed_nodes h (tree_nodes t)"
    by (simp add: hashed_nodes_def comp_def)
  moreover have "amount_sum ?ns = amount_sum (tree_nodes t)"
    by (rule amount_sum_cong) simp
  ultimately show ?thesis
    by (simp add: validate_def Let_def verify_proof_def get_max_total_claim_cases comp_def)
qed

lemma find_node_map_of:
  "find_node ns k = ok_or (map_of (map (\<lambda>n. (tn_claimant n, n)) ns) k) ExplicitPanic"
  by (induction ns) auto

lemma foldl_update_map_of:
  "foldl (\<lambda>m n. m(f n \<mapsto> n)) m ns = m ++ map_of (rev (map (\<lambda>n. (f n, n)) ns))"
  by (induction ns arbitrary: m) (simp_all add: map_add_assoc)

lemma map_of_rev_distinct:
  assumes "distinct (map fst xs)"
  shows "map_of (rev xs) = map_of xs"
  using assms
proof (induction xs)
  case (Cons x xs)
  then have "map_of xs (fst x) = None" by (auto simp: map_of_eq_None_iff)
  with Cons show ?case by (cases x) (auto simp: map_add_def fun_eq_iff split: option.splits)
qed simp

text \<open>
  On a validated file the linear search of \<open>get_node\<close>, which panics for an unknown claimant, and
  the hash map served by the API find the same node.
\<close>

theorem lookup_agrees_with_hashmap:
  assumes "validate h t = Inr ()"
  shows "get_node t k = ok_or (convert_to_hashmap t k) ExplicitPanic"
proof -
  from assms have "distinct (map tn_claimant (tree_nodes t))"
    by (simp add: validate_iff)
  then have "distinct (map fst (map (\<lambda>n. (tn_claimant n, n)) (tree_nodes t)))"
    by (simp add: comp_def)
  from map_of_rev_distinct [OF this] show ?thesis
    by (simp add: get_node_def convert_to_hashmap_def find_node_map_of foldl_update_map_of)
qed

lemma lookup_agrees_with_hashmap_witness:
  "get_node demo_file (fill32 6) = ok_or (convert_to_hashmap demo_file (fill32 6)) ExplicitPanic \<and>
   get_node demo_file (fill32 7) = ok_or (convert_to_hashmap demo_file (fill32 7)) ExplicitPanic"
  using lookup_agrees_with_hashmap [OF demo_file_valid] by blast

section \<open>Amounts\<close>

text \<open>
  When the product of the decimal amount's significand and the power of ten fits in the 53 bits of a
  double, the conversion to base units is exact: the product, rounded down.
\<close>

theorem conversion_exact:
  assumes "m * 10 ^ unat d < 2 ^ 53" and "(10 :: nat) ^ unat d < 2 ^ 53"
    and "- 1074 \<le> e" and "e \<le> 0"
  shows "ui_amount_to_token_amount (F64 False m e) d =
    Inr (of_nat (m * 10 ^ unat d div 2 ^ nat (- e)))"
  using assms by (rule ui_amount_exact)

lemma conversion_exact_witness:
  "ui_amount_to_token_amount (F64 False 5 (- 1)) 6 = Inr (2500000 :: u64)"
  using conversion_exact [of 5 6 "- 1"] by simp

text \<open>
  Otherwise a unit can be lost: the double nearest to \<open>0.29\<close>, with two decimals, becomes 28 base
  units and not 29.
\<close>

theorem conversion_loses_a_unit:
  "\<bar>100 * (5224175567749775 :: int) - 29 * 2 ^ 54\<bar> * 2 \<le> 100 \<and>
   ui_amount_to_token_amount (F64 False 5224175567749775 (- 54)) 2 = Inr 28"
  by (simp add: ui_amount_to_token_amount_def checked_pow10_u64_def u64_as_f64_def round_f64_def
      Let_def round_shift_def)

end
