(* ===== verification/Program_Properties.thy ===== *)
theory Program_Properties
  imports Runtime_Instance
begin

text \<open>
  The properties of single instructions of the on-chain program: what a successful call found, what
  it left behind, who had to sign for it, and how the vesting arithmetic agrees with the schedule.
\<close>

section \<open>Vesting\<close>

text \<open>
  C6.  The checked 64- and 128-bit arithmetic of \<open>unlocked_amount\<close> computes the schedule exactly, on every
  branch; it fails only in the middle of a vesting period whose length does not fit in an \<open>i64\<close>.
\<close>

theorem unlocked_is_vested:
  "unlocked_amount cs t s e =
     (if sint s \<le> sint t \<and> sint t < sint e \<and> 2 ^ 63 \<le> sint e - sint s
      then Inl (Err ArithmeticError)
      else Inr (of_nat (vested (unat (cs_locked_amount cs)) (sint t) (sint s) (sint e))))"
proof (cases "sint s \<le> sint t \<and> sint t < sint e \<and> 2 ^ 63 \<le> sint e - sint s")
  case True
  then show ?thesis by (simp add: unlocked_amount_overflow)
next
  case False
  have "\<exists>v. unlocked_amount cs t s e = Inr v"
  proof (cases "sint s \<le> sint t \<and> sint t < sint e")
    case True
    with False unlocked_amount_between [of s t e cs] show ?thesis by auto
  next
    case False
    then show ?thesis by (auto simp: unlocked_amount_def)
  qed
  then obtain v where v: "unlocked_amount cs t s e = Inr v" by blast
  from unlocked_amount_Inr_vested [OF v] have
    "v = of_nat (vested (unat (cs_locked_amount cs)) (sint t) (sint s) (sint e))"
    by (metis of_nat_unat ucast_id)
  with v False show ?thesis by simp
qed

text \<open>
  As time passes the unlocked amount does not decrease, it never exceeds the locked amount, and at
  the end of the vesting period it is all of it.
\<close>

theorem unlocking_monotone:
  assumes "unlocked_amount cs t s e = Inr u" and "unlocked_amount cs t' s e = Inr u'"
    and "sint t \<le> sint t'"
  shows "u \<le> u' \<and> u' \<le> cs_locked_amount cs \<and>
    (sint t' < sint s \<or> sint t' < sint e \<or> u' = cs_locked_amount cs)"
proof -
  note v = unlocked_amount_Inr_vested [OF assms(1)] and v' = unlocked_amount_Inr_vested [OF assms(2)]
  have "u \<le> u'" and "u' \<le> cs_locked_amount cs"
    using vested_mono [OF assms(3)] vested_le by (simp_all add: word_le_nat_alt v v')
  moreover have "u' = cs_locked_amount cs" if "\<not> sint t' < sint s" "\<not> sint t' < sint e"
    using that v' by (simp add: vested_end word_unat_eq_iff)
  ultimately show ?thesis by blast
qed

lemma unlocking_monotone_witness:
  "(50 :: u64) \<le> 75 \<and> 75 \<le> cs_locked_amount (demo_status False 100 0 10)"
proof -
  have "unlocked_amount (demo_status False 100 0 10) 1500 1000 2000 = Inr 50"
    and "unlocked_amount (demo_status False 100 0 10) 1750 1000 2000 = Inr 75"
    by (simp_all add: unlocked_is_vested vested_def demo_status_def)
  from unlocking_monotone [OF this] show ?thesis by simp
qed

section \<open>Claims\<close>

text \<open>
  C8.  A successful \<open>new_claim\<close>: the claimant signed and had no claim status; claiming has started and the
  distributor is not clawed back; the proof verifies against the root; one more node and the unlocked
  amount are counted within the limits; a claim status is created at the derived address; and the
  vault pays exactly the unlocked amount.
\<close>

theorem new_claim_pays:
  assumes "spl_transfer_sound E" and "new_claim E tx accs u l pf st = Inr st'"
  shows "\<exists>d d'. distributors st (nc_distributor accs) = Some d \<and>
    distributors st' = (distributors st)(nc_distributor accs \<mapsto> d') \<and>
    nc_claimant accs \<in> signers tx \<and> \<not> md_clawed_back d \<and> md_enable_slot d \<le> clock_slot tx \<and>
    verify (rt_hashv E) pf (md_root d) (claim_leaf (rt_hashv E) (nc_claimant accs) u l) \<and>
    d' = d\<lparr>md_num_nodes_claimed := md_num_nodes_claimed d',
      md_total_amount_claimed := md_total_amount_claimed d'\<rparr> \<and>
    unat (md_num_nodes_claimed d') = unat (md_num_nodes_claimed d) + 1 \<and>
    unat (md_total_amount_claimed d') = unat (md_total_amount_claimed d) + unat u \<and>
    md_num_nodes_claimed d' \<le> md_max_num_nodes d \<and>
    md_total_amount_claimed d' \<le> md_max_total_claim d \<and>
    (let c = fst (get_claim_status_pda E (program_id tx) (nc_claimant accs) (nc_distributor accs)) in
      claim_statuses st c = None \<and> claim_statuses st' = (claim_statuses st)(c \<mapsto>
        \<lparr>cs_claimant = nc_claimant accs, cs_locked_amount = l, cs_locked_amount_withdrawn = 0,
         cs_unlocked_amount = u, cs_closable = md_closable d, cs_admin = md_admin d\<rparr>)) \<and>
    (\<exists>to. token_accounts st (nc_to accs) = Some to \<and> ta_owner to = nc_claimant accs) \<and>
    moves (token_accounts st) (md_token_vault d) (nc_to accs) (unat u) (token_accounts st')"
proof -
  from assms(2) obtain d where v: "validate_new_claim E tx accs st = Inr d"
    and h: "handle_new_claim E tx accs d u l pf st = Inr st'"
    by (auto simp: new_claim_def exec_iff)
  note v' = validate_new_claim_Inr [OF v]
  from h show ?thesis
  proof (rule handle_new_claim_Inr)
    fix n t toks
    assume a: "\<not> md_clawed_back d" "md_enable_slot d \<le> clock_slot tx"
      "unat n = unat (md_num_nodes_claimed d) + 1" "n \<le> md_max_num_nodes d"
      "verify (rt_hashv E) pf (md_root d) (claim_leaf (rt_hashv E) (nc_claimant accs) u l)"
      "spl_transfer E (token_accounts st) (nc_from accs) (nc_to accs) (nc_distributor accs) u = Inr toks"
      "unat t = unat (md_total_amount_claimed d) + unat u" "t \<le> md_max_total_claim d"
      and st': "st' = st\<lparr>distributors := (distributors st)(nc_distributor accs \<mapsto>
          d\<lparr>md_num_nodes_claimed := n, md_total_amount_claimed := t\<rparr>),
        claim_statuses := (claim_statuses st)(nc_claim_status accs \<mapsto>
          \<lparr>cs_claimant = nc_claimant accs, cs_locked_amount = l, cs_locked_amount_withdrawn = 0,
           cs_unlocked_amount = u, cs_closable = md_closable d, cs_admin = md_admin d\<rparr>),
        token_accounts := toks,
        events := events st @ [NewClaimEvent (nc_claimant accs) (unix_timestamp tx)]\<rparr>"
    show ?thesis
      using v' a spl_transfer_moves [OF assms(1) a(6)] unfolding st'
      by (intro exI [of _ d]
          exI [of _ "d\<lparr>md_num_nodes_claimed := n, md_total_amount_claimed := t\<rparr>"])
        (auto simp: in_use_def)
  qed
qed

lemma new_claim_pays_witness:
  "spl_transfer_sound demo \<and>
   new_claim demo (demo_tx 1100) demo_new_claim 10 100 [] (demo_open demo_leaf False) =
     Inr (demo_claimed demo_leaf False) \<and>
   moves (demo_tokens 200 0 0) (fill32 131) (fill32 7) 10 (demo_tokens 190 10 0)"
  using new_claim_pays [OF demo_transfer_sound demo_claims, of False] demo_transfer_sound demo_claims
  by (auto simp: demo_new_claim_def demo_distributor_def)

text \<open>
  C7.  A successful \<open>claim_locked\<close> pays, of the locked amount, exactly what is vested now and not yet
  withdrawn: afterwards the recorded withdrawals are the vested amount, whatever the earlier
  withdrawals were.  The payment is positive, is counted in the total within its limit, and is signed
  by the claimant; nothing else of the distributor or the claim status changes.
\<close>

theorem claim_locked_pays:
  assumes "spl_transfer_sound E" and "claim_locked E tx accs st = Inr st'"
  shows "\<exists>d d' cs cs' amount. distributors st (cl_distributor accs) = Some d \<and>
    claim_statuses st (cl_claim_status accs) = Some cs \<and>
    cl_claim_status accs =
      fst (get_claim_status_pda E (program_id tx) (cl_claimant accs) (cl_distributor accs)) \<and>
    distributors st' = (distributors st)(cl_distributor accs \<mapsto> d') \<and>
    claim_statuses st' = (claim_statuses st)(cl_claim_status accs \<mapsto> cs') \<and>
    cl_claimant accs \<in> signers tx \<and> \<not> md_clawed_back d \<and> md_enable_slot d \<le> clock_slot tx \<and>
    cs' = cs\<lparr>cs_locked_amount_withdrawn := cs_locked_amount_withdrawn cs'\<rparr> \<and>
    unat (cs_locked_amount_withdrawn cs') = vested (unat (cs_locked_amount cs))
      (sint (unix_timestamp tx)) (sint (md_start_ts d)) (sint (md_end_ts d)) \<and>
    0 < amount \<and> unat (cs_locked_amount_withdrawn cs) + amount = unat (cs_locked_amount_withdrawn cs') \<and>
    d' = d\<lparr>md_total_amount_claimed := md_total_amount_claimed d'\<rparr> \<and>
    unat (md_total_amount_claimed d') = unat (md_total_amount_claimed d) + amount \<and>
    md_total_amount_claimed d' \<le> md_max_total_claim d \<and>
    moves (token_accounts st) (md_token_vault d) (cl_to accs) amount (token_accounts st')"
proof -
  from assms(2) obtain d cs where v: "validate_claim_locked E tx accs st = Inr (d, cs)"
    and h: "handle_claim_locked E tx accs d cs st = Inr st'"
    by (auto simp: claim_locked_def exec_iff)
  note v' = validate_claim_locked_Inr [OF v]
  from h show ?thesis
  proof (rule handle_claim_locked_Inr)
    fix amount w t toks
    assume a: "\<not> md_clawed_back d" "md_enable_slot d \<le> clock_slot tx"
      "amount_withdrawable cs (unix_timestamp tx) (md_start_ts d) (md_end_ts d) = Inr amount"
      "0 < amount"
      "spl_transfer E (token_accounts st) (cl_from accs) (cl_to accs) (cl_distributor accs) amount =
        Inr toks"
      "unat w = unat (cs_locked_amount_withdrawn cs) + unat amount" "w \<le> cs_locked_amount cs"
      "unat t = unat (md_total_amount_claimed d) + unat amount" "t \<le> md_max_total_claim d"
      and st': "st' = st\<lparr>
        distributors := (distributors st)(cl_distributor accs \<mapsto> d\<lparr>md_total_amount_claimed := t\<rparr>),
        claim_statuses := (claim_statuses st)(cl_claim_status accs \<mapsto>
          cs\<lparr>cs_locked_amount_withdrawn := w\<rparr>),
        token_accounts := toks,
        events := events st @ [ClaimedEvent (cl_claimant accs) amount]\<rparr>"
    from a(3) obtain u where u: "unlocked_amount cs (unix_timestamp tx) (md_start_ts d) (md_end_ts d) = Inr u"
      and "unat (cs_locked_amount_withdrawn cs) \<le> unat u"
      and "unat amount = unat u - unat (cs_locked_amount_withdrawn cs)"
      by (auto simp: amount_withdrawable_def exec_iff)
    with unlocked_amount_Inr_vested [OF u] a(6) have w: "unat w = vested (unat (cs_locked_amount cs))
        (sint (unix_timestamp tx)) (sint (md_start_ts d)) (sint (md_end_ts d))"
      by simp
    show ?thesis
      using v' a w spl_transfer_moves [OF assms(1) a(5)] unfolding st'
      by (intro exI [of _ d] exI [of _ "d\<lparr>md_total_amount_claimed := t\<rparr>"] exI [of _ cs]
          exI [of _ "cs\<lparr>cs_locked_amount_withdrawn := w\<rparr>"] exI [of _ "unat amount"])
        (simp add: word_less_nat_alt)
  qed
qed

lemma claim_locked_pays_witness:
  "spl_transfer_sound demo \<and>
   claim_locked demo (demo_tx 1500) demo_claim_locked (demo_claimed demo_leaf False) =
     Inr (demo_withdrawn demo_leaf False) \<and>
   moves (demo_tokens 190 10 0) (fill32 131) (fill32 7) (vested 100 1500 1000 2000)
     (demo_tokens 140 60 0)"
  using claim_locked_pays [OF demo_transfer_sound demo_withdraws, of demo_leaf False]
    demo_transfer_sound demo_withdraws
  by (auto simp: demo_claim_locked_def demo_distributor_def demo_status_def)

section \<open>Opening and clawing back\<close>

text \<open>
  \<open>handle_new_distributor\<close> accepts exactly the schedules whose vesting starts in the future, ends
  after it starts, and is over at least a day before clawback may start, with no overflow at the
  boundary of \<open>i64\<close>.
\<close>

theorem new_distributor_schedule:
  "handle_new_distributor tx accs bump args st \<in> range Inr \<longleftrightarrow>
     sint (unix_timestamp tx) < sint (na_start_vesting_ts args) \<and>
     sint (na_start_vesting_ts args) < sint (na_end_vesting_ts args) \<and>
     sint (na_end_vesting_ts args) + 86400 \<le> sint (na_clawback_start_ts args)"
  unfolding handle_new_distributor_schedule schedule_ok_def by (rule refl)

text \<open>
  C34.  A successful clawback comes at or after \<open>clawback_start_ts\<close>, on a distributor not clawed back
  before, and moves the whole balance of the vault to the clawback receiver.
\<close>

theorem clawback_takes_all:
  assumes "spl_transfer_sound E" and "clawback E tx accs st = Inr st'"
  shows "\<exists>d. distributors st (cb_distributor accs) = Some d \<and> \<not> md_clawed_back d \<and>
    sint (md_clawback_start_ts d) \<le> sint (unix_timestamp tx) \<and>
    distributors st' = (distributors st)(cb_distributor accs \<mapsto> d\<lparr>md_clawed_back := True\<rparr>) \<and>
    claim_statuses st' = claim_statuses st \<and>
    moves (token_accounts st) (md_token_vault d) (md_clawback_receiver d)
      (balance (token_accounts st) (md_token_vault d)) (token_accounts st') \<and>
    (md_token_vault d = md_clawback_receiver d \<or>
     balance (token_accounts st') (md_token_vault d) = 0)"
proof -
  from assms(2) obtain d a toks where d: "distributors st (cb_distributor accs) = Some d"
    and src: "token_accounts st (md_token_vault d) = Some a"
    and "\<not> md_clawed_back d" and "sint (md_clawback_start_ts d) \<le> sint (unix_timestamp tx)"
    and pay: "spl_transfer E (token_accounts st) (md_token_vault d) (md_clawback_receiver d)
      (cb_distributor accs) (ta_amount a) = Inr toks"
    and "st' = put_distributor (cb_distributor accs) (d\<lparr>md_clawed_back := True\<rparr>)
      (st\<lparr>token_accounts := toks\<rparr>)"
    unfolding clawback_Inr by auto
  moreover from spl_transfer_moves [OF assms(1) pay] src
  have m: "moves (token_accounts st) (md_token_vault d) (md_clawback_receiver d)
      (balance (token_accounts st) (md_token_vault d)) toks"
    by (simp add: balance_def)
  moreover have "md_token_vault d = md_clawback_receiver d \<or> balance toks (md_token_vault d) = 0"
    using m unfolding moves_def by (simp split: if_splits)
  ultimately show ?thesis
    by (intro exI [of _ d]) simp
qed

lemma clawback_takes_all_witness:
  "spl_transfer_sound demo \<and>
   clawback demo (demo_tx 100000) demo_clawback (demo_withdrawn demo_leaf False) =
     Inr (demo_clawed demo_leaf False) \<and>
   balance (demo_tokens 0 60 140) (fill32 131) = 0"
  using clawback_takes_all [OF demo_transfer_sound demo_claws_back, of demo_leaf False]
    demo_transfer_sound demo_claws_back
  by (auto simp: demo_clawback_def demo_distributor_def)

text \<open>
  Clawback is open to everybody: a call that succeeds also succeeds, with the same result, for any
  other signer.
\<close>

theorem clawback_by_anyone:
  assumes "clawback E tx accs st = Inr st'" and "k \<in> signers tx"
  shows "clawback E tx (accs\<lparr>cb_claimant := k\<rparr>) st = Inr st'"
  using assms unfolding clawback_Inr by auto

lemma clawback_by_anyone_witness:
  "fill32 1 \<in> signers (demo_tx 100000) \<and>
   clawback demo (demo_tx 100000) (demo_clawback\<lparr>cb_claimant := fill32 1\<rparr>)
     (demo_withdrawn demo_leaf False) = Inr (demo_clawed demo_leaf False)"
  using clawback_by_anyone [OF demo_claws_back, of "fill32 1" demo_leaf False]
  by (simp add: demo_tx_def)

section \<open>All instructions\<close>

text \<open>
  C26.  Refinement: a successful call of any instruction has one of the seven effects of the
  specification, with that effect's guards.
\<close>

theorem instructions_refine:
  assumes "process_instruction E tx ins st = Inr st'"
  shows "effect E tx st st'"
  using assms by (rule process_instruction_effect)

lemma instructions_refine_witness:
  "effect demo (demo_tx 1100) (demo_open demo_leaf False) (demo_claimed demo_leaf False)"
  by (rule instructions_refine [of _ _ "NewClaim demo_new_claim 10 100 []"]) (simp add: demo_claims)

text \<open>
  C32.  What an admin controls changes only with the admin's signature: the admin itself, the slot from which
  claims are open, the clawback receiver and the clawback start; and only a closable distributor can
  disappear, again with that signature.
\<close>

theorem admin_authority:
  assumes "process_instruction E tx ins st = Inr st'" and "distributors st k = Some d"
    and "md_admin d \<notin> signers tx"
  shows "\<exists>d'. distributors st' k = Some d' \<and> md_admin d' = md_admin d \<and>
    md_enable_slot d' = md_enable_slot d \<and> md_clawback_receiver d' = md_clawback_receiver d \<and>
    md_clawback_start_ts d' = md_clawback_start_ts d"
  using process_instruction_effect [OF assms(1)] assms(2,3)
  by (cases rule: effect.cases) (auto simp: counted_def fresh_distributor_def in_use_def)

lemma admin_authority_witness:
  "\<exists>d'. distributors (demo_claimed demo_leaf False) (fill32 129) = Some d' \<and>
     md_enable_slot d' = md_enable_slot (demo_distributor demo_leaf False 0 0 False)"
proof -
  have "new_claim demo ((demo_tx 1100)\<lparr>signers := {fill32 5}\<rparr>) demo_new_claim 10 100 []
      (demo_open demo_leaf False) = Inr (demo_claimed demo_leaf False)"
    by (simp add: new_claim_def validate_new_claim_def handle_new_claim_def transfer_signed_def
      check_defs in_use_def demo_defs checked_add_u64_def verify_def demo_leaf_def fun_eq_iff)
  then have "process_instruction demo ((demo_tx 1100)\<lparr>signers := {fill32 5}\<rparr>)
      (NewClaim demo_new_claim 10 100 []) (demo_open demo_leaf False) = Inr (demo_claimed demo_leaf False)"
    by simp
  from admin_authority [OF this, of "fill32 129" "demo_distributor demo_leaf False 0 0 False"]
  show ?thesis by (simp add: demo_distributor_def)
qed

text \<open>
  C33.  A claim status is created or changed only by a transaction that its claimant signed, at the address
  derived for that claimant; it disappears only when it is closable and its admin signed.
\<close>

theorem claimant_authority:
  assumes "process_instruction E tx ins st = Inr st'"
    and "claim_statuses st' c \<noteq> claim_statuses st c"
  shows "(\<exists>claimant k cs'. claim_statuses st' c = Some cs' \<and> claimant \<in> signers tx \<and>
      c = fst (get_claim_status_pda E (program_id tx) claimant k)) \<or>
    (\<exists>cs. claim_statuses st c = Some cs \<and> claim_statuses st' c = None \<and> cs_closable cs \<and>
      cs_admin cs \<in> signers tx)"
  using process_instruction_effect [OF assms(1)] assms(2)
proof (cases rule: effect.cases)
  case (claims k d c1 cs pf d' to toks vault dest evs)
  with assms(2) have "c = c1" by (auto split: if_splits)
  with claims show ?thesis by auto
next
  case (withdraws k d c1 cs claimant amt d' cs' to toks vault dest evs)
  with assms(2) have "c = c1" by (auto split: if_splits)
  with withdraws show ?thesis by auto
next
  case (closes_status c1 cs)
  with assms(2) have "c = c1" by (auto split: if_splits)
  with closes_status show ?thesis by auto
qed (use assms(2) in auto)

lemma claimant_authority_witness:
  "(\<exists>claimant k cs'. claim_statuses (demo_claimed demo_leaf False) (fill32 101) = Some cs' \<and>
      claimant \<in> signers (demo_tx 1100) \<and>
      fill32 101 = fst (get_claim_status_pda demo (fill32 0) claimant k)) \<or>
   (\<exists>cs. claim_statuses (demo_open demo_leaf False) (fill32 101) = Some cs \<and>
      claim_statuses (demo_claimed demo_leaf False) (fill32 101) = None \<and> cs_closable cs \<and>
      cs_admin cs \<in> signers (demo_tx 1100))"
  using claimant_authority [of demo "demo_tx 1100" "NewClaim demo_new_claim 10 100 []"
      "demo_open demo_leaf False" "demo_claimed demo_leaf False" "fill32 101"]
  by (simp add: demo_claims)

text \<open>
  The start of the clawback period only ever moves to a time in the future that leaves a day after
  the end of vesting.
\<close>

theorem clawback_start_guarded:
  assumes "process_instruction E tx ins st = Inr st'" and "distributors st k = Some d"
    and "distributors st' k = Some d'" and "md_clawback_start_ts d' \<noteq> md_clawback_start_ts d"
  shows "sint (unix_timestamp tx) < sint (md_clawback_start_ts d') \<and>
    sint (md_end_ts d') + 86400 \<le> sint (md_clawback_start_ts d') \<and> md_admin d \<in> signers tx"
  using process_instruction_effect [OF assms(1)] assms(2-4)
  by (cases rule: effect.cases)
    (auto simp: administered_def same_terms_def counted_def fresh_distributor_def in_use_def
      split: if_splits)

lemma clawback_start_guarded_witness:
  "sint (1100 :: i64) < sint (90000 :: i64) \<and> sint (2000 :: i64) + 86400 \<le> sint (90000 :: i64) \<and>
   fill32 3 \<in> signers (demo_tx 1100)"
proof -
  let ?accs = "\<lparr>st_distributor = fill32 129, st_admin = fill32 3\<rparr>"
  let ?d = "demo_distributor demo_leaf False 0 0 False"
  have "process_instruction demo (demo_tx 1100) (SetClawbackStartTs ?accs 90000)
      (demo_open demo_leaf False) =
      Inr (put_distributor (fill32 129) (?d\<lparr>md_clawback_start_ts := 90000\<rparr>) (demo_open demo_leaf False))"
    by (simp add: set_clawback_start_ts_Inr in_i64_def) (simp add: demo_distributor_def demo_tx_def)
  from clawback_start_guarded [OF this, of "fill32 129" ?d] show ?thesis
    by (simp add: demo_distributor_def)
qed

end
