(* ===== verification/Ledger_Properties.thy ===== *)
theory Ledger_Properties
  imports Runtime_Instance
begin

text \<open>
  The properties of runs of the on-chain program: invariants of reachable ledgers, what can never
  change once set, claims that cannot be repeated, and the solvency of a vault.  They rest on the
  interpretations \<open>ledger\<close>, \<open>history\<close> and \<open>solvent\<close> of the interfaces of step systems.
\<close>

section \<open>Invariants\<close>

text \<open>
  C30.  In every reachable ledger a distributor has counted no more nodes and paid no more than its
  maxima, has a vesting period after time zero of positive length, may be clawed back no earlier than
  a day after it, and stands at the address derived from its base, mint and version, with the
  associated token account of that address as its vault.
\<close>

theorem reachable_distributors:
  assumes "reachable E pid l" and "distributors (accounts l) k = Some d"
  shows "md_num_nodes_claimed d \<le> md_max_num_nodes d \<and>
    md_total_amount_claimed d \<le> md_max_total_claim d \<and>
    0 < sint (md_start_ts d) \<and> sint (md_start_ts d) < sint (md_end_ts d) \<and>
    sint (md_end_ts d) + 86400 \<le> sint (md_clawback_start_ts d) \<and>
    (k, md_bump d) = get_merkle_distributor_pda E pid (md_base d) (md_mint d) (md_version d) \<and>
    md_token_vault d = get_associated_token_address E k (md_mint d)"
  using reachable_inv [OF assms(1)] assms(2) unfolding ledger_inv_def distributor_ok_def by blast

lemma reachable_distributors_witness:
  "md_total_amount_claimed (demo_distributor demo_leaf False 1 60 False) \<le> 150"
  using reachable_distributors [OF demo_reachable_withdrawn [where c = False], of "fill32 129"]
  by (simp add: demo_distributor_def)

text \<open>
  In every reachable ledger no claim status records more withdrawals than were locked.
\<close>

theorem reachable_statuses:
  assumes "reachable E pid l" and "claim_statuses (accounts l) c = Some cs"
  shows "cs_locked_amount_withdrawn cs \<le> cs_locked_amount cs"
  using reachable_inv [OF assms(1)] assms(2) unfolding ledger_inv_def status_ok_def by blast

lemma reachable_statuses_witness:
  "cs_locked_amount_withdrawn (demo_status False 100 50 10) \<le> cs_locked_amount (demo_status False 100 50 10)"
  using reachable_statuses [OF demo_reachable_withdrawn [where c = False], of "fill32 101"]
  by simp

text \<open>
  C38.  On a reachable ledger the vesting computation never fails: at every time it returns the vested
  amount, because the vesting period fits in an \<open>i64\<close>.
\<close>

theorem vesting_never_overflows:
  assumes "reachable E pid l" and "distributors (accounts l) k = Some d"
  shows "unlocked_amount cs t (md_start_ts d) (md_end_ts d) =
    Inr (of_nat (vested (unat (cs_locked_amount cs)) (sint t) (sint (md_start_ts d)) (sint (md_end_ts d))))"
proof -
  have "distributor_ok E pid k d"
    using reachable_inv [OF assms(1)] assms(2) unfolding ledger_inv_def by blast
  then have "sint (md_end_ts d) - sint (md_start_ts d) < 2 ^ 63"
    using sint_lt [of "md_end_ts d"] by (simp add: distributor_ok_def)
  from unlocked_amount_ok [OF this, of cs t] obtain v where
    "unlocked_amount cs t (md_start_ts d) (md_end_ts d) = Inr v"
    "unat v = vested (unat (cs_locked_amount cs)) (sint t) (sint (md_start_ts d)) (sint (md_end_ts d))"
    by blast
  then show ?thesis by (metis of_nat_unat ucast_id)
qed

lemma vesting_never_overflows_witness:
  "unlocked_amount (demo_status False 100 0 10) 1500
     (md_start_ts (demo_distributor demo_leaf False 1 10 False))
     (md_end_ts (demo_distributor demo_leaf False 1 10 False)) = Inr (of_nat (vested 100 1500 1000 2000))"
  using vesting_never_overflows [OF demo_reachable_claimed [where c = False],
    where k = "fill32 129" and cs = "demo_status False 100 0 10" and t = 1500]
  by (simp add: demo_distributor_def demo_status_def)

section \<open>What cannot change\<close>

lemma reachable_evolves:
  assumes "reachable E pid l" and "(ledger_step E pid)\<^sup>*\<^sup>* l l'"
  shows "evolves l l'"
  using history.run_evolves [OF assms(2) reachable_inv [OF assms(1)]] .

text \<open>
  C29.  A distributor that is not closable stays for good, with the root, mint, vault, maxima and vesting
  period it was created with; its counters only grow.
\<close>

theorem terms_fixed:
  assumes "reachable E pid l" and "(ledger_step E pid)\<^sup>*\<^sup>* l l'"
    and "distributors (accounts l) k = Some d" and "\<not> md_closable d"
  shows "\<exists>d'. distributors (accounts l') k = Some d' \<and> \<not> md_closable d' \<and>
    md_root d' = md_root d \<and> md_mint d' = md_mint d \<and> md_token_vault d' = md_token_vault d \<and>
    md_max_total_claim d' = md_max_total_claim d \<and> md_max_num_nodes d' = md_max_num_nodes d \<and>
    md_start_ts d' = md_start_ts d \<and> md_end_ts d' = md_end_ts d \<and>
    md_total_amount_claimed d \<le> md_total_amount_claimed d' \<and>
    md_num_nodes_claimed d \<le> md_num_nodes_claimed d'"
proof -
  from reachable_evolves [OF assms(1,2)] assms(3,4) obtain d' where
    "distributors (accounts l') k = Some d'" "grows d d'"
    unfolding evolves_def by blast
  with assms(4) show ?thesis by (auto simp: grows_def same_terms_def)
qed

lemma terms_fixed_witness:
  "\<exists>d'. distributors (accounts (demo_ledger 1500 (demo_withdrawn demo_leaf False))) (fill32 129) = Some d' \<and>
     md_root d' = demo_leaf"
  using terms_fixed [OF demo_reachable_open [where c = False] demo_run, of "fill32 129"
      "demo_distributor demo_leaf False 0 0 False"]
  by (simp add: demo_distributor_def)

text \<open>
  C28.  A clawback is final: on a distributor that is not closable, no claim of either kind succeeds in
  any later ledger, and the amount claimed stays what it was.
\<close>

theorem clawback_final:
  assumes "reachable E pid l" and "(ledger_step E pid)\<^sup>*\<^sup>* l l'"
    and "distributors (accounts l) k = Some d" and "\<not> md_closable d" and "md_clawed_back d"
    and "nc_distributor nc = k" and "cl_distributor cl = k"
  shows "new_claim E tx nc u a pf (accounts l') \<notin> range Inr \<and>
    claim_locked E tx cl (accounts l') \<notin> range Inr \<and>
    map_option md_total_amount_claimed (distributors (accounts l') k) = Some (md_total_amount_claimed d)"
proof -
  from reachable_evolves [OF assms(1,2)] assms(3,4) obtain d' where
    d': "distributors (accounts l') k = Some d'" and g: "grows d d'"
    unfolding evolves_def by blast
  with assms(5) have c: "md_clawed_back d'" by (simp add: grows_def)
  have "new_claim E tx nc u a pf (accounts l') \<noteq> Inr st" for st
    using d' c assms(6) validate_new_claim_Inr(1) [of E tx nc "accounts l'"]
    by (auto simp: new_claim_def handle_new_claim_def exec_iff)
  moreover have "claim_locked E tx cl (accounts l') \<noteq> Inr st" for st
    using d' c assms(7) validate_claim_locked_Inr(1) [of E tx cl "accounts l'"]
    by (auto simp: claim_locked_def handle_claim_locked_def exec_iff)
  ultimately show ?thesis
    using d' g assms(5) by (auto simp: grows_def)
qed

lemma clawback_final_witness:
  "new_claim demo (demo_tx 100000) demo_new_claim 10 100 []
     (accounts (demo_ledger 100000 (demo_clawed demo_leaf False))) \<notin> range Inr"
  using clawback_final [OF demo_reachable_clawed [where c = False] rtranclp.rtrancl_refl, where k = "fill32 129" and
      d = "demo_distributor demo_leaf False 1 60 True" and nc = demo_new_claim and cl = demo_claim_locked
      and tx = "demo_tx 100000" and u = 10 and a = 100 and pf = "[]"]
  by (simp add: demo_distributor_def demo_new_claim_def demo_claim_locked_def)

text \<open>
  C3.  Nobody claims twice: after a successful \<open>new_claim\<close> on a distributor that is not closable, no
  \<open>new_claim\<close> by the same claimant on that distributor succeeds in any later ledger, with whatever
  amounts, proof and accounts.
\<close>

theorem no_second_claim:
  assumes "reachable E pid l" and "new_claim E tx nc u a pf (accounts l) = Inr st'"
    and "program_id tx = pid" and "sint (now l) \<le> sint (unix_timestamp tx)"
    and "distributors (accounts l) (nc_distributor nc) = Some d" and "\<not> md_closable d"
    and "(ledger_step E pid)\<^sup>*\<^sup>* \<lparr>now = unix_timestamp tx, accounts = st'\<rparr> l'"
    and "program_id tx' = pid" and "nc_distributor nc' = nc_distributor nc"
    and "nc_claimant nc' = nc_claimant nc"
  shows "new_claim E tx' nc' u' a' pf' (accounts l') \<notin> range Inr"
proof -
  let ?c = "fst (get_claim_status_pda E pid (nc_claimant nc) (nc_distributor nc))"
  from assms(2) obtain d1 where v: "validate_new_claim E tx nc (accounts l) = Inr d1"
    and h: "handle_new_claim E tx nc d1 u a pf (accounts l) = Inr st'"
    by (auto simp: new_claim_def exec_iff)
  from validate_new_claim_Inr(1,2) [OF v] assms(3,5) have d1: "d1 = d" and c: "nc_claim_status nc = ?c"
    by simp_all
  from h have "\<exists>cs. claim_statuses st' ?c = Some cs \<and> \<not> cs_closable cs"
    by (rule handle_new_claim_Inr) (use d1 c assms(6) in simp)
  then obtain cs where cs: "claim_statuses st' ?c = Some cs" "\<not> cs_closable cs" by blast
  have "ledger_step E pid l \<lparr>now = unix_timestamp tx, accounts = st'\<rparr>"
    by (rule ledger_step.executed [of _ _ "NewClaim nc u a pf"]) (use assms(2-4) in simp_all)
  from reachable_evolves [OF reachable.next_step [OF assms(1) this] assms(7)] cs
  obtain cs' where "claim_statuses (accounts l') ?c = Some cs'"
    unfolding evolves_def by force
  then have "in_use (accounts l') ?c" by (simp add: in_use_def)
  moreover have "nc_claim_status nc' = ?c \<and> \<not> in_use (accounts l') (nc_claim_status nc')"
    if "validate_new_claim E tx' nc' (accounts l') = Inr d2" for d2
    using validate_new_claim_Inr(2,3) [OF that] assms(8-10) by simp
  ultimately show ?thesis by (auto simp: new_claim_def exec_iff)
qed

lemma no_second_claim_witness:
  "new_claim demo (demo_tx 1500) demo_new_claim 10 100 []
     (accounts (demo_ledger 1500 (demo_withdrawn demo_leaf False))) \<notin> range Inr"
proof (rule no_second_claim [OF demo_reachable_open [where c = False], of "demo_tx 1100" demo_new_claim 10 100 "[]"])
  show "new_claim demo (demo_tx 1100) demo_new_claim 10 100 []
      (accounts (demo_ledger 500 (demo_open demo_leaf False))) = Inr (demo_claimed demo_leaf False)"
    by (simp add: demo_claims)
  show "distributors (accounts (demo_ledger 500 (demo_open demo_leaf False)))
      (nc_distributor demo_new_claim) = Some (demo_distributor demo_leaf False 0 0 False)"
    by (simp add: demo_new_claim_def)
  show "\<not> md_closable (demo_distributor demo_leaf False 0 0 False)"
    by (simp add: demo_distributor_def)
  have "(ledger_step demo (fill32 0))\<^sup>*\<^sup>* (demo_ledger 1100 (demo_claimed demo_leaf False))
      (demo_ledger 1500 (demo_withdrawn demo_leaf False))"
    using demo_step_withdraw by blast
  then show "(ledger_step demo (fill32 0))\<^sup>*\<^sup>*
      \<lparr>now = unix_timestamp (demo_tx 1100), accounts = demo_claimed demo_leaf False\<rparr>
      (demo_ledger 1500 (demo_withdrawn demo_leaf False))"
    by (simp add: demo_ledger_def)
qed simp_all

section \<open>Solvency\<close>

text \<open>
  C27.  A step takes from the vault of a distributor no more than it adds to the amount claimed, unless
  the distributor is clawed back or closed: neither another distributor, nor an administrator, nor a
  stranger can take the difference.
\<close>

theorem vault_pays_only_claims:
  assumes "reachable E pid l" and "spl_transfer_sound E" and "ledger_step E pid l l'"
    and "distributors (accounts l) k = Some d" and "distributors (accounts l') k = Some d'"
    and "\<not> md_clawed_back d'"
  shows "balance (token_accounts (accounts l)) (md_token_vault d) + unat (md_total_amount_claimed d) \<le>
    balance (token_accounts (accounts l')) (md_token_vault d') + unat (md_total_amount_claimed d')"
proof -
  have "vaults_ok (accounts l)"
    using reachable_inv [OF assms(1)] assms(2) by (simp add: ledger_inv_def)
  from step_paid_and_held [OF assms(3,2) this assms(4-6)] show ?thesis
    by (simp add: paid_and_held_def add.commute)
qed

lemma vault_pays_only_claims_witness:
  "balance (demo_tokens 190 10 0) (fill32 131) + 10 \<le> balance (demo_tokens 140 60 0) (fill32 131) + 60"
  using vault_pays_only_claims [OF demo_reachable_claimed [where c = False] demo_transfer_sound demo_step_withdraw,
      of "fill32 129" "demo_distributor demo_leaf False 1 10 False"
        "demo_distributor demo_leaf False 1 60 False"]
  by (simp add: demo_distributor_def)

text \<open>
  C4.  Solvency: once the vault of a distributor that is not closable holds what its maximum total
  leaves to be claimed, it holds that in every later ledger until the clawback.
\<close>

theorem stays_solvent:
  assumes "reachable E pid l" and "spl_transfer_sound E" and "(ledger_step E pid)\<^sup>*\<^sup>* l l'"
    and "distributors (accounts l) k = Some d" and "\<not> md_closable d"
    and "unat (md_max_total_claim d) \<le>
      unat (md_total_amount_claimed d) + balance (token_accounts (accounts l)) (md_token_vault d)"
  shows "\<exists>d'. distributors (accounts l') k = Some d' \<and> (md_clawed_back d' \<or>
    unat (md_max_total_claim d') \<le>
      unat (md_total_amount_claimed d') + balance (token_accounts (accounts l')) (md_token_vault d'))"
proof -
  have "funded E k l" using assms(4-6) by (auto simp: funded_def paid_and_held_def)
  from solvent.run_cond [OF assms(3) reachable_inv [OF assms(1)] this] assms(2)
  show ?thesis by (auto simp: funded_def paid_and_held_def)
qed

lemma stays_solvent_witness:
  "\<exists>d'. distributors (accounts (demo_ledger 1500 (demo_withdrawn demo_leaf False))) (fill32 129) = Some d' \<and>
     (md_clawed_back d' \<or> unat (md_max_total_claim d') \<le> unat (md_total_amount_claimed d') +
       balance (token_accounts (accounts (demo_ledger 1500 (demo_withdrawn demo_leaf False))))
         (md_token_vault d'))"
  by (rule stays_solvent [OF demo_reachable_open [where c = False] demo_transfer_sound demo_run, of "fill32 129"
      "demo_distributor demo_leaf False 0 0 False"])
    (simp_all add: demo_distributor_def demo_tokens_def demo_token_def balance_def)

end
