(* ===== verification/Cli_Instructions.thy ===== *)
theory Cli_Instructions
  imports Effects
begin

text \<open>
  The instructions that the command line tool puts into its transactions: the compute budget, new
  token accounts, token transfers, and the instructions of the program.
\<close>

datatype client_instruction =
    SetLimit u32
  | SetPrice u64
  | CreateTokenAccount pubkey pubkey pubkey
  | TokenTransfer pubkey pubkey pubkey u64
  | Program instruction

definition price_instructions :: "u64 option \<Rightarrow> client_instruction list" where
  "price_instructions priority_fee = (case priority_fee of Some fee \<Rightarrow> [SetPrice fee] | None \<Rightarrow> [])"

text \<open>The accounts of type \<open>Signer\<close> of each accounts struct.\<close>

fun signer_accounts :: "instruction \<Rightarrow> pubkey set" where
  "signer_accounts (NewDistributor accs args) = {nd_base accs, nd_admin accs}"
| "signer_accounts (CloseDistributor accs) = {cd_admin accs}"
| "signer_accounts (CloseClaimStatus accs) = {cc_admin accs}"
| "signer_accounts (SetEnableSlot accs enable_slot) = {se_admin accs}"
| "signer_accounts (NewClaim accs amount_unlocked amount_locked proof) = {nc_claimant accs}"
| "signer_accounts (ClaimLocked accs) = {cl_claimant accs}"
| "signer_accounts (Clawback accs) = {cb_claimant accs}"
| "signer_accounts (SetClawbackReceiver accs) = {sr_admin accs}"
| "signer_accounts (SetAdmin accs) = {sa_admin accs}"
| "signer_accounts (SetClawbackStartTs accs clawback_start_ts) = {st_admin accs}"

fun required_signers :: "client_instruction \<Rightarrow> pubkey set" where
  "required_signers (SetLimit units) = {}"
| "required_signers (SetPrice fee) = {}"
| "required_signers (CreateTokenAccount payer wallet mint) = {payer}"
| "required_signers (TokenTransfer from to authority amt) = {authority}"
| "required_signers (Program ins) = signer_accounts ins"

end
