(* ===== verification/Cli_Batches.thy ===== *)
theory Cli_Batches
  imports Airdrop_Tree Cli_Instructions "HOL-Library.AList"
begin

text \<open>
  The loops of the command line tool (\<open>cli/src/bin/instructions\<close>) that cut work into batches: building
  distribution files from a CSV list, writing the key-value files of proofs, sending tokens to a
  list of addresses and closing claim statuses; and the arithmetic that turns a time into a slot.
  What the network answers is an argument of each loop.
\<close>

section \<open>\<open>process_create_merkle_tree\<close>\<close>

definition unwrap_result :: "'a merkle_result \<Rightarrow> panic + 'a" where
  "unwrap_result r = (case r of Inr x \<Rightarrow> Inr x | Inl (Panicked p) \<Rightarrow> Inl p | Inl (Returned e) \<Rightarrow> Inl UnwrapFailed)"

lemma unwrap_result_Inr_iff [exec_iff]: "unwrap_result r = Inr x \<longleftrightarrow> r = Inr x"
  by (auto simp: unwrap_result_def split: sum.splits failure.splits)

lemma unwrap_result_simps [simp]:
  "unwrap_result (Inr x) = Inr x" "unwrap_result (Inl (Panicked p)) = Inl p"
  "unwrap_result (Inl (Returned e)) = Inl UnwrapFailed"
  by (simp_all add: unwrap_result_def)

text \<open>\<open>index += 1\<close> panics on overflow, as the build enables the checks.\<close>

definition add_one :: "u64 \<Rightarrow> panic + u64" where
  "add_one i = ok_or (checked_add_u64 i 1) ArithmeticPanic"

lemma new_from_entries_Nil: "new_from_entries h from_str [] version decimals \<noteq> Inr t"
  by (simp add: new_from_entries_def airdrop_new_empty)

text \<open>
  The \<open>while\<close> loop: the files written so far, each with the index in its name, and the panic that
  ended the run, if one did.  A maximum of zero takes no entry, and the builder then refuses.
\<close>

function create_trees ::
  "hashv \<Rightarrow> (string \<Rightarrow> pubkey option) \<Rightarrow> nat \<Rightarrow> u32 \<Rightarrow> u64 \<Rightarrow> csv_entry list \<Rightarrow>
     (u64 \<times> airdrop_merkle_tree) list \<times> panic option" where
  "create_trees h from_str max_nodes_per_tree decimals index csv_entries =
     (if csv_entries = [] then ([], None)
      else let last_index = min max_nodes_per_tree (length csv_entries) in
        (case unwrap_result (new_from_entries h from_str (take last_index csv_entries) index decimals) of
           Inl p \<Rightarrow> ([], Some p)
         | Inr merkle_tree \<Rightarrow>
             (case add_one index of
                Inl p \<Rightarrow> ([(index, merkle_tree)], Some p)
              | Inr index' \<Rightarrow>
                  (let (files, r) = create_trees h from_str max_nodes_per_tree decimals index'
                         (drop last_index csv_entries)
                   in ((index, merkle_tree) # files, r)))))"
  by pat_completeness auto
termination
proof (relation "measure (\<lambda>(h, fs, m, d, i, es). length es)", goal_cases)
  case (2 h fs m d i es n t i')
  then show ?case
    using new_from_entries_Nil [of h fs i d t] by (cases m) (auto simp: unwrap_result_Inr_iff)
qed simp

declare create_trees.simps [simp del]

section \<open>\<open>process_generate_kv_proof\<close>\<close>

record kv_proof =
  kv_merkle_tree :: string
  kv_amount :: u64
  kv_proof_hashes :: "hash list"

text \<open>
  The two nested loops over all nodes of all trees, with the address of each node's distributor; a
  file is written, and the map emptied, as soon as the map is large enough.  The result is the files
  written and the panic that ended the run, if one did.
\<close>

fun kv_loop ::
  "(pubkey \<Rightarrow> string) \<Rightarrow> nat \<Rightarrow> (string \<times> tree_node) list \<Rightarrow> (string \<times> kv_proof) list \<Rightarrow>
     (string \<times> kv_proof) list list \<times> panic option" where
  "kv_loop to_string max_entries [] proofs = (if proofs = [] then [] else [proofs], None)"
| "kv_loop to_string max_entries ((distributor, node) # rest) proofs =
     (case unwrap (tn_proof node) of
        Inl e \<Rightarrow> ([], Some e)
      | Inr p \<Rightarrow>
          (let proofs' = AList.update (to_string (tn_claimant node))
                 \<lparr>kv_merkle_tree = distributor, kv_amount = tn_amount node, kv_proof_hashes = p\<rparr> proofs
           in if max_entries \<le> length proofs'
              then (let (files, r) = kv_loop to_string max_entries rest [] in (proofs' # files, r))
              else kv_loop to_string max_entries rest proofs'))"

section \<open>\<open>process_mass_send\<close> and \<open>process_resend\<close>\<close>

text \<open>The addresses not sent to yet, in batches.\<close>

fun batch_loop :: "nat \<Rightarrow> (string \<Rightarrow> bool) \<Rightarrow> string list \<Rightarrow> string list \<Rightarrow> string list list" where
  "batch_loop number_of_addresses sent [] batch = (if batch = [] then [] else [batch])"
| "batch_loop number_of_addresses sent (address # addresses) batch =
     (if sent address then batch_loop number_of_addresses sent addresses batch
      else if number_of_addresses \<le> length (batch @ [address])
      then (batch @ [address]) # batch_loop number_of_addresses sent addresses []
      else batch_loop number_of_addresses sent addresses (batch @ [address]))"

text \<open>The instructions and the qualified addresses of one transaction of \<open>send_for_batch_address\<close>.\<close>

fun batch_addresses ::
  "(string \<Rightarrow> pubkey option) \<Rightarrow> (pubkey \<Rightarrow> pubkey) \<Rightarrow> (pubkey \<Rightarrow> bool) \<Rightarrow> pubkey \<Rightarrow> pubkey \<Rightarrow> u64 \<Rightarrow>
     string list \<Rightarrow> client_instruction list \<times> string list" where
  "batch_addresses from_str ata exists payer mint amt [] = ([], [])"
| "batch_addresses from_str ata exists payer mint amt (address # addresses) =
     (let (ixs, qualified) = batch_addresses from_str ata exists payer mint amt addresses in
      case from_str address of
        Some user \<Rightarrow>
          ((if exists (ata user) then [] else [CreateTokenAccount payer user mint]) @
            [TokenTransfer (ata payer) (ata user) payer amt] @ ixs, address # qualified)
      | None \<Rightarrow> (ixs, qualified))"

definition send_for_batch_address ::
  "(string \<Rightarrow> pubkey option) \<Rightarrow> (pubkey \<Rightarrow> pubkey) \<Rightarrow> (pubkey \<Rightarrow> bool) \<Rightarrow> pubkey \<Rightarrow> pubkey \<Rightarrow> u64 option \<Rightarrow>
     u64 \<Rightarrow> string list \<Rightarrow> client_instruction list \<times> string list" where
  "send_for_batch_address from_str ata exists payer mint priority_fee amt addresses =
     (let (ixs, qualified) = batch_addresses from_str ata exists payer mint amt addresses
      in (SetLimit 1000000 # price_instructions priority_fee @ ixs,
          qualified))"

text \<open>
  The sending loop: \<open>send\<close> answers the n-th transaction with a signature or an error, and the
  addresses of a transaction that was accepted are recorded.
\<close>

fun send_loop ::
  "(nat \<Rightarrow> client_instruction list \<Rightarrow> string option) \<Rightarrow> (string list \<Rightarrow> client_instruction list \<times> string list) \<Rightarrow>
     nat \<Rightarrow> string list list \<Rightarrow> (string \<rightharpoonup> string) \<Rightarrow> (string \<rightharpoonup> string)" where
  "send_loop send mk n [] sent = sent"
| "send_loop send mk n (batch # batches) sent =
     (let (ixs, qualified) = mk batch in
      send_loop send mk (Suc n) batches
        (case send n ixs of
           Some signature \<Rightarrow> foldl (\<lambda>m a. m(a \<mapsto> signature)) sent qualified
         | None \<Rightarrow> sent))"

definition process_mass_send ::
  "(nat \<Rightarrow> client_instruction list \<Rightarrow> string option) \<Rightarrow> (string list \<Rightarrow> client_instruction list \<times> string list) \<Rightarrow>
     nat \<Rightarrow> string list \<Rightarrow> (string \<rightharpoonup> string) \<Rightarrow> (string \<rightharpoonup> string)" where
  "process_mass_send send mk max_address_per_tx addresses sent =
     send_loop send mk 0 (batch_loop max_address_per_tx (\<lambda>a. sent a \<noteq> None) addresses []) sent"

text \<open>\<open>process_resend\<close>: the addresses of one failed transaction that are sent again.\<close>

definition resend_addresses :: "nat \<Rightarrow> string list \<Rightarrow> string list" where
  "resend_addresses number_of_addresses addresses =
     (if length addresses > number_of_addresses then take number_of_addresses addresses else addresses)"

section \<open>\<open>process_close_claim_status\<close>\<close>

text \<open>
  The transactions that are sent, each a list of accounts to close: eleven are gathered, but the list
  is only emptied when the network took the transaction.
\<close>

fun close_loop :: "(nat \<Rightarrow> 'a list \<Rightarrow> bool) \<Rightarrow> nat \<Rightarrow> 'a list \<Rightarrow> 'a list \<Rightarrow> 'a list list" where
  "close_loop send n close_ixs [] = (if close_ixs = [] then [] else [close_ixs])"
| "close_loop send n close_ixs (account # rest) =
     (let ixs = close_ixs @ [account] in
      if 11 \<le> length ixs
      then ixs # close_loop send (Suc n) (if send n ixs then [] else ixs) rest
      else close_loop send n ixs rest)"

section \<open>Slots\<close>

definition DEFAULT_MS_PER_SLOT :: u64 where "DEFAULT_MS_PER_SLOT = 400"

text \<open>Plain \<open>u64\<close> arithmetic: overflow and division by zero panic.\<close>

definition add_u64 :: "u64 \<Rightarrow> u64 \<Rightarrow> panic + u64" where
  "add_u64 a b = ok_or (checked_add_u64 a b) ArithmeticPanic"

definition sub_u64 :: "u64 \<Rightarrow> u64 \<Rightarrow> panic + u64" where
  "sub_u64 a b = ok_or (checked_sub_u64 a b) ArithmeticPanic"

definition mul_u64 :: "u64 \<Rightarrow> u64 \<Rightarrow> panic + u64" where
  "mul_u64 a b = (if unat a * unat b < 2 ^ 64 then Inr (a * b) else Inl ArithmeticPanic)"

definition div_u64 :: "u64 \<Rightarrow> u64 \<Rightarrow> panic + u64" where
  "div_u64 a b = (if b = 0 then Inl ArithmeticPanic else Inr (a div b))"

text \<open>A performance sample: its period in seconds (a \<open>u16\<close>) and the number of its slots.\<close>

type_synonym u16 = "16 word"

fun sample_total :: "(u16 \<times> u64) list \<Rightarrow> u64 \<Rightarrow> panic + u64" where
  "sample_total [] total_time = Inr total_time"
| "sample_total ((sample_period_secs, num_slots) # samples) total_time =
     and_then (mul_u64 (ucast sample_period_secs) 1000) (\<lambda>ms.
     and_then (div_u64 ms num_slots) (\<lambda>q.
     and_then (add_u64 total_time q) (sample_total samples)))"

definition get_average_slot_time :: "(u16 \<times> u64) list \<Rightarrow> panic + u64" where
  "get_average_slot_time samples =
     (if samples = [] then Inr DEFAULT_MS_PER_SLOT
      else and_then (sample_total samples 0) (\<lambda>t.
        and_then (div_u64 t (of_nat (length samples))) (\<lambda>average_time.
        if DEFAULT_MS_PER_SLOT div 2 \<le> average_time \<and> average_time \<le> DEFAULT_MS_PER_SLOT * 2
        then Inr average_time else Inr DEFAULT_MS_PER_SLOT)))"

definition slot_at :: "u64 \<Rightarrow> u64 \<Rightarrow> u64 \<Rightarrow> u64 \<Rightarrow> panic + u64" where
  "slot_at enable_time current_time current_slot average_slot_time =
     (if current_time < enable_time
      then and_then (sub_u64 enable_time current_time) (\<lambda>dt.
        and_then (mul_u64 dt 1000) (\<lambda>ms.
        and_then (div_u64 ms average_slot_time) (\<lambda>slots. add_u64 current_slot slots)))
      else and_then (sub_u64 current_time enable_time) (\<lambda>dt.
        and_then (mul_u64 dt 1000) (\<lambda>ms.
        and_then (div_u64 ms average_slot_time) (\<lambda>slots. sub_u64 current_slot slots))))"

section \<open>Properties of the loops\<close>

lemma batch_loop_concat:
  "concat (batch_loop n sent xs batch) = batch @ filter (\<lambda>a. \<not> sent a) xs"
  by (induction n sent xs batch rule: batch_loop.induct) auto

lemma batch_loop_sizes:
  assumes "length batch < max 1 n"
  shows "(\<forall>b\<in>set (batch_loop n sent xs batch). 1 \<le> length b \<and> length b \<le> max 1 n) \<and>
    (\<forall>b\<in>set (butlast (batch_loop n sent xs batch)). length b = max 1 n)"
  using assms
proof (induction n sent xs batch rule: batch_loop.induct)
  case (1 n sent batch)
  then show ?case by (cases batch) simp_all
next
  case (2 n sent a xs batch)
  consider "sent a" | "\<not> sent a" "n \<le> length (batch @ [a])" | "\<not> sent a" "\<not> n \<le> length (batch @ [a])"
    by blast
  then show ?case
  proof cases
    case 1
    from "2.IH"(1) [OF 1 "2.prems"] 1 show ?thesis by (simp only: batch_loop.simps if_True)
  next
    case flush: 2
    then have "length (batch @ [a]) = max 1 n" using "2.prems" by (simp add: max_def split: if_splits)
    moreover have "(\<forall>b\<in>set (batch_loop n sent xs []). 1 \<le> length b \<and> length b \<le> max 1 n) \<and>
        (\<forall>b\<in>set (butlast (batch_loop n sent xs [])). length b = max 1 n)"
      by (rule "2.IH"(2) [OF flush]) simp
    moreover have "batch_loop n sent (a # xs) batch = (batch @ [a]) # batch_loop n sent xs []"
      using flush by (simp only: batch_loop.simps if_True if_False)
    ultimately show ?thesis by auto
  next
    case 3
    then have "length (batch @ [a]) < max 1 n" by (simp add: max_def)
    from "2.IH"(3) [OF 3 this] 3 show ?thesis by (simp only: batch_loop.simps if_False)
  qed
qed

lemma kv_loop_files:
  assumes "length proofs < max 1 n"
  shows "\<forall>f\<in>set (fst (kv_loop to_string n ns proofs)). f \<noteq> [] \<and> length f \<le> max 1 n"
  using assms
proof (induction to_string n ns proofs rule: kv_loop.induct)
  case (2 to_string n distributor node rest proofs)
  show ?case
  proof (cases "tn_proof node")
    case (Some p)
    let ?ps = "AList.update (to_string (tn_claimant node))
      \<lparr>kv_merkle_tree = distributor, kv_amount = tn_amount node, kv_proof_hashes = p\<rparr> proofs"
    have "length ?ps \<le> Suc (length proofs)"
      by (induction proofs) auto
    moreover have "?ps \<noteq> []"
      by (cases proofs) auto
    ultimately show ?thesis
      using 2 Some by (auto simp: Let_def split: prod.splits)
  qed simp
qed auto

end
