(* ===== verification/Api_Server.thy ===== *)
theory Api_Server
  imports Airdrop_Tree Program_State "HOL-Library.Char_ord"
begin

text \<open>
  The HTTP service of \<open>api/src\<close>: the distribution files it loads at start (\<open>main.rs\<close>), the proofs it
  serves (\<open>router.rs\<close>) and the status codes of its errors (\<open>error.rs\<close>); and the readers of
  distribution files of \<open>airdrop_merkle_tree.rs\<close> that it uses.  The file system, \<open>serde\<close>, \<open>bincode\<close>
  and the textual form of public keys are the fields of the record \<open>host\<close>.
\<close>

section \<open>Reading distribution files\<close>

record host =
  open_file :: "string \<Rightarrow> merkle_tree_error + u8 list"
  from_json :: "u8 list \<Rightarrow> merkle_tree_error + airdrop_merkle_tree"
  from_bincode :: "u8 list \<Rightarrow> airdrop_merkle_tree option"
  pubkey_from_str :: "string \<Rightarrow> pubkey option"
  pubkey_to_string :: "pubkey \<Rightarrow> string"

definition new_from_file :: "host \<Rightarrow> string \<Rightarrow> airdrop_merkle_tree merkle_result" where
  "new_from_file H path =
     and_then (or_return (open_file H path)) (\<lambda>bytes. or_return (from_json H bytes))"

definition new_from_blob :: "host \<Rightarrow> string \<Rightarrow> airdrop_merkle_tree merkle_result" where
  "new_from_blob H path =
     and_then (or_return (open_file H path)) (\<lambda>bytes. or_panic (unwrap (from_bincode H bytes)))"

text \<open>\<open>Path::extension\<close>: what follows the last dot of a file name that does not start with it.\<close>

definition path_extension :: "string \<Rightarrow> string option" where
  "path_extension name =
     (let r = takeWhile (\<lambda>c. c \<noteq> CHR ''.'') (rev name)
      in if length r + 1 < length name then Some (rev r) else None)"

section \<open>Loading\<close>

record single_distributor =
  distributor_pubkey :: string
  sd_airdrop_version :: u64
  sd_max_num_nodes :: u64
  sd_max_total_claim :: u64

record server_state =
  sv_max_num_nodes :: u64
  sv_max_total_claim :: u64
  sv_trees :: "single_distributor list"
  sv_tree :: "pubkey \<rightharpoonup> pubkey \<times> tree_node"

definition empty_server :: server_state where
  "empty_server = \<lparr>sv_max_num_nodes = 0, sv_max_total_claim = 0, sv_trees = [], sv_tree = Map.empty\<rparr>"

text \<open>The \<open>match\<close> on the extension: \<open>None\<close> stands for \<open>continue\<close>.\<close>

definition load_single :: "host \<Rightarrow> string \<Rightarrow> airdrop_merkle_tree option merkle_result" where
  "load_single H path =
     (case path_extension path of
        Some ext \<Rightarrow>
          if ext = ''bin'' then and_then (new_from_blob H path) (\<lambda>t. Inr (Some t))
          else if ext = ''json'' then and_then (new_from_file H path) (\<lambda>t. Inr (Some t))
          else Inr None
      | None \<Rightarrow> Inr None)"

text \<open>The rest of the loop body, for the tree of one file and the address of its distributor.\<close>

definition add_tree ::
  "host \<Rightarrow> (u64 \<Rightarrow> pubkey) \<Rightarrow> airdrop_merkle_tree \<Rightarrow> server_state \<Rightarrow> panic + server_state" where
  "add_tree H pda t st =
     (let k = pda (airdrop_version t) in
      and_then (unwrap (checked_add_u64 (sv_max_total_claim st) (at_max_total_claim t))) (\<lambda>c.
      and_then (unwrap (checked_add_u64 (sv_max_num_nodes st) (at_max_num_nodes t))) (\<lambda>n.
      Inr \<lparr>sv_max_num_nodes = n, sv_max_total_claim = c,
           sv_trees = sv_trees st @
             [\<lparr>distributor_pubkey = pubkey_to_string H k, sd_airdrop_version = airdrop_version t,
               sd_max_num_nodes = at_max_num_nodes t, sd_max_total_claim = at_max_total_claim t\<rparr>],
           sv_tree = foldl (\<lambda>m n. m(tn_claimant n \<mapsto> (k, n))) (sv_tree st) (tree_nodes t)\<rparr>)))"

fun load_files ::
  "host \<Rightarrow> (u64 \<Rightarrow> pubkey) \<Rightarrow> string list \<Rightarrow> server_state \<Rightarrow> server_state merkle_result" where
  "load_files H pda [] st = Inr st"
| "load_files H pda (path # paths) st =
     and_then (load_single H path) (\<lambda>r.
     case r of
       None \<Rightarrow> load_files H pda paths st
     | Some t \<Rightarrow> and_then (or_panic (add_tree H pda t st)) (load_files H pda paths))"

text \<open>
  The state that \<open>main\<close> hands to the router, from the directory's entries.  The order that
  \<open>sort_unstable_by\<close> leaves among distributors of one version is not specified; nothing here depends
  on it.
\<close>

definition start_server ::
  "host \<Rightarrow> solana \<Rightarrow> pubkey \<Rightarrow> pubkey \<Rightarrow> pubkey \<Rightarrow> string list \<Rightarrow> server_state merkle_result" where
  "start_server H E program base mint paths =
     and_then (load_files H (\<lambda>v. fst (get_merkle_distributor_pda E program base mint v))
         (sort paths) empty_server) (\<lambda>st.
     Inr (st\<lparr>sv_trees := sort_key sd_airdrop_version (sv_trees st)\<rparr>))"

section \<open>Requests\<close>

datatype api_error =
    MerkleTreeError merkle_tree_error
  | UserNotFound string
  | RpcError
  | ProofNotFound string
  | ParsePubkeyError
  | VestingError string
  | MerkleDistributorError string
  | InternalError

record user_proof =
  up_merkle_tree :: string
  up_amount :: u64
  up_proof :: "hash list"

definition get_user_info :: "host \<Rightarrow> server_state \<Rightarrow> string \<Rightarrow> api_error + user_proof" where
  "get_user_info H st user_pubkey =
     and_then (ok_or (pubkey_from_str H user_pubkey) ParsePubkeyError) (\<lambda>k.
     and_then (ok_or (sv_tree st k) (UserNotFound (pubkey_to_string H k))) (\<lambda>node.
     and_then (ok_or (tn_proof (snd node)) (ProofNotFound (pubkey_to_string H k))) (\<lambda>p.
     Inr \<lparr>up_merkle_tree = pubkey_to_string H (fst node), up_amount = amount (snd node),
          up_proof = p\<rparr>)))"

text \<open>\<open>into_response\<close>: the status code and the message.\<close>

fun error_response :: "api_error \<Rightarrow> nat \<times> string" where
  "error_response (MerkleTreeError e) = (500, ''Internal Server Error'')"
| "error_response (UserNotFound s) = (404, ''User not found'')"
| "error_response (ProofNotFound u) = (500, ''Proof not found'')"
| "error_response ParsePubkeyError = (500, ''Pubkey parse error'')"
| "error_response RpcError = (500, ''Rpc error'')"
| "error_response (VestingError e) = (500, ''Vesting error'')"
| "error_response (MerkleDistributorError e) = (500, ''Internal Server Error'')"
| "error_response InternalError = (500, ''Internal Server Error'')"

definition status_code :: "api_error + 'a \<Rightarrow> nat" where
  "status_code r = (case r of Inl e \<Rightarrow> fst (error_response e) | Inr _ \<Rightarrow> 200)"

text \<open>\<open>handle_error\<close>: the errors of the middleware.\<close>

datatype middleware_error = Elapsed | Overloaded | OtherMiddlewareError

fun handle_error :: "middleware_error \<Rightarrow> nat \<times> nat \<times> string" where
  "handle_error Elapsed = (408, 408, ''Request Timeout'')"
| "handle_error Overloaded = (503, 503, ''Service Unavailable'')"
| "handle_error OtherMiddlewareError = (500, 500, ''Internal Server Error'')"

section \<open>What is served\<close>

text \<open>The trees that are loaded, in order.\<close>

fun loaded_trees :: "host \<Rightarrow> string list \<Rightarrow> airdrop_merkle_tree list merkle_result" where
  "loaded_trees H [] = Inr []"
| "loaded_trees H (path # paths) =
     and_then (load_single H path) (\<lambda>r. and_then (loaded_trees H paths) (\<lambda>ts.
     Inr (case r of None \<Rightarrow> ts | Some t \<Rightarrow> t # ts)))"

text \<open>The node served for a key: that of the last tree that has one.\<close>

fun served :: "(u64 \<Rightarrow> pubkey) \<Rightarrow> airdrop_merkle_tree list \<Rightarrow> pubkey \<rightharpoonup> pubkey \<times> tree_node" where
  "served pda [] k = None"
| "served pda (t # ts) k =
     (case served pda ts k of
        Some r \<Rightarrow> Some r
      | None \<Rightarrow> map_option (Pair (pda (airdrop_version t))) (convert_to_hashmap t k))"

lemma foldl_insert_pair:
  "foldl (\<lambda>m n. m(tn_claimant n \<mapsto> (k, n))) m ns =
     m ++ (\<lambda>x. map_option (Pair k) (foldl (\<lambda>m n. m(tn_claimant n \<mapsto> n)) Map.empty ns x))"
proof (induction ns rule: rev_induct)
  case (snoc n ns)
  then show ?case by (auto simp: map_add_def fun_eq_iff split: option.splits)
qed (simp add: map_add_def fun_eq_iff)

lemma add_tree_Inr:
  assumes "add_tree H pda t st = Inr st'"
  shows "unat (sv_max_total_claim st') = unat (sv_max_total_claim st) + unat (at_max_total_claim t)"
    and "unat (sv_max_num_nodes st') = unat (sv_max_num_nodes st) + unat (at_max_num_nodes t)"
    and "sv_tree st' = sv_tree st ++
      (\<lambda>k. map_option (Pair (pda (airdrop_version t))) (convert_to_hashmap t k))"
  using assms unfolding add_tree_def Let_def convert_to_hashmap_def foldl_insert_pair
  by (auto simp: exec_iff)

lemma load_files_Inr:
  assumes "load_files H pda paths st = Inr st'"
  shows "\<exists>ts. loaded_trees H paths = Inr ts \<and>
    unat (sv_max_total_claim st') =
      unat (sv_max_total_claim st) + sum_list (map (\<lambda>t. unat (at_max_total_claim t)) ts) \<and>
    unat (sv_max_num_nodes st') =
      unat (sv_max_num_nodes st) + sum_list (map (\<lambda>t. unat (at_max_num_nodes t)) ts) \<and>
    sv_tree st' = sv_tree st ++ served pda ts"
  using assms
proof (induction paths arbitrary: st)
  case Nil
  then show ?case by (simp add: map_add_def fun_eq_iff)
next
  case (Cons path paths)
  then obtain r where r: "load_single H path = Inr r" by (auto simp: exec_iff)
  show ?case
  proof (cases r)
    case None
    with Cons.prems r have "load_files H pda paths st = Inr st'" by simp
    from Cons.IH [OF this] r None show ?thesis by auto
  next
    case (Some t)
    with Cons.prems r obtain st1 where st1: "add_tree H pda t st = Inr st1"
      and rest: "load_files H pda paths st1 = Inr st'"
      by (auto simp: exec_iff)
    from Cons.IH [OF rest] obtain ts where ts: "loaded_trees H paths = Inr ts"
      "unat (sv_max_total_claim st') =
        unat (sv_max_total_claim st1) + sum_list (map (\<lambda>t. unat (at_max_total_claim t)) ts)"
      "unat (sv_max_num_nodes st') =
        unat (sv_max_num_nodes st1) + sum_list (map (\<lambda>t. unat (at_max_num_nodes t)) ts)"
      "sv_tree st' = sv_tree st1 ++ served pda ts"
      by blast
    have "sv_tree st' = sv_tree st ++ served pda (t # ts)"
      unfolding ts(4) add_tree_Inr(3) [OF st1]
      by (rule ext) (auto simp: map_add_def fun_eq_iff split: option.splits)
    with r Some ts(1-3) add_tree_Inr(1,2) [OF st1] show ?thesis
      by (intro exI [of _ "t # ts"]) (simp del: served.simps)
  qed
qed

lemma served_member:
  assumes "served pda ts k = Some (d, n)"
  shows "\<exists>t\<in>set ts. d = pda (airdrop_version t) \<and> convert_to_hashmap t k = Some n"
  using assms by (induction ts) (auto split: option.splits)

lemma convert_to_hashmap_node:
  assumes "convert_to_hashmap t k = Some n"
  shows "n \<in> set (tree_nodes t) \<and> tn_claimant n = k"
proof -
  have "m k = Some n \<or> n \<in> set ns \<and> tn_claimant n = k"
    if "foldl (\<lambda>m n. m(tn_claimant n \<mapsto> n)) m ns k = Some n" for m ns
    using that
  proof (induction ns arbitrary: m)
    case (Cons a ns)
    from Cons.IH [of "m(tn_claimant a \<mapsto> a)"] Cons.prems show ?case
      by (auto split: if_splits)
  qed simp
  from this [of Map.empty] assms show ?thesis by (simp add: convert_to_hashmap_def)
qed

end
