(* ===== verification/Cli_Claims.thy ===== *)
theory Cli_Claims
  imports Api_Server Cli_Instructions
begin

text \<open>
  The transactions of the command line tool that claim for a user, as lists of instructions:
  \<open>process_new_claim.rs\<close> from a distribution file, \<open>process_claim.rs\<close> for the locked part, and
  \<open>process_claim_from_api.rs\<close> from the answer of the API; and the checks that \<open>process_verify.rs\<close> and
  \<open>cli.rs\<close> make of a distributor on the chain.
\<close>

section \<open>Claiming\<close>

text \<open>The accounts of \<open>NewClaim\<close> and \<open>ClaimLocked\<close> that the tool fills in.\<close>

definition client_new_claim ::
  "solana \<Rightarrow> pubkey \<Rightarrow> pubkey \<Rightarrow> pubkey \<Rightarrow> pubkey \<Rightarrow> new_claim_accounts" where
  "client_new_claim E program mint distributor claimant =
     \<lparr>nc_distributor = distributor,
      nc_claim_status = fst (get_claim_status_pda E program claimant distributor),
      nc_from = get_associated_token_address E distributor mint,
      nc_to = get_associated_token_address E claimant mint, nc_claimant = claimant\<rparr>"

text \<open>The answers of the node about the claimant's token account: there, not found, or an error.\<close>

datatype account_answer = AccountFound | AccountNotFound | AccountError

definition process_new_claim ::
  "solana \<Rightarrow> pubkey \<Rightarrow> pubkey \<Rightarrow> pubkey \<Rightarrow> u64 option \<Rightarrow> (pubkey \<Rightarrow> account_answer) \<Rightarrow> pubkey \<Rightarrow>
     airdrop_merkle_tree \<Rightarrow> panic + client_instruction list" where
  "process_new_claim E program base mint priority_fee get_account claimant tree =
     (let distributor = fst (get_merkle_distributor_pda E program base mint (airdrop_version tree)) in
      and_then (get_node tree claimant) (\<lambda>node.
      let claimant_ata = get_associated_token_address E claimant mint in
      and_then (case get_account claimant_ata of
          AccountFound \<Rightarrow> Inr []
        | AccountNotFound \<Rightarrow> Inr [CreateTokenAccount claimant claimant mint]
        | AccountError \<Rightarrow> Inl ExplicitPanic) (\<lambda>create.
      and_then (unwrap (tn_proof node)) (\<lambda>p.
      Inr (price_instructions priority_fee @ create @
        [Program (NewClaim (client_new_claim E program mint distributor claimant) (amount node) 0 p)])))))"

definition process_claim ::
  "solana \<Rightarrow> pubkey \<Rightarrow> pubkey \<Rightarrow> pubkey \<Rightarrow> u64 option \<Rightarrow> (pubkey \<Rightarrow> account_answer) \<Rightarrow> pubkey \<Rightarrow>
     airdrop_merkle_tree \<Rightarrow> panic + client_instruction list list" where
  "process_claim E program base mint priority_fee get_account claimant tree =
     (let distributor = fst (get_merkle_distributor_pda E program base mint (airdrop_version tree));
          claim_status_pda = fst (get_claim_status_pda E program claimant distributor) in
      and_then (case get_account claim_status_pda of
          AccountFound \<Rightarrow> Inr []
        | AccountNotFound \<Rightarrow> and_then
            (process_new_claim E program base mint priority_fee get_account claimant tree) (\<lambda>ixs. Inr [ixs])
        | AccountError \<Rightarrow> Inl ExplicitPanic) (\<lambda>first.
      Inr (first @ [price_instructions priority_fee @
        [Program (ClaimLocked \<lparr>cl_distributor = distributor, cl_claim_status = claim_status_pda,
           cl_from = get_associated_token_address E distributor mint,
           cl_to = get_associated_token_address E claimant mint, cl_claimant = claimant\<rparr>)]])))"

definition process_claim_from_api ::
  "host \<Rightarrow> solana \<Rightarrow> pubkey \<Rightarrow> pubkey \<Rightarrow> u64 option \<Rightarrow> (pubkey \<Rightarrow> bool) \<Rightarrow> pubkey \<Rightarrow> pubkey \<Rightarrow>
     user_proof \<Rightarrow> panic + client_instruction list" where
  "process_claim_from_api H E program mint priority_fee exists claimant destination_owner proof =
     and_then (unwrap (pubkey_from_str H (up_merkle_tree proof))) (\<lambda>distributor.
     let claimant_ata = get_associated_token_address E claimant mint;
         create = (\<lambda>a. if exists a then [] else [CreateTokenAccount claimant a mint]) in
     Inr (price_instructions priority_fee @ create claimant_ata @
       [Program (NewClaim (client_new_claim E program mint distributor claimant) (up_amount proof) 0
          (up_proof proof))] @
       (if destination_owner \<noteq> claimant then
          (let destination_ata = get_associated_token_address E claimant mint in
           create destination_ata @
             [TokenTransfer claimant_ata destination_ata claimant (up_amount proof)])
        else [])))"

section \<open>Checks of a distributor on the chain\<close>

record verify_args =
  va_skip_verify_amount :: bool
  va_airdrop_version :: "u64 option"
  va_clawback_start_ts :: i64
  va_closable :: bool
  va_admin :: pubkey
  va_enable_slot :: u64
  va_clawback_receiver_owner :: pubkey

text \<open>The body of the loop of \<open>process_verify\<close>: \<open>None\<close> is \<open>continue\<close>, a failed assertion panics.\<close>

definition verify_distributor ::
  "solana \<Rightarrow> pubkey \<Rightarrow> pubkey \<Rightarrow> pubkey \<Rightarrow> verify_args \<Rightarrow> chain \<Rightarrow> airdrop_merkle_tree \<Rightarrow> panic + unit" where
  "verify_distributor E program base mint va st t =
     (if (case va_airdrop_version va of Some v \<Rightarrow> airdrop_version t \<noteq> v | None \<Rightarrow> False) then Inr ()
      else
        (let k = fst (get_merkle_distributor_pda E program base mint (airdrop_version t)) in
         and_then (if va_skip_verify_amount va then Inr ()
           else and_then (unwrap (token_accounts st (get_associated_token_address E k mint))) (\<lambda>vault.
             require (ta_amount vault = at_max_total_claim t) AssertionFailed)) (\<lambda>_.
         and_then (unwrap (distributors st k)) (\<lambda>d.
         and_then (require (md_root d = merkle_root t) AssertionFailed) (\<lambda>_.
         and_then (require (md_clawback_start_ts d = va_clawback_start_ts va) AssertionFailed) (\<lambda>_.
         and_then (require (md_closable d = va_closable va) AssertionFailed) (\<lambda>_.
         and_then (require (md_admin d = va_admin va) AssertionFailed) (\<lambda>_.
         and_then (require (md_enable_slot d = va_enable_slot va) AssertionFailed) (\<lambda>_.
         require (md_clawback_receiver d =
           get_associated_token_address E (va_clawback_receiver_owner va) mint) AssertionFailed)))))))))"

fun process_verify ::
  "solana \<Rightarrow> pubkey \<Rightarrow> pubkey \<Rightarrow> pubkey \<Rightarrow> verify_args \<Rightarrow> chain \<Rightarrow> airdrop_merkle_tree list \<Rightarrow> panic + unit" where
  "process_verify E program base mint va st [] = Inr ()"
| "process_verify E program base mint va st (t # ts) =
     and_then (verify_distributor E program base mint va st t)
       (\<lambda>_. process_verify E program base mint va st ts)"

section \<open>Creating a distributor and checking it\<close>

record distributor_options =
  do_start_vesting_ts :: i64
  do_end_vesting_ts :: i64
  do_clawback_start_ts :: i64
  do_enable_slot :: u64
  do_closable :: bool
  do_clawback_receiver_owner :: pubkey

text \<open>The instruction that \<open>create_new_distributor\<close> sends for a distribution file.\<close>

definition create_distributor_instruction ::
  "solana \<Rightarrow> pubkey \<Rightarrow> pubkey \<Rightarrow> pubkey \<Rightarrow> pubkey \<Rightarrow> distributor_options \<Rightarrow> airdrop_merkle_tree \<Rightarrow>
     instruction" where
  "create_distributor_instruction E program base mint admin opts t =
     (let k = fst (get_merkle_distributor_pda E program base mint (airdrop_version t)) in
      NewDistributor
        \<lparr>nd_distributor = k, nd_base = base,
         nd_clawback_receiver = get_associated_token_address E (do_clawback_receiver_owner opts) mint,
         nd_mint = mint, nd_token_vault = get_associated_token_address E k mint, nd_admin = admin\<rparr>
        \<lparr>na_version = airdrop_version t, na_root = merkle_root t,
         na_max_total_claim = at_max_total_claim t, na_max_num_nodes = at_max_num_nodes t,
         na_start_vesting_ts = do_start_vesting_ts opts, na_end_vesting_ts = do_end_vesting_ts opts,
         na_clawback_start_ts = do_clawback_start_ts opts, na_enable_slot = do_enable_slot opts,
         na_closable = do_closable opts\<rparr>)"

text \<open>
  \<open>check_distributor_onchain_matches\<close>; the first argument is the account as \<open>try_deserialize\<close> reads it.
  An account that cannot be read passes.
\<close>

definition check_distributor_onchain_matches ::
  "solana \<Rightarrow> merkle_distributor option \<Rightarrow> airdrop_merkle_tree \<Rightarrow> distributor_options \<Rightarrow> pubkey \<Rightarrow> pubkey \<Rightarrow>
     pubkey \<Rightarrow> string + unit" where
  "check_distributor_onchain_matches E account t opts admin base mint =
     (case account of
        Some d \<Rightarrow>
          and_then (require (md_root d = merkle_root t) ''root mismatch'') (\<lambda>_.
          and_then (require (md_base d = base) ''base mismatch'') (\<lambda>_.
          and_then (require (md_max_total_claim d = at_max_total_claim t) ''max_total_claim mismatch'') (\<lambda>_.
          and_then (require (md_max_num_nodes d = at_max_num_nodes t) ''max_num_nodes mismatch'') (\<lambda>_.
          and_then (require (md_start_ts d = do_start_vesting_ts opts) ''start_ts mismatch'') (\<lambda>_.
          and_then (require (md_end_ts d = do_end_vesting_ts opts) ''end_ts mismatch'') (\<lambda>_.
          and_then (require (md_clawback_start_ts d = do_clawback_start_ts opts)
            ''clawback_start_ts mismatch'') (\<lambda>_.
          and_then (require (md_enable_slot d = do_enable_slot opts) ''enable_slot mismatch'') (\<lambda>_.
          and_then (require (md_closable d = do_closable opts) ''closable mismatch'') (\<lambda>_.
          and_then (require (get_associated_token_address E (do_clawback_receiver_owner opts) mint =
              md_clawback_receiver d) ''clawback_receiver mismatch'') (\<lambda>_.
          require (md_admin d = admin) ''admin mismatch''))))))))))
      | None \<Rightarrow> Inr ())"

end
