(* ===== verification/Cli_Properties.thy ===== *)
theory Cli_Properties
  imports Cli_Batches Cli_Claims Runtime_Instance
begin

text \<open>
  The properties of the command line tool: its batches lose nothing and keep their size, the slot
  arithmetic is the formula rounded down, and the check of a distributor accepts what the tool
  itself created.
\<close>

section \<open>Distribution files\<close>

lemma create_trees_step:
  assumes "create_trees h from_str m d i es = (files, None)" and "es \<noteq> []"
  obtains t i' rest where "new_from_entries h from_str (take (min m (length es)) es) i d = Inr t"
    and "unat i' = unat i + 1" and "create_trees h from_str m d i' (drop (min m (length es)) es) = (rest, None)"
    and "files = (i, t) # rest"
proof -
  from assms obtain t where t: "new_from_entries h from_str (take (min m (length es)) es) i d = Inr t"
    by (subst (asm) create_trees.simps)
      (auto simp: Let_def unwrap_result_Inr_iff split: sum.splits)
  moreover from assms t obtain i' where i': "add_one i = Inr i'"
    by (subst (asm) create_trees.simps) (auto simp: Let_def unwrap_result_def split: sum.splits)
  moreover from assms t i' obtain rest where
    "create_trees h from_str m d i' (drop (min m (length es)) es) = (rest, None)" "files = (i, t) # rest"
    by (subst (asm) create_trees.simps) (auto simp: Let_def unwrap_result_def split: prod.splits)
  ultimately show thesis
    by (intro that) (auto simp: add_one_def exec_iff)
qed

text \<open>A piece of the list and the numbered file that was made of it.\<close>

definition piece_ok ::
  "hashv \<Rightarrow> (string \<Rightarrow> pubkey option) \<Rightarrow> nat \<Rightarrow> u32 \<Rightarrow> nat \<Rightarrow> csv_entry list \<Rightarrow> u64 \<times> airdrop_merkle_tree \<Rightarrow> bool \<Rightarrow> bool" where
  "piece_ok h from_str m d index piece file last_one \<longleftrightarrow> unat (fst file) = index \<and>
     new_from_entries h from_str piece (fst file) d = Inr (snd file) \<and>
     1 \<le> length piece \<and> length piece \<le> m \<and> (last_one \<or> length piece = m)"

lemma pieces_ok_Cons:
  assumes "piece_ok h from_str m d i p f (fs = [])"
    and "\<forall>j<length fs. piece_ok h from_str m d (Suc i + j) (ps ! j) (fs ! j) (Suc j = length fs)"
  shows "\<forall>j<length (f # fs). piece_ok h from_str m d (i + j) ((p # ps) ! j) ((f # fs) ! j)
    (Suc j = length (f # fs))"
  using assms by (simp add: All_less_Suc2)

lemma create_trees_pieces:
  assumes "create_trees h from_str m d i es = (files, None)"
  shows "\<exists>pieces. concat pieces = es \<and> length pieces = length files \<and>
    (\<forall>j<length files. piece_ok h from_str m d (unat i + j) (pieces ! j) (files ! j) (Suc j = length files))"
  using assms
proof (induction "length es" arbitrary: es i files rule: less_induct)
  case less
  show ?case
  proof (cases "es = []")
    case True
    with less.prems show ?thesis by (auto simp: create_trees.simps [of _ _ _ _ _ "[]"])
  next
    case False
    let ?n = "min m (length es)"
    from create_trees_step [OF less.prems False] obtain t i' rest where
      t: "new_from_entries h from_str (take ?n es) i d = Inr t" and i': "unat i' = unat i + 1"
      and rest: "create_trees h from_str m d i' (drop ?n es) = (rest, None)"
      and files: "files = (i, t) # rest" .
    from t new_from_entries_Nil [of h from_str i d t] have m: "0 < m" by (cases m) auto
    with False have "length (drop ?n es) < length es" by simp
    from less.hyps [OF this rest] obtain pieces where p: "concat pieces = drop ?n es"
      "length pieces = length rest" "\<forall>j<length rest. piece_ok h from_str m d (Suc (unat i) + j)
        (pieces ! j) (rest ! j) (Suc j = length rest)"
      unfolding i' by auto
    have "rest = []" if "length es \<le> m"
      using rest that by (auto simp: create_trees.simps [of _ _ _ _ _ "[]"])
    then have "piece_ok h from_str m d (unat i) (take ?n es) (i, t) (rest = [])"
      using t m False by (auto simp: piece_ok_def Suc_le_eq)
    from pieces_ok_Cons [OF this p(3)] p(1,2) show ?thesis
      unfolding files by (intro exI [of _ "take ?n es # pieces"]) simp
  qed
qed

text \<open>
  When \<open>process_create_merkle_tree\<close> completes, the list is cut into consecutive pieces, each as
  long as the maximum except perhaps the last, and the file of each piece is the tree of the piece,
  with consecutive versions from the first index on.
\<close>

theorem files_cover_entries:
  assumes "create_trees h from_str m d i es = (files, None)"
  shows "\<exists>pieces. concat pieces = es \<and> length pieces = length files \<and>
    (\<forall>j<length files. unat (fst (files ! j)) = unat i + j \<and>
      new_from_entries h from_str (pieces ! j) (fst (files ! j)) d = Inr (snd (files ! j)) \<and>
      1 \<le> length (pieces ! j) \<and> length (pieces ! j) \<le> m \<and>
      (Suc j = length files \<or> length (pieces ! j) = m))"
  using create_trees_pieces [OF assms] unfolding piece_ok_def by blast

definition demo_from_str :: "string \<Rightarrow> pubkey option" where
  "demo_from_str s = (if s = ''a'' then Some (fill32 5) else if s = ''b'' then Some (fill32 6) else None)"

definition demo_entries :: "csv_entry list" where
  "demo_entries = [\<lparr>ce_pubkey = ''a'', ce_amount = F64 False 10 0\<rparr>,
     \<lparr>ce_pubkey = ''b'', ce_amount = F64 False 20 0\<rparr>, \<lparr>ce_pubkey = ''a'', ce_amount = F64 False 5 0\<rparr>]"

lemma demo_entries_file: "new_from_entries demo_hash demo_from_str demo_entries 0 0 = Inr demo_file"
proof -
  have amt: "ui_amount_to_token_amount (F64 False 10 0) 0 = Inr 10"
    "ui_amount_to_token_amount (F64 False 20 0) 0 = Inr 20"
    "ui_amount_to_token_amount (F64 False 5 0) 0 = Inr 5"
    by (simp_all add: ui_amount_exact)
  have "traverse (\<lambda>x. tree_node_from_csv demo_from_str x 0) demo_entries = Inr demo_nodes"
    by (simp add: demo_entries_def demo_from_str_def tree_node_from_csv_def demo_nodes_def demo_node_def amt)
  then show ?thesis
    by (simp add: new_from_entries_def demo_file_new)
qed

lemma demo_create_trees:
  "create_trees demo_hash demo_from_str 3 0 0 demo_entries = ([(0, demo_file)], None)"
proof -
  have len: "length demo_entries = 3" and ne: "demo_entries \<noteq> []"
    by (simp_all add: demo_entries_def)
  have "take 3 demo_entries = demo_entries" and "drop 3 demo_entries = []"
    using len by simp_all
  with len ne demo_entries_file show ?thesis
    by (simp add: create_trees.simps [of _ _ _ _ _ demo_entries] create_trees.simps [of _ _ _ _ _ "[]"]
        unwrap_result_def add_one_def checked_add_u64_def)
qed

lemma files_cover_entries_witness:
  "\<exists>pieces. concat pieces = demo_entries \<and> length pieces = 1 \<and>
     new_from_entries demo_hash demo_from_str (pieces ! 0) 0 0 = Inr demo_file"
  using files_cover_entries [OF demo_create_trees] by auto

text \<open>
  With a maximum of zero nodes the tool does not loop: it panics at once, before any file is
  written.
\<close>

theorem zero_nodes_per_tree_panics:
  "create_trees h from_str 0 d i (e # es) = ([], Some UnwrapFailed)"
  by (simp add: create_trees.simps [of _ _ _ _ _ "_ # _"] new_from_entries_def airdrop_new_empty
      unwrap_result_def)

text \<open>
  The key-value files that are written are not empty and hold at most the maximum number of entries,
  whatever trees they come from.
\<close>

theorem kv_files_bounded:
  assumes "f \<in> set (fst (kv_loop to_string n ns []))"
  shows "f \<noteq> [] \<and> length f \<le> max 1 n"
  using kv_loop_files [of "[]" n to_string ns] assms by auto

lemma kv_files_bounded_witness:
  "length (fst (kv_loop (\<lambda>k. ''k'') 1 [(''d'', demo_node 5 15 (Some []))] [])) = 1 \<and>
   length [(''k'', \<lparr>kv_merkle_tree = ''d'', kv_amount = 15, kv_proof_hashes = []\<rparr>)] \<le> max 1 1"
  using kv_files_bounded [of "[(''k'', \<lparr>kv_merkle_tree = ''d'', kv_amount = 15, kv_proof_hashes = []\<rparr>)]"
      "\<lambda>k. ''k''" 1 "[(''d'', demo_node 5 15 (Some []))]"]
  by simp

section \<open>Sending and closing in batches\<close>

text \<open>
  \<open>process_mass_send\<close> sends to exactly the addresses of the list that were not sent to before, in
  order, in batches of the given size except perhaps the last; an address that the list repeats is
  sent to as often as it occurs.
\<close>

theorem batches_cover_unsent:
  assumes "batches = batch_loop n sent addresses []"
  shows "concat batches = filter (\<lambda>a. \<not> sent a) addresses \<and>
    (\<forall>b\<in>set batches. 1 \<le> length b \<and> length b \<le> max 1 n) \<and>
    (\<forall>b\<in>set (butlast batches). length b = max 1 n)"
  using batch_loop_concat [of n sent addresses "[]"] batch_loop_sizes [of "[]" n sent addresses]
  by (simp add: assms)

lemma batches_cover_unsent_witness:
  "concat [[''a'', ''b''], [''a'']] = filter (\<lambda>a. \<not> a = ''c'') [''a'', ''c'', ''b'', ''a'']"
  using batches_cover_unsent [of "[[''a'', ''b''], [''a'']]" 2 "\<lambda>a. a = ''c''" "[''a'', ''c'', ''b'', ''a'']"]
  by simp

lemma close_loop_True:
  assumes "length ixs < 11"
  shows "concat (close_loop (\<lambda>_ _. True) n ixs xs) = ixs @ xs \<and>
    (\<forall>b\<in>set (close_loop (\<lambda>_ _. True) n ixs xs). length b \<le> 11)"
  using assms
proof (induction xs arbitrary: ixs n)
  case (Cons x xs)
  then show ?case
    using Cons.IH [of "[]" "Suc n"] Cons.IH [of "ixs @ [x]" n] by (auto simp: Let_def)
qed simp

text \<open>
  When the network takes every transaction, \<open>process_close_claim_status\<close> closes every account once, in
  transactions of at most eleven; a refused transaction, however, is never cut: its accounts stay
  and the next transactions are longer.
\<close>

theorem close_batches:
  "concat (close_loop (\<lambda>_ _. True) 0 [] accs) = accs \<and>
   list_all (\<lambda>b. length b \<le> 11) (close_loop (\<lambda>_ _. True) 0 [] accs) \<and>
   map length (close_loop (\<lambda>_ _. False) 0 [] (replicate 13 x)) = [11, 12, 13, 13]"
proof -
  have "map length (close_loop (\<lambda>_ _. False) 0 [] (replicate 13 x)) = [11, 12, 13, 13]"
    by (simp add: numeral_eq_Suc Let_def)
  then show ?thesis
    using close_loop_True [of "[]" 0 accs] by (simp add: list_all_iff)
qed

section \<open>Slots\<close>

text \<open>
  The average slot time that the tool computes with is between half and twice the default, so the
  division by it never panics.
\<close>

theorem average_slot_time_bounded:
  assumes "get_average_slot_time samples = Inr a"
  shows "200 \<le> unat a \<and> unat a \<le> 800"
  using assms
  by (auto simp: get_average_slot_time_def exec_iff DEFAULT_MS_PER_SLOT_def word_le_nat_alt
      split: if_splits)

lemma average_slot_time_bounded_witness:
  "200 \<le> unat (500 :: u64) \<and> unat (500 :: u64) \<le> 800"
proof -
  have "get_average_slot_time [(60, 120)] = Inr 500"
    by (simp add: get_average_slot_time_def mul_u64_def div_u64_def add_u64_def checked_add_u64_def
        DEFAULT_MS_PER_SLOT_def)
  from average_slot_time_bounded [OF this] show ?thesis .
qed

text \<open>
  A performance sample without slots makes the tool panic with a division by zero.
\<close>

theorem empty_sample_panics:
  "get_average_slot_time ((secs, 0) # samples) = Inl ArithmeticPanic"
proof -
  have "unat (ucast secs :: u64) * 1000 < 2 ^ 64"
  proof -
    have "unat secs < 2 ^ LENGTH(16)" by (rule unsigned_less)
    then show ?thesis by (simp add: unsigned_ucast_eq take_bit_eq_mod)
  qed
  then show ?thesis
    by (simp add: get_average_slot_time_def mul_u64_def div_u64_def)
qed

text \<open>
  The slot for a time is the current slot plus or minus the time difference in milliseconds divided
  by the slot time, rounded down; the computation succeeds exactly when no intermediate value leaves
  64 bits and the slot time is not zero.
\<close>

theorem slot_formula:
  "slot_at e c s a = Inr r \<longleftrightarrow> a \<noteq> 0 \<and>
     (if unat c < unat e
      then (unat e - unat c) * 1000 < 2 ^ 64 \<and> unat r = unat s + (unat e - unat c) * 1000 div unat a
      else (unat c - unat e) * 1000 < 2 ^ 64 \<and> (unat c - unat e) * 1000 div unat a \<le> unat s \<and>
        unat r = unat s - (unat c - unat e) * 1000 div unat a)"
proof -
  have mul: "mul_u64 x 1000 = Inr y \<longleftrightarrow> unat x * 1000 < 2 ^ 64 \<and> unat y = unat x * 1000" for x y :: u64
  proof -
    have "unat (x * 1000) = unat x * 1000" if "unat x * 1000 < 2 ^ 64"
      using that by (simp add: unat_word_ariths)
    then show ?thesis by (auto simp: mul_u64_def word_unat_eq_iff)
  qed
  have div: "div_u64 x a = Inr y \<longleftrightarrow> a \<noteq> 0 \<and> unat y = unat x div unat a" for x y
    by (auto simp: div_u64_def word_unat_eq_iff unat_div_distrib)
  have sub: "sub_u64 x y = Inr z \<longleftrightarrow> unat y \<le> unat x \<and> unat z = unat x - unat y" for x y z
    by (simp add: sub_u64_def exec_iff)
  have add: "add_u64 x y = Inr z \<longleftrightarrow> unat z = unat x + unat y" for x y z
    by (simp add: add_u64_def exec_iff)
  have word: "\<exists>x :: u64. unat x = n" if "n < 2 ^ 64" for n
    using unat_of_nat_u64 [OF that] by blast
  have scaled: "(\<exists>dt :: u64. unat dt = n \<and> (\<exists>ms :: u64. (unat dt * 1000 < 2 ^ 64 \<and> unat ms = unat dt * 1000) \<and>
      (\<exists>q :: u64. (a \<noteq> 0 \<and> unat q = unat ms div unat a) \<and> P (unat q)))) \<longleftrightarrow>
      a \<noteq> 0 \<and> n * 1000 < 2 ^ 64 \<and> P (n * 1000 div unat a)" for n P
  proof
    assume *: "a \<noteq> 0 \<and> n * 1000 < 2 ^ 64 \<and> P (n * 1000 div unat a)"
    then have "n < 2 ^ 64" and "n * 1000 div unat a < 2 ^ 64"
      by (auto intro: le_less_trans [OF div_le_dividend])
    with * obtain dt ms q :: u64 where "unat dt = n" "unat ms = n * 1000"
      "unat q = n * 1000 div unat a"
      using word [of n] word [of "n * 1000"] word [of "n * 1000 div unat a"] by blast
    with * have "unat dt * 1000 < 2 ^ 64 \<and> unat ms = unat dt * 1000"
      and "(a \<noteq> 0 \<and> unat q = unat ms div unat a) \<and> P (unat q)" by simp_all
    with \<open>unat dt = n\<close> show "\<exists>dt :: u64. unat dt = n \<and> (\<exists>ms :: u64. (unat dt * 1000 < 2 ^ 64 \<and>
        unat ms = unat dt * 1000) \<and> (\<exists>q :: u64. (a \<noteq> 0 \<and> unat q = unat ms div unat a) \<and> P (unat q)))"
      by blast
  qed auto
  show ?thesis
    unfolding slot_at_def and_then_Inr_iff if_distrib [of "\<lambda>x. x = Inr r"] mul div sub add
      word_less_nat_alt conj_assoc
    using scaled [of "unat e - unat c" "\<lambda>q. unat r = unat s + q"]
      scaled [of "unat c - unat e" "\<lambda>q. q \<le> unat s \<and> unat r = unat s - q"]
    by (auto simp: conj_assoc)
qed

section \<open>Distributors the tool created\<close>

text \<open>
  The check against front-running accepts the distributor that the tool's own instruction creates:
  what \<open>new_distributor\<close> stores is what the options and the distribution file say.
\<close>

theorem own_distributor_matches:
  assumes "process_instruction E tx
      (create_distributor_instruction E (program_id tx) base mint admin opts t) st = Inr st'"
    and "k = fst (get_merkle_distributor_pda E (program_id tx) base mint (airdrop_version t))"
  shows "check_distributor_onchain_matches E (distributors st' k) t opts admin base mint = Inr ()"
  using assms
  by (auto simp: create_distributor_instruction_def Let_def new_distributor_def handle_new_distributor_def
      exec_iff put_distributor_def check_distributor_onchain_matches_def)

lemma own_distributor_matches_witness:
  "check_distributor_onchain_matches demo (distributors (demo_open (merkle_root demo_file) False) (fill32 129))
     (demo_file\<lparr>at_max_total_claim := 150\<rparr>)
     \<lparr>do_start_vesting_ts = 1000, do_end_vesting_ts = 2000, do_clawback_start_ts = 100000,
      do_enable_slot = 10, do_closable = False, do_clawback_receiver_owner = fill32 7\<rparr>
     (fill32 3) (fill32 1) (fill32 2) = Inr ()"
proof (rule own_distributor_matches [of demo "demo_tx 500" _ _ _ _ _ demo_new])
  show "process_instruction demo (demo_tx 500) (create_distributor_instruction demo (program_id (demo_tx 500))
      (fill32 1) (fill32 2) (fill32 3)
      \<lparr>do_start_vesting_ts = 1000, do_end_vesting_ts = 2000, do_clawback_start_ts = 100000,
       do_enable_slot = 10, do_closable = False, do_clawback_receiver_owner = fill32 7\<rparr>
      (demo_file\<lparr>at_max_total_claim := 150\<rparr>)) demo_new = Inr (demo_open (merkle_root demo_file) False)"
    using demo_opens [of "merkle_root demo_file" False]
    by (simp add: create_distributor_instruction_def get_merkle_distributor_pda_def demo_address_def
        merkle_distributor_seeds_def demo_new_distributor_def demo_args_def del: demo_file_nodes(2))
  show "fill32 129 = fst (get_merkle_distributor_pda demo (program_id (demo_tx 500)) (fill32 1) (fill32 2)
      (airdrop_version (demo_file\<lparr>at_max_total_claim := 150\<rparr>)))"
    by (simp add: get_merkle_distributor_pda_def demo_address_def merkle_distributor_seeds_def)
qed

end
