(* ===== verification/Account_Types.thy ===== *)
theory Account_Types
  imports Runtime_Instance
begin

text \<open>
  The types of accounts.  Anchor marks every account with the type it was created for; in the ledger
  an account's type is the table that holds its address.  Instructions keep every account at one
  type, and the vault of every distributor stays a token account of the distributor.
\<close>

datatype account_type = DistributorAccount | StatusAccount | TokenAccount | MintAccount

inductive has_type :: "chain \<Rightarrow> pubkey \<Rightarrow> account_type \<Rightarrow> bool" for st :: chain where
  distributor: "distributors st k = Some d \<Longrightarrow> has_type st k DistributorAccount"
| status: "claim_statuses st k = Some cs \<Longrightarrow> has_type st k StatusAccount"
| token: "token_accounts st k = Some a \<Longrightarrow> has_type st k TokenAccount"
| mint: "k \<in> mints st \<Longrightarrow> has_type st k MintAccount"

inductive_simps has_type_simps [simp]:
  "has_type st k DistributorAccount" "has_type st k StatusAccount"
  "has_type st k TokenAccount" "has_type st k MintAccount"

lemma has_type_iff:
  "has_type st k T \<longleftrightarrow> (case T of DistributorAccount \<Rightarrow> k \<in> dom (distributors st)
     | StatusAccount \<Rightarrow> k \<in> dom (claim_statuses st) | TokenAccount \<Rightarrow> k \<in> dom (token_accounts st)
     | MintAccount \<Rightarrow> k \<in> mints st)"
  by (cases T) auto

lemma in_use_iff: "in_use st k \<longleftrightarrow> (\<exists>T. has_type st k T)"
  unfolding in_use_def by (metis account_type.exhaust has_type_simps not_None_eq)

definition well_typed :: "chain \<Rightarrow> bool" where
  "well_typed st \<longleftrightarrow> (\<forall>k T U. has_type st k T \<longrightarrow> has_type st k U \<longrightarrow> T = U) \<and>
     (\<forall>k d. distributors st k = Some d \<longrightarrow>
       (\<exists>v. token_accounts st (md_token_vault d) = Some v \<and> ta_owner v = k))"

text \<open>What an instruction may do to the tables: new accounts only at addresses that are not in use.\<close>

definition keeps_owners :: "(pubkey \<rightharpoonup> token_account) \<Rightarrow> (pubkey \<rightharpoonup> token_account) \<Rightarrow> bool" where
  "keeps_owners accs accs' \<longleftrightarrow> dom accs' = dom accs \<and>
     (\<forall>k a. accs k = Some a \<longrightarrow> (\<exists>a'. accs' k = Some a' \<and> ta_owner a' = ta_owner a))"

lemma keeps_owners_refl [simp]: "keeps_owners accs accs"
  by (simp add: keeps_owners_def)

lemma transfer_keeps_owners:
  assumes "spl_transfer_sound E" and "spl_transfer E accs from to authority amt = Inr accs'"
  shows "keeps_owners accs accs'"
proof -
  from spl_transfer_moves [OF assms] have d: "dom accs' = dom accs"
    and own: "\<And>k a a'. accs k = Some a \<Longrightarrow> accs' k = Some a' \<Longrightarrow> ta_owner a' = ta_owner a"
    unfolding moves_def by blast+
  have "\<exists>a'. accs' k = Some a' \<and> ta_owner a' = ta_owner a" if "accs k = Some a" for k a
    using that d own by blast
  with d show ?thesis unfolding keeps_owners_def by blast
qed

definition adds_unused :: "chain \<Rightarrow> (pubkey \<rightharpoonup> 'a) \<Rightarrow> (pubkey \<rightharpoonup> 'a) \<Rightarrow> bool" where
  "adds_unused st m m' \<longleftrightarrow> (\<forall>k\<in>dom m'. k \<in> dom m \<or> \<not> in_use st k)"

lemma adds_unused_simps [simp]:
  "adds_unused st m m" "adds_unused st m (m(k := None))"
  "adds_unused st m (m(k \<mapsto> x)) \<longleftrightarrow> k \<in> dom m \<or> \<not> in_use st k"
  by (auto simp: adds_unused_def)

text \<open>The vault of every distributor afterwards was a token account of the distributor before.\<close>

definition vaults_typed :: "chain \<Rightarrow> chain \<Rightarrow> bool" where
  "vaults_typed st st' \<longleftrightarrow> (\<forall>k d. distributors st' k = Some d \<longrightarrow>
     (\<exists>v. token_accounts st (md_token_vault d) = Some v \<and> ta_owner v = k))"

lemma effect_tables:
  assumes "spl_transfer_sound E" and "effect E tx st st'" and "vaults_typed st st"
  shows "mints st' = mints st \<and> keeps_owners (token_accounts st) (token_accounts st') \<and>
    adds_unused st (distributors st) (distributors st') \<and>
    adds_unused st (claim_statuses st) (claim_statuses st') \<and>
    (distributors st' = distributors st \<or> claim_statuses st' = claim_statuses st \<or>
      dom (distributors st') = dom (distributors st)) \<and> vaults_typed st st'"
  using assms(2)
proof cases
  case (opens k d)
  then show ?thesis
    using assms(3) by (auto simp: put_distributor_def fresh_distributor_def vaults_typed_def)
next
  case (administers k d d')
  then show ?thesis
    using assms(3) by (auto simp: put_distributor_def administered_def same_terms_def vaults_typed_def)
next
  case (claims k d c cs pf d' "to" toks vault dest evs)
  from claims transfer_keeps_owners [OF assms(1)] have "keeps_owners (token_accounts st) toks" by blast
  with claims show ?thesis
    using assms(3) by (auto simp: counted_def vaults_typed_def)
next
  case (withdraws k d c cs claimant amt d' cs' "to" toks vault dest evs)
  from withdraws transfer_keeps_owners [OF assms(1)] have "keeps_owners (token_accounts st) toks" by blast
  with withdraws show ?thesis
    using assms(3) by (auto simp: counted_def vaults_typed_def)
next
  case (claws_back k d vault toks)
  from claws_back transfer_keeps_owners [OF assms(1)] have "keeps_owners (token_accounts st) toks" by blast
  with claws_back show ?thesis
    using assms(3) by (auto simp: put_distributor_def vaults_typed_def)
next
  case (closes k d vault "to" toks)
  from closes transfer_keeps_owners [OF assms(1)] have "keeps_owners (token_accounts st) toks" by blast
  with closes show ?thesis
    using assms(3) by (auto simp: vaults_typed_def)
next
  case (closes_status c cs)
  then show ?thesis
    using assms(3) by (auto simp: vaults_typed_def)
qed

text \<open>An address in use keeps its type as long as it has one.\<close>

lemma tables_type:
  assumes "mints st' = mints st" and "keeps_owners (token_accounts st) (token_accounts st')"
    and "adds_unused st (distributors st) (distributors st')"
    and "adds_unused st (claim_statuses st) (claim_statuses st')"
    and "has_type st' k T"
  shows "has_type st k T \<or> \<not> in_use st k \<and> T \<in> {DistributorAccount, StatusAccount}"
  using assms by (cases T) (auto simp: has_type_iff keeps_owners_def adds_unused_def)

lemma new_type_unique:
  assumes "adds_unused st (distributors st) (distributors st')"
    and "adds_unused st (claim_statuses st) (claim_statuses st')"
    and "distributors st' = distributors st \<or> claim_statuses st' = claim_statuses st \<or>
      dom (distributors st') = dom (distributors st)"
    and "\<not> in_use st k"
  shows "\<not> (k \<in> dom (distributors st') \<and> k \<in> dom (claim_statuses st'))"
  using assms by (auto simp: in_use_def)

text \<open>
  C10.  Instructions preserve the types of accounts: on a ledger where every
  address holds an account of at most one type and every vault is a token account of its
  distributor, a successful instruction leaves such a ledger; an account that exists before and
  after has the same type, and no token account or mint appears or disappears.
\<close>

theorem account_types_preserved:
  assumes "spl_transfer_sound E" and "process_instruction E tx i st = Inr st'" and "well_typed st"
  shows "well_typed st' \<and> (\<forall>k T T'. has_type st k T \<longrightarrow> has_type st' k T' \<longrightarrow> T' = T) \<and>
    (\<forall>k. has_type st' k TokenAccount \<longleftrightarrow> has_type st k TokenAccount) \<and>
    (\<forall>k. has_type st' k MintAccount \<longleftrightarrow> has_type st k MintAccount)"
proof -
  have "vaults_typed st st"
    using assms(3) unfolding well_typed_def vaults_typed_def by blast
  from effect_tables [OF assms(1) process_instruction_effect [OF assms(2)] this]
  have m: "mints st' = mints st" and t: "keeps_owners (token_accounts st) (token_accounts st')"
    and d: "adds_unused st (distributors st) (distributors st')"
    and c: "adds_unused st (claim_statuses st) (claim_statuses st')"
    and one: "distributors st' = distributors st \<or> claim_statuses st' = claim_statuses st \<or>
      dom (distributors st') = dom (distributors st)"
    and v: "vaults_typed st st'"
    by blast+
  note ty = tables_type [OF m t d c]
  have same: "T' = T" if "has_type st k T" "has_type st' k T'" for k T T'
    using ty [OF that(2)] that(1) assms(3) unfolding well_typed_def in_use_iff by blast
  have unique: "T = U" if "has_type st' k T" "has_type st' k U" for k T U
  proof (cases "in_use st k")
    case True
    then obtain V where "has_type st k V" unfolding in_use_iff ..
    with same that show ?thesis by metis
  next
    case False
    with ty [OF that(1)] ty [OF that(2)] new_type_unique [OF d c one False] that show ?thesis
      by (auto simp: in_use_iff)
  qed
  have "\<exists>a. token_accounts st' (md_token_vault x) = Some a \<and> ta_owner a = k"
    if "distributors st' k = Some x" for k x
  proof -
    from v that obtain a where "token_accounts st (md_token_vault x) = Some a" "ta_owner a = k"
      unfolding vaults_typed_def by blast
    with t show ?thesis unfolding keeps_owners_def by metis
  qed
  with unique have "well_typed st'" unfolding well_typed_def by blast
  moreover have "has_type st' k TokenAccount \<longleftrightarrow> has_type st k TokenAccount" for k
    using t by (auto simp: keeps_owners_def)
  ultimately show ?thesis
    using same m by simp
qed

lemma demo_open_well_typed: "well_typed (demo_open demo_leaf False)"
proof -
  have "T = U" if "has_type (demo_open demo_leaf False) k T" "has_type (demo_open demo_leaf False) k U" for k T U
    using that by (cases T; cases U) (auto simp: demo_defs split: if_splits)
  then show ?thesis
    unfolding well_typed_def by (auto simp: demo_defs split: if_splits)
qed

lemma account_types_preserved_witness:
  "well_typed (demo_claimed demo_leaf False) \<and>
     has_type (demo_claimed demo_leaf False) (fill32 101) StatusAccount"
proof -
  have run: "process_instruction demo (demo_tx 1100) (NewClaim demo_new_claim 10 100 []) (demo_open demo_leaf False) =
      Inr (demo_claimed demo_leaf False)"
    by (simp add: demo_claims)
  from account_types_preserved [OF demo_transfer_sound run demo_open_well_typed] show ?thesis
    by (simp add: demo_defs)
qed

end
