(* ===== verification/Host_Runs.thy ===== *)
theory Host_Runs
  imports Prelude
begin

text \<open>
  Programs that talk to the outside: a run starts in a state of the world and may return a value,
  panic, or not return at all.  The world is a type parameter; what the operations on it do is known
  from the laws of an interface only.  Rust's \<open>loop\<close> is \<open>loop\<close>, where a body without a value goes
  round again; its \<open>for\<close> is \<open>for_loop\<close>, whose body says whether to continue, to break or to return
  from the function.  \<open>succeeds\<close> and \<open>outcome\<close> are the two judgements that the proofs use.
\<close>

section \<open>Runs\<close>

type_synonym ('w, 'a) run = "'w \<Rightarrow> ((panic + 'a) \<times> 'w) option"

definition ret :: "'a \<Rightarrow> ('w, 'a) run" where
  "ret a w = Some (Inr a, w)"

definition of_result :: "panic + 'a \<Rightarrow> ('w, 'a) run" where
  "of_result r w = Some (r, w)"

text \<open>An operation of the interface.\<close>

definition call :: "('w \<Rightarrow> 'a \<times> 'w) \<Rightarrow> ('w, 'a) run" where
  "call f w = (case f w of (a, w') \<Rightarrow> Some (Inr a, w'))"

definition seq :: "('w, 'a) run \<Rightarrow> ('a \<Rightarrow> ('w, 'b) run) \<Rightarrow> ('w, 'b) run" where
  "seq m f w =
     (case m w of
        None \<Rightarrow> None
      | Some (Inl p, w') \<Rightarrow> Some (Inl p, w')
      | Some (Inr a, w') \<Rightarrow> f a w')"

section \<open>Loops\<close>

partial_function (option) loop :: "('w, 'a option) run \<Rightarrow> ('w, 'a) run" where
  "loop body w =
     (case body w of
        None \<Rightarrow> None
      | Some (Inl p, w') \<Rightarrow> Some (Inl p, w')
      | Some (Inr (Some a), w') \<Rightarrow> Some (Inr a, w')
      | Some (Inr None, w') \<Rightarrow> loop body w')"

datatype ('s, 'r) flow = Continue 's | Break 's | Return 'r

primrec for_loop ::
  "('x \<Rightarrow> 's \<Rightarrow> ('w, ('s, 'r) flow) run) \<Rightarrow> 'x list \<Rightarrow> 's \<Rightarrow> ('w, ('s, 'r) flow) run" where
  "for_loop body [] s = ret (Continue s)"
| "for_loop body (x # xs) s =
     seq (body x s) (\<lambda>c. case c of Continue s' \<Rightarrow> for_loop body xs s' | _ \<Rightarrow> ret c)"

text \<open>A \<open>for\<close> loop that never breaks and carries no state.\<close>

primrec for_each :: "('x \<Rightarrow> ('w, unit) run) \<Rightarrow> 'x list \<Rightarrow> ('w, unit) run" where
  "for_each body [] = ret ()"
| "for_each body (x # xs) = seq (body x) (\<lambda>_. for_each body xs)"

section \<open>Computation rules\<close>

lemma ret_apply [simp]: "ret a w = Some (Inr a, w)"
  by (simp add: ret_def)

lemma of_result_apply [simp]: "of_result r w = Some (r, w)"
  by (simp add: of_result_def)

lemma call_apply [simp]: "call f w = Some (Inr (fst (f w)), snd (f w))"
  by (simp add: call_def split: prod.split)

lemma seq_simps [simp]:
  "m w = None \<Longrightarrow> seq m f w = None"
  "m w = Some (Inl p, w') \<Longrightarrow> seq m f w = Some (Inl p, w')"
  "m w = Some (Inr a, w') \<Longrightarrow> seq m f w = f a w'"
  by (simp_all add: seq_def)

lemma seq_Some_iff:
  "seq m f w = Some (Inr b, v) \<longleftrightarrow> (\<exists>a w'. m w = Some (Inr a, w') \<and> f a w' = Some (Inr b, v))"
  by (auto simp: seq_def split: option.splits sum.splits)

lemma loop_simps:
  "body w = Some (Inl p, w') \<Longrightarrow> loop body w = Some (Inl p, w')"
  "body w = Some (Inr (Some a), w') \<Longrightarrow> loop body w = Some (Inr a, w')"
  "body w = Some (Inr None, w') \<Longrightarrow> loop body w = loop body w'"
  by (simp_all add: loop.simps)

section \<open>Judgements\<close>

text \<open>\<open>succeeds m w Q\<close>: the run returns, without a panic, and what it returns satisfies \<open>Q\<close>.\<close>

definition succeeds :: "('w, 'a) run \<Rightarrow> 'w \<Rightarrow> ('a \<Rightarrow> 'w \<Rightarrow> bool) \<Rightarrow> bool" where
  "succeeds m w Q \<longleftrightarrow> (\<exists>a w'. m w = Some (Inr a, w') \<and> Q a w')"

text \<open>\<open>outcome m w Q\<close>: if the run comes to an end, the world and the outcome satisfy \<open>Q\<close>.\<close>

definition outcome :: "('w, 'a) run \<Rightarrow> 'w \<Rightarrow> (panic + 'a \<Rightarrow> 'w \<Rightarrow> bool) \<Rightarrow> bool" where
  "outcome m w Q \<longleftrightarrow> (\<forall>r w'. m w = Some (r, w') \<longrightarrow> Q r w')"

text \<open>\<open>returns m w\<close>: the run comes to an end.\<close>

definition returns :: "('w, 'a) run \<Rightarrow> 'w \<Rightarrow> bool" where
  "returns m w \<longleftrightarrow> m w \<noteq> None"

named_theorems succeeds_intro \<open>rules for runs that succeed\<close>
named_theorems outcome_intro \<open>rules for what runs leave behind\<close>
named_theorems returns_intro \<open>rules for runs that come to an end\<close>

lemma succeedsI: "m w = Some (Inr a, w') \<Longrightarrow> Q a w' \<Longrightarrow> succeeds m w Q"
  by (simp add: succeeds_def)

lemma succeeds_mono: "succeeds m w Q \<Longrightarrow> (\<And>a w'. Q a w' \<Longrightarrow> R a w') \<Longrightarrow> succeeds m w R"
  by (auto simp: succeeds_def)

lemma succeeds_ret [succeeds_intro]: "Q a w \<Longrightarrow> succeeds (ret a) w Q"
  by (simp add: succeeds_def)

lemma succeeds_of_result [succeeds_intro]: "r = Inr a \<Longrightarrow> Q a w \<Longrightarrow> succeeds (of_result r) w Q"
  by (simp add: succeeds_def)

lemma succeeds_call [succeeds_intro]: "Q (fst (f w)) (snd (f w)) \<Longrightarrow> succeeds (call f) w Q"
  by (simp add: succeeds_def)

lemma succeeds_seq [succeeds_intro]: "succeeds m w (\<lambda>a w'. succeeds (f a) w' Q) \<Longrightarrow> succeeds (seq m f) w Q"
  by (auto simp: succeeds_def)

lemma outcome_mono: "outcome m w Q \<Longrightarrow> (\<And>r w'. Q r w' \<Longrightarrow> R r w') \<Longrightarrow> outcome m w R"
  by (simp add: outcome_def)

lemma outcomeD: "outcome m w Q \<Longrightarrow> m w = Some (r, w') \<Longrightarrow> Q r w'"
  by (simp add: outcome_def)

lemma outcome_ret [outcome_intro]: "Q (Inr a) w \<Longrightarrow> outcome (ret a) w Q"
  by (simp add: outcome_def)

lemma outcome_of_result [outcome_intro]: "Q r w \<Longrightarrow> outcome (of_result r) w Q"
  by (simp add: outcome_def)

lemma outcome_call [outcome_intro]: "Q (Inr (fst (f w))) (snd (f w)) \<Longrightarrow> outcome (call f) w Q"
  by (simp add: outcome_def)

lemma outcome_seq [outcome_intro]:
  "outcome m w (\<lambda>r w'. case r of Inl p \<Rightarrow> Q (Inl p) w' | Inr a \<Rightarrow> outcome (f a) w' Q) \<Longrightarrow>
     outcome (seq m f) w Q"
  unfolding outcome_def seq_def by (auto split: option.splits sum.splits prod.splits)

lemma returnsI: "m w = Some x \<Longrightarrow> returns m w"
  by (simp add: returns_def)

lemma returns_simps [simp, returns_intro]:
  "returns (ret a) w" "returns (of_result r) w" "returns (call f) w"
  by (simp_all add: returns_def)

lemma returns_seq [returns_intro]:
  "returns m w \<Longrightarrow> (\<And>a w'. m w = Some (Inr a, w') \<Longrightarrow> returns (f a) w') \<Longrightarrow> returns (seq m f) w"
  unfolding returns_def seq_def by (auto split: option.splits sum.splits)

lemma succeeds_returns: "succeeds m w Q \<Longrightarrow> returns m w"
  by (auto simp: succeeds_def returns_def)

section \<open>Rules for loops\<close>

text \<open>A loop that brings a measure down whenever it goes round comes to an end.\<close>

lemma loop_succeeds:
  assumes "I w"
    and step: "\<And>w. I w \<Longrightarrow> succeeds body w (\<lambda>a w'. case a of
      Some x \<Rightarrow> Q x w' | None \<Rightarrow> I w' \<and> (m w' :: nat) < m w)"
  shows "succeeds (loop body) w Q"
  using assms(1)
proof (induction "m w" arbitrary: w rule: less_induct)
  case less
  from step [OF less.prems] obtain a w' where b: "body w = Some (Inr a, w')"
    and a: "case a of Some x \<Rightarrow> Q x w' | None \<Rightarrow> I w' \<and> m w' < m w"
    by (auto simp: succeeds_def)
  show ?case
  proof (cases a)
    case None
    with a have "succeeds (loop body) w' Q" by (intro less.hyps) simp_all
    with b None show ?thesis by (simp add: succeeds_def loop_simps)
  next
    case (Some x)
    with a b show ?thesis by (simp add: succeeds_def loop_simps)
  qed
qed

lemma loop_returns:
  assumes "I w"
    and step: "\<And>w. I w \<Longrightarrow> returns body w"
    and round: "\<And>w w'. I w \<Longrightarrow> body w = Some (Inr None, w') \<Longrightarrow> I w' \<and> (m w' :: nat) < m w"
  shows "returns (loop body) w"
  using assms(1)
proof (induction "m w" arbitrary: w rule: less_induct)
  case less
  from step [OF less.prems] obtain r w' where b: "body w = Some (r, w')"
    by (auto simp: returns_def)
  consider p where "r = Inl p" | x where "r = Inr (Some x)" | "r = Inr None"
    by (metis not_None_eq sum.exhaust)
  then show ?case
  proof cases
    case 3
    with b round [OF less.prems] have "I w'" "m w' < m w" by auto
    then have "returns (loop body) w'" by (intro less.hyps)
    with b 3 show ?thesis by (simp add: returns_def loop_simps)
  qed (use b in \<open>simp_all add: returns_def loop_simps\<close>)
qed

lemma loop_outcome:
  assumes "I w"
    and step: "\<And>w. I w \<Longrightarrow> outcome body w (\<lambda>r w'. case r of
      Inl p \<Rightarrow> Q (Inl p) w' | Inr (Some x) \<Rightarrow> Q (Inr x) w' | Inr None \<Rightarrow> I w')"
  shows "outcome (loop body) w Q"
proof -
  have "body = body \<longrightarrow> I w \<longrightarrow> (case x of (r, w') \<Rightarrow> Q r w')" if "loop body w = Some x" for x
  proof (rule loop.raw_induct [where P = "\<lambda>b w x. b = body \<longrightarrow> I w \<longrightarrow> (case x of (r, w') \<Rightarrow> Q r w')",
        OF _ that], intro impI)
    fix lp :: "('a, 'b option) run \<Rightarrow> 'a \<Rightarrow> ((panic + 'b) \<times> 'a) option" and b w x
    assume IH: "\<And>b w x. lp b w = Some x \<Longrightarrow> b = body \<longrightarrow> I w \<longrightarrow> (case x of (r, w') \<Rightarrow> Q r w')"
      and eq: "(case b w of None \<Rightarrow> None | Some (Inl p, w') \<Rightarrow> Some (Inl p, w')
        | Some (Inr None, w') \<Rightarrow> lp b w' | Some (Inr (Some a), w') \<Rightarrow> Some (Inr a, w')) = Some x"
      and "b = body" and "I w"
    with step [OF \<open>I w\<close>] show "case x of (r, w') \<Rightarrow> Q r w'"
      by (auto simp: outcome_def split: option.splits prod.splits sum.splits)
  qed
  with assms(1) show ?thesis by (auto simp: outcome_def)
qed

text \<open>A loop whose body always goes round never comes to an end.\<close>

lemma loop_diverges:
  assumes "I w" and "\<And>w. I w \<Longrightarrow> \<exists>w'. body w = Some (Inr None, w') \<and> I w'"
  shows "\<not> returns (loop body) w"
proof -
  have "outcome (loop body) w (\<lambda>_ _. False)"
  proof (rule loop_outcome [of I])
    fix w assume "I w"
    from assms(2) [OF this] obtain w' where "body w = Some (Inr None, w')" "I w'" by blast
    then show "outcome body w (\<lambda>r w'. case r of Inl p \<Rightarrow> False | Inr (Some x) \<Rightarrow> False | Inr None \<Rightarrow> I w')"
      by (simp add: outcome_def)
  qed (rule assms(1))
  then show ?thesis by (auto simp: outcome_def returns_def)
qed

lemma for_each_append: "for_each body (xs @ ys) w = seq (for_each body xs) (\<lambda>_. for_each body ys) w"
  by (induction xs arbitrary: w) (auto simp: seq_def split: option.split sum.split)

lemma for_each_stuck:
  assumes "succeeds (for_each body xs) w (\<lambda>_ w'. \<not> returns (body x) w')"
  shows "\<not> returns (for_each body (xs @ x # ys)) w"
proof -
  from assms obtain u w' where "for_each body xs w = Some (Inr u, w')" and "body x w' = None"
    unfolding succeeds_def returns_def by blast
  then show ?thesis by (simp add: for_each_append returns_def)
qed

lemma for_each_succeeds:
  assumes "I [] w"
    and "\<And>ys x zs w. xs = ys @ x # zs \<Longrightarrow> I ys w \<Longrightarrow> succeeds (body x) w (\<lambda>_. I (ys @ [x]))"
  shows "succeeds (for_each body xs) w (\<lambda>_. I xs)"
proof -
  have "succeeds (for_each body zs) w (\<lambda>_. I xs)" if "xs = ys @ zs" "I ys w" for ys zs w
    using that
  proof (induction zs arbitrary: ys w)
    case Nil
    then show ?case by (simp add: succeeds_def)
  next
    case (Cons x zs)
    from assms(2) [OF Cons.prems] show ?case
      unfolding for_each.simps
      by (intro succeeds_seq) (rule succeeds_mono, assumption, rule Cons.IH, simp_all add: Cons.prems)
  qed
  from this [of "[]" xs w] assms(1) show ?thesis by simp
qed

lemma for_each_outcome:
  assumes "I w" and "\<And>x w. x \<in> set xs \<Longrightarrow> I w \<Longrightarrow> outcome (body x) w (\<lambda>_. I)"
  shows "outcome (for_each body xs) w (\<lambda>_. I)"
  using assms
proof (induction xs arbitrary: w)
  case (Cons x xs)
  have "outcome (body x) w (\<lambda>_. I)" by (rule Cons.prems(2)) (simp_all add: Cons.prems(1))
  then show ?case
    unfolding for_each.simps
    by (intro outcome_seq, elim outcome_mono) (auto split: sum.split intro!: Cons.IH Cons.prems(2))
qed (simp add: outcome_def)

lemma for_loop_outcome:
  assumes "I s w"
    and "\<And>x s w. x \<in> set xs \<Longrightarrow> I s w \<Longrightarrow> outcome (body x s) w (\<lambda>r w'. case r of
      Inl p \<Rightarrow> Q (Inl p) w' | Inr (Continue s') \<Rightarrow> I s' w' | Inr c \<Rightarrow> Q (Inr c) w')"
    and "\<And>s w. I s w \<Longrightarrow> Q (Inr (Continue s)) w"
  shows "outcome (for_loop body xs s) w Q"
  using assms(1,2)
proof (induction xs arbitrary: s w)
  case Nil
  then show ?case by (simp add: outcome_def assms(3))
next
  case (Cons x xs)
  have "outcome (body x s) w (\<lambda>r w'. case r of
      Inl p \<Rightarrow> Q (Inl p) w' | Inr (Continue s') \<Rightarrow> I s' w' | Inr c \<Rightarrow> Q (Inr c) w')"
    by (rule Cons.prems(2)) (simp_all add: Cons.prems(1))
  then show ?case
    unfolding for_loop.simps
    by (intro outcome_seq, elim outcome_mono)
      (auto split: sum.splits flow.splits intro!: Cons.IH Cons.prems(2) outcome_ret)
qed

lemma for_loop_returns:
  assumes "\<And>x s w. x \<in> set xs \<Longrightarrow> returns (body x s) w"
  shows "returns (for_loop body xs s) w"
  using assms
  by (induction xs arbitrary: s w) (auto intro!: returns_seq split: flow.split)

lemma for_loop_succeeds:
  assumes "I [] s w"
    and "\<And>ys x zs s w. xs = ys @ x # zs \<Longrightarrow> I ys s w \<Longrightarrow>
      succeeds (body x s) w (\<lambda>c w'. \<exists>s'. c = Continue s' \<and> I (ys @ [x]) s' w')"
  shows "succeeds (for_loop body xs s) w (\<lambda>c w'. \<exists>s'. c = Continue s' \<and> I xs s' w')"
proof -
  have "succeeds (for_loop body zs s) w (\<lambda>c w'. \<exists>s'. c = Continue s' \<and> I xs s' w')"
    if "xs = ys @ zs" "I ys s w" for ys zs s w
    using that
  proof (induction zs arbitrary: ys s w)
    case Nil
    then show ?case by (simp add: succeeds_def)
  next
    case (Cons x zs)
    have rest: "succeeds (for_loop body zs s') w' (\<lambda>c w'. \<exists>s'. c = Continue s' \<and> I xs s' w')"
      if "I (ys @ [x]) s' w'" for s' w'
      by (rule Cons.IH [OF _ that]) (simp add: Cons.prems(1))
    from assms(2) [OF Cons.prems] show ?case
      unfolding for_loop.simps
      by (intro succeeds_seq, elim succeeds_mono) (auto intro: rest)
  qed
  from this [of "[]" xs s w] assms(1) show ?thesis by simp
qed

end
