(* ===== verification/Cli_Network.thy ===== *)
theory Cli_Network
  imports Host_Runs Cli_Batches Cli_Claims
begin

text \<open>
  What the command line tool asks of an RPC node, as the record \<open>rpc\<close> of operations on a state of the
  world, the transactions it signs, and \<open>send_transaction.rs\<close>, which submits a transaction until it is
  confirmed or its blockhash expires.  Nothing is assumed of a node here.  The log lines are left out,
  and with them the counter of attempts, which is only printed.
\<close>

section \<open>Transactions\<close>

record transaction =
  tr_instructions :: "client_instruction list"
  tr_payer :: pubkey
  tr_signers :: "pubkey set"
  tr_blockhash :: hash

text \<open>
  \<open>Transaction::new_signed_with_payer\<close>: signing panics unless the keypairs are those of the payer and
  of the accounts that have to sign.
\<close>

definition new_signed_with_payer ::
  "client_instruction list \<Rightarrow> pubkey \<Rightarrow> pubkey set \<Rightarrow> hash \<Rightarrow> panic + transaction" where
  "new_signed_with_payer ixs payer keys blockhash =
     (if insert payer (\<Union>ix\<in>set ixs. required_signers ix) = keys
      then Inr \<lparr>tr_instructions = ixs, tr_payer = payer, tr_signers = keys, tr_blockhash = blockhash\<rparr>
      else Inl ExplicitPanic)"

section \<open>The node\<close>

text \<open>
  An account as the tool sees it: \<open>None\<close> is a deserialization that fails.  Errors are the texts of the
  client library.  The status of a signature is \<open>None\<close> when no finalized transaction has it.
\<close>

datatype rpc_filter = DataSize u64 | Memcmp nat "u8 list"

record ('w, 's) rpc =
  fetch_distributor :: "pubkey \<Rightarrow> 'w \<Rightarrow> merkle_distributor option \<times> 'w"
  fetch_token_account :: "pubkey \<Rightarrow> 'w \<Rightarrow> (string + token_account) \<times> 'w"
  get_account_with_commitment :: "pubkey \<Rightarrow> 'w \<Rightarrow> (string + merkle_distributor option option) \<times> 'w"
  get_account_answer :: "pubkey \<Rightarrow> 'w \<Rightarrow> account_answer \<times> 'w"
  program_accounts :: "rpc_filter list \<Rightarrow> 'w \<Rightarrow> (pubkey \<times> claim_status) list option \<times> 'w"
  signature_status :: "'s \<Rightarrow> 'w \<Rightarrow> (string + (string + unit) option) \<times> 'w"
  get_account_data_is_ok :: "pubkey \<Rightarrow> 'w \<Rightarrow> bool \<times> 'w"
  get_clock :: "'w \<Rightarrow> (i64 \<times> u64) option \<times> 'w"
  get_recent_performance_samples :: "'w \<Rightarrow> (u16 \<times> u64) list option \<times> 'w"
  get_latest_blockhash :: "'w \<Rightarrow> hash option \<times> 'w"
  simulate_transaction :: "transaction \<Rightarrow> 'w \<Rightarrow> (string + string option) \<times> 'w"
  is_blockhash_valid :: "hash \<Rightarrow> 'w \<Rightarrow> (string + bool) \<times> 'w"
  send_transaction_with_config :: "transaction \<Rightarrow> 'w \<Rightarrow> (string + 's) \<times> 'w"
  confirm_transaction :: "'s \<Rightarrow> 'w \<Rightarrow> (string + bool) \<times> 'w"
  client_send_transaction :: "transaction \<Rightarrow> 'w \<Rightarrow> (string + 's) \<times> 'w"
  send_and_confirm :: "transaction \<Rightarrow> 'w \<Rightarrow> (string + 's) \<times> 'w"
  print_message :: "client_instruction list \<Rightarrow> pubkey \<Rightarrow> 'w \<Rightarrow> unit \<times> 'w"
  sleep_ms :: "nat \<Rightarrow> 'w \<Rightarrow> unit \<times> 'w"

section \<open>\<open>send_transaction\<close>\<close>

text \<open>The body of its \<open>loop\<close>; \<open>None\<close> goes round again, and \<open>?\<close> returns the error.\<close>

definition send_attempt ::
  "('w, 's) rpc \<Rightarrow> ('w, 's) rpc \<Rightarrow> transaction \<Rightarrow> ('w, (string + unit) option) run" where
  "send_attempt client send_client tx =
     seq (call (is_blockhash_valid client (tr_blockhash tx))) (\<lambda>valid.
     case valid of
       Inl e \<Rightarrow> ret (Some (Inl e))
     | Inr False \<Rightarrow> ret (Some (Inr ()))
     | Inr True \<Rightarrow>
         seq (call (send_transaction_with_config send_client tx)) (\<lambda>sent.
         case sent of
           Inl e \<Rightarrow> ret (Some (Inl e))
         | Inr signature \<Rightarrow>
             seq (call (sleep_ms client 1600)) (\<lambda>_.
             seq (call (confirm_transaction client signature)) (\<lambda>status.
             case status of
               Inl e \<Rightarrow> ret (Some (Inl e))
             | Inr True \<Rightarrow> ret (Some (Inr ()))
             | Inr False \<Rightarrow> ret None))))"

definition send_transaction ::
  "('w, 's) rpc \<Rightarrow> ('w, 's) rpc \<Rightarrow> transaction \<Rightarrow> ('w, string + unit) run" where
  "send_transaction client send_client tx =
     seq (call (simulate_transaction client tx)) (\<lambda>simulated.
     case simulated of
       Inl e \<Rightarrow> ret (Inl e)
     | Inr (Some e) \<Rightarrow> ret (Inl e)
     | Inr None \<Rightarrow> loop (send_attempt client send_client tx))"

section \<open>Arguments and files\<close>

record cli_args =
  ca_mint :: pubkey
  ca_base :: pubkey
  ca_program_id :: pubkey
  ca_keypair :: "pubkey option"
  ca_priority_fee :: "u64 option"
  ca_bs58 :: bool

definition distributor_of :: "solana \<Rightarrow> cli_args \<Rightarrow> pubkey \<Rightarrow> u64 \<Rightarrow> pubkey" where
  "distributor_of E args base version =
     fst (get_merkle_distributor_pda E (ca_program_id args) base (ca_mint args) version)"

text \<open>The signed transaction of a list of instructions, handed to one of the ways to send it.\<close>

definition sign_and_send ::
  "('w, 's) rpc \<Rightarrow> client_instruction list \<Rightarrow> pubkey \<Rightarrow> pubkey set \<Rightarrow> (transaction \<Rightarrow> ('w, 'a) run) \<Rightarrow>
     ('w, 'a) run" where
  "sign_and_send client ixs payer keys send =
     seq (call (get_latest_blockhash client)) (\<lambda>b.
     seq (of_result (unwrap b)) (\<lambda>blockhash.
     seq (of_result (new_signed_with_payer ixs payer keys blockhash)) send))"

text \<open>\<open>a..=b\<close> over \<open>u64\<close>.\<close>

definition inclusive_range :: "u64 \<Rightarrow> u64 \<Rightarrow> u64 list" where
  "inclusive_range a b = map of_nat [unat a..<Suc (unat b)]"

lemma inclusive_range_set: "set (inclusive_range a b) = {v. a \<le> v \<and> v \<le> b}"
proof -
  have "v \<in> of_nat ` {unat a..unat b}" if "a \<le> v" "v \<le> b" for v
    using that by (intro image_eqI [of _ _ "unat v"]) (simp_all add: word_le_nat_alt)
  moreover have "a \<le> of_nat i \<and> of_nat i \<le> b" if "unat a \<le> i" "i \<le> unat b" for i
  proof -
    have "unat (of_nat i :: u64) = i"
      by (rule unat_of_nat_u64) (use that(2) unat_u64_less [of b] in linarith)
    with that show ?thesis by (simp add: word_le_nat_alt)
  qed
  moreover have "set (inclusive_range a b) = of_nat ` {unat a..unat b}"
    by (simp add: inclusive_range_def atLeastLessThanSuc_atLeastAtMost del: upt_Suc)
  ultimately show ?thesis by auto
qed

section \<open>What \<open>send_transaction\<close> guarantees\<close>

text \<open>
  A blockhash expires: the node calls it valid only while there is some time left of its life, waiting
  takes from that time, and nothing gives it back.
\<close>

definition expiring :: "('w, 's) rpc \<Rightarrow> ('w, 's) rpc \<Rightarrow> hash \<Rightarrow> ('w \<Rightarrow> nat) \<Rightarrow> bool" where
  "expiring client send_client blockhash left \<longleftrightarrow>
     (\<forall>w. fst (is_blockhash_valid client blockhash w) = Inr True \<longrightarrow> 0 < left w) \<and>
     (\<forall>w. left (snd (is_blockhash_valid client blockhash w)) = left w) \<and>
     (\<forall>tx w. left (snd (send_transaction_with_config send_client tx w)) \<le> left w) \<and>
     (\<forall>w. left (snd (sleep_ms client 1600 w)) \<le> left w - 1) \<and>
     (\<forall>signature w. left (snd (confirm_transaction client signature w)) \<le> left w)"

lemma send_attempt_returns [simp]: "returns (send_attempt client send_client tx) w"
  unfolding send_attempt_def
  by (intro returns_seq returns_simps) (auto intro!: returns_seq split: sum.splits bool.splits)

lemma send_attempt_expires:
  assumes "expiring client send_client (tr_blockhash tx) left"
    and "send_attempt client send_client tx w = Some (Inr None, w')"
  shows "left w' < left w"
proof -
  let ?w1 = "snd (is_blockhash_valid client (tr_blockhash tx) w)"
  let ?w2 = "snd (send_transaction_with_config send_client tx ?w1)"
  let ?w3 = "snd (sleep_ms client 1600 ?w2)"
  from assms(2) obtain s where valid: "fst (is_blockhash_valid client (tr_blockhash tx) w) = Inr True"
    and w': "w' = snd (confirm_transaction client s ?w3)"
    by (auto simp: send_attempt_def split: sum.splits bool.splits)
  note laws = assms(1) [unfolded expiring_def]
  have "left w' \<le> left ?w3" "left ?w3 \<le> left ?w2 - 1" "left ?w2 \<le> left ?w1"
    "left ?w1 = left w" "0 < left w"
    using laws valid unfolding w' by blast+
  then show ?thesis by linarith
qed

lemma send_transaction_returns:
  assumes "expiring client send_client (tr_blockhash tx) left"
  shows "returns (send_transaction client send_client tx) w"
proof -
  have "returns (loop (send_attempt client send_client tx)) w" for w
    by (rule loop_returns [where I = "\<lambda>_. True" and m = left])
      (use send_attempt_expires [OF assms] in simp_all)
  then show ?thesis
    unfolding send_transaction_def by (intro returns_seq) (auto split: sum.split option.split)
qed

end
