(* ===== verification/Cli_Admin.thy ===== *)
theory Cli_Admin
  imports Cli_Network
begin

text \<open>
  The commands that administer the distributors of a directory of files, or of a range of versions:
  \<open>process_set_admin.rs\<close>, \<open>process_set_clawback_receiver.rs\<close>, \<open>process_set_enable_slot.rs\<close>,
  \<open>process_set_clawback_start_ts.rs\<close>, \<open>process_clawback.rs\<close>, \<open>process_set_enable_slot_by_time.rs\<close> and
  \<open>process_get_slot.rs\<close>.  The first five repeat, for each distributor, a round that reads it, skips it
  when nothing is left to do, and otherwise sends one instruction, until the node reports success.
  There is no limit on the rounds.
\<close>

section \<open>One round\<close>

text \<open>
  The body of the \<open>loop\<close> that the commands share: \<open>already\<close> is the test to skip, \<open>ix\<close> the instruction
  for the distributor as it was read, \<open>send\<close> the way to send it.  \<open>None\<close> goes round again.
\<close>

definition admin_round ::
  "('w, 's) rpc \<Rightarrow> bool \<Rightarrow> u64 option \<Rightarrow> pubkey \<Rightarrow> pubkey \<Rightarrow> (merkle_distributor \<Rightarrow> bool) \<Rightarrow>
     (merkle_distributor \<Rightarrow> instruction) \<Rightarrow> (transaction \<Rightarrow> ('w, string + 'x) run) \<Rightarrow>
     ('w, unit option) run" where
  "admin_round client bs58 priority_fee keypair distributor already ix send =
     seq (call (fetch_distributor client distributor)) (\<lambda>account.
     seq (of_result (unwrap account)) (\<lambda>d.
     if already d then ret (Some ())
     else
       let ixs = (if bs58 then [] else price_instructions priority_fee) @ [Program (ix d)] in
       if bs58
       then seq (call (print_message client ixs (md_admin d))) (\<lambda>_. ret (Some ()))
       else
         seq (sign_and_send client ixs keypair {keypair} send) (\<lambda>r.
         ret (case r of Inr _ \<Rightarrow> Some () | Inl e \<Rightarrow> None))))"

text \<open>The distribution files of a directory, in the order of their paths; reading one may panic.\<close>

definition for_each_file ::
  "host \<Rightarrow> string list option \<Rightarrow> (airdrop_merkle_tree \<Rightarrow> ('w, unit) run) \<Rightarrow> ('w, unit) run" where
  "for_each_file H dir body =
     seq (of_result (unwrap dir)) (\<lambda>paths.
     for_each (\<lambda>path. seq (of_result (unwrap_result (new_from_file H path))) body) (sort paths))"

section \<open>The commands\<close>

definition process_set_admin ::
  "('w, 's) rpc \<Rightarrow> ('w, 's) rpc \<Rightarrow> solana \<Rightarrow> host \<Rightarrow> cli_args \<Rightarrow> string list option \<Rightarrow> pubkey \<Rightarrow>
     ('w, unit) run" where
  "process_set_admin client send_client E H args dir new_admin =
     seq (of_result (unwrap (ca_keypair args))) (\<lambda>keypair.
     for_each_file H dir (\<lambda>merkle_tree.
       let distributor = distributor_of E args (ca_base args) (airdrop_version merkle_tree) in
       loop (admin_round client (ca_bs58 args) (ca_priority_fee args) keypair distributor
         (\<lambda>d. md_admin d = new_admin)
         (\<lambda>d. SetAdmin \<lparr>sa_distributor = distributor, sa_admin = md_admin d, sa_new_admin = new_admin\<rparr>)
         (send_transaction client send_client))))"

definition process_set_clawback_receiver ::
  "('w, 's) rpc \<Rightarrow> solana \<Rightarrow> host \<Rightarrow> cli_args \<Rightarrow> string list option \<Rightarrow> pubkey \<Rightarrow> ('w, unit) run" where
  "process_set_clawback_receiver client E H args dir receiver =
     seq (of_result (unwrap (ca_keypair args))) (\<lambda>keypair.
     let new_clawback_account = get_associated_token_address E receiver (ca_mint args) in
     for_each_file H dir (\<lambda>merkle_tree.
       let distributor = distributor_of E args (ca_base args) (airdrop_version merkle_tree) in
       loop (admin_round client (ca_bs58 args) (ca_priority_fee args) keypair distributor
         (\<lambda>d. md_clawback_receiver d = new_clawback_account)
         (\<lambda>d. SetClawbackReceiver \<lparr>sr_distributor = distributor,
            sr_new_clawback_account = new_clawback_account, sr_admin = md_admin d\<rparr>)
         (\<lambda>tx. call (client_send_transaction client tx)))))"

definition process_set_enable_slot ::
  "('w, 's) rpc \<Rightarrow> solana \<Rightarrow> cli_args \<Rightarrow> u64 \<Rightarrow> u64 \<Rightarrow> u64 \<Rightarrow> ('w, unit) run" where
  "process_set_enable_slot client E args from_version to_version slot =
     seq (of_result (unwrap (ca_keypair args))) (\<lambda>keypair.
     for_each (\<lambda>version.
       let distributor = distributor_of E args (ca_base args) version in
       loop (admin_round client (ca_bs58 args) (ca_priority_fee args) keypair distributor
         (\<lambda>d. md_enable_slot d = slot)
         (\<lambda>d. SetEnableSlot \<lparr>se_distributor = distributor, se_admin = md_admin d\<rparr> slot)
         (\<lambda>tx. call (send_and_confirm client tx))))
       (inclusive_range from_version to_version))"

definition process_set_clawback_start_ts ::
  "('w, 's) rpc \<Rightarrow> solana \<Rightarrow> cli_args \<Rightarrow> u64 \<Rightarrow> u64 \<Rightarrow> i64 \<Rightarrow> ('w, unit) run" where
  "process_set_clawback_start_ts client E args from_version to_version clawback_start_ts =
     seq (of_result (unwrap (ca_keypair args))) (\<lambda>keypair.
     for_each (\<lambda>version.
       let distributor = distributor_of E args (ca_base args) version in
       loop (admin_round client (ca_bs58 args) (ca_priority_fee args) keypair distributor
         (\<lambda>d. md_clawback_start_ts d = clawback_start_ts)
         (\<lambda>d. SetClawbackStartTs \<lparr>st_distributor = distributor, st_admin = md_admin d\<rparr> clawback_start_ts)
         (\<lambda>tx. call (send_and_confirm client tx))))
       (inclusive_range from_version to_version))"

text \<open>The clawback has no base58 mode, and one client for everything.\<close>

definition process_clawback ::
  "('w, 's) rpc \<Rightarrow> solana \<Rightarrow> host \<Rightarrow> cli_args \<Rightarrow> string list option \<Rightarrow> ('w, unit) run" where
  "process_clawback client E H args dir =
     seq (of_result (unwrap (ca_keypair args))) (\<lambda>keypair.
     for_each_file H dir (\<lambda>merkle_tree.
       let distributor = distributor_of E args (ca_base args) (airdrop_version merkle_tree) in
       loop (admin_round client False (ca_priority_fee args) keypair distributor
         md_clawed_back
         (\<lambda>d. Clawback \<lparr>cb_distributor = distributor, cb_from = md_token_vault d,
            cb_to = md_clawback_receiver d, cb_claimant = keypair\<rparr>)
         (send_transaction client client))))"

section \<open>Slots of times\<close>

text \<open>The slot for a time, from the clock of the chain and its recent performance.\<close>

definition fetch_slot_at :: "('w, 's) rpc \<Rightarrow> u64 \<Rightarrow> ('w, u64) run" where
  "fetch_slot_at client enable_time =
     seq (call (get_clock client)) (\<lambda>c.
     seq (of_result (unwrap c)) (\<lambda>(clock_unix_timestamp, current_slot).
     seq (of_result (if 0 \<le> sint clock_unix_timestamp then Inr clock_unix_timestamp
       else Inl UnwrapFailed)) (\<lambda>current_time.
     seq (call (get_recent_performance_samples client)) (\<lambda>s.
     seq (of_result (unwrap s)) (\<lambda>samples.
     seq (of_result (get_average_slot_time samples)) (\<lambda>average_slot_time.
     of_result (slot_at enable_time current_time current_slot average_slot_time)))))))"

text \<open>
  \<open>process_set_enable_slot_by_time\<close>: one transaction for each distributor, and an error panics.  Only the
  branch for a single version asks for a priority fee.
\<close>

definition set_slot_instruction :: "pubkey \<Rightarrow> pubkey \<Rightarrow> u64 \<Rightarrow> client_instruction" where
  "set_slot_instruction keypair distributor slot =
     Program (SetEnableSlot \<lparr>se_distributor = distributor, se_admin = keypair\<rparr> slot)"

definition send_or_panic ::
  "('w, 's) rpc \<Rightarrow> pubkey \<Rightarrow> client_instruction list \<Rightarrow> ('w, unit) run" where
  "send_or_panic client keypair ixs =
     seq (sign_and_send client ixs keypair {keypair} (\<lambda>tx. call (send_and_confirm client tx))) (\<lambda>r.
     of_result (case r of Inr _ \<Rightarrow> Inr () | Inl e \<Rightarrow> Inl UnwrapFailed))"

definition process_set_enable_slot_by_time ::
  "('w, 's) rpc \<Rightarrow> solana \<Rightarrow> host \<Rightarrow> cli_args \<Rightarrow> string list option \<Rightarrow> u64 \<Rightarrow> u64 option \<Rightarrow>
     ('w, unit) run" where
  "process_set_enable_slot_by_time client E H args dir timestamp version =
     seq (of_result (unwrap (ca_keypair args))) (\<lambda>keypair.
     seq (of_result (unwrap dir)) (\<lambda>_.
     seq (fetch_slot_at client timestamp) (\<lambda>slot.
     case version of
       Some v \<Rightarrow>
         send_or_panic client keypair (price_instructions (ca_priority_fee args) @
           [set_slot_instruction keypair (distributor_of E args (ca_base args) v) slot])
     | None \<Rightarrow>
         for_each_file H dir (\<lambda>merkle_tree.
           send_or_panic client keypair
             [set_slot_instruction keypair
                (distributor_of E args (ca_base args) (airdrop_version merkle_tree)) slot]))))"

definition process_get_slot :: "('w, 's) rpc \<Rightarrow> u64 \<Rightarrow> ('w, u64) run" where
  "process_get_slot client timestamp = fetch_slot_at client timestamp"

end
