(* ===== verification/Cli_Delivery.thy ===== *)
theory Cli_Delivery
  imports Cli_Admin
begin

text \<open>
  What the administrating commands rely on when they send a transaction, as the interface \<open>delivery\<close>:
  a node that reads the distributors of one chain, and a way to send that, with a fresh blockhash,
  either applies a transaction the program accepts or fails and comes closer to applying it.  The commands' loops are proved once
  against it.  The provider is a node that executes transactions on the model of the program and loses
  finitely many of them; it is the world in which the commands are run below.
\<close>

section \<open>The interface\<close>

text \<open>The same change made to the distributors at several addresses.\<close>

definition update_all ::
  "(merkle_distributor \<Rightarrow> merkle_distributor) \<Rightarrow> pubkey set \<Rightarrow> chain \<Rightarrow> chain" where
  "update_all u K st =
     st\<lparr>distributors := (\<lambda>k. if k \<in> K then map_option u (distributors st k) else distributors st k)\<rparr>"

lemma update_all_sel [simp]:
  "distributors (update_all u K st) k =
     (if k \<in> K then map_option u (distributors st k) else distributors st k)"
  "token_accounts (update_all u K st) = token_accounts st"
  by (simp_all add: update_all_def)

lemma update_all_empty [simp]: "update_all u {} st = st"
  by (simp add: update_all_def)

lemma put_update_all:
  "distributors st k = Some d \<Longrightarrow> k \<notin> K \<Longrightarrow>
     put_distributor k (u d) (update_all u K st) = update_all u (insert k K) st"
  by (auto simp: put_distributor_def update_all_def fun_eq_iff)

lemma update_all_insert_same:
  "distributors st k = Some d \<Longrightarrow> k \<in> K \<or> u d = d \<Longrightarrow> update_all u (insert k K) st = update_all u K st"
  by (auto simp: update_all_def fun_eq_iff)

locale delivery =
  fixes client :: "('w, 's) rpc"
    and send :: "transaction \<Rightarrow> ('w, string + 'x) run"
    and chain_of :: "'w \<Rightarrow> chain"
    and ready :: "'w \<Rightarrow> bool"
    and fresh :: "'w \<Rightarrow> bool"
    and tries :: "'w \<Rightarrow> nat"
    and execute :: "transaction \<Rightarrow> chain \<Rightarrow> program_error + chain"
  assumes fetch: "fetch_distributor client k w = (distributors (chain_of w) k, w)"
    and blockhash: "\<exists>b w'. get_latest_blockhash client w = (Some b, w') \<and> chain_of w' = chain_of w \<and>
      (ready w \<longrightarrow> ready w' \<and> fresh w') \<and> tries w' = tries w"
    and accepted: "ready w \<Longrightarrow> fresh w \<Longrightarrow> execute tx (chain_of w) = Inr st' \<Longrightarrow>
      succeeds (send tx) w (\<lambda>r w'. ready w' \<and> (case r of Inr _ \<Rightarrow> chain_of w' = st'
        | Inl _ \<Rightarrow> chain_of w' = chain_of w \<and> tries w' < tries w))"
    and refused: "ready w \<Longrightarrow> fresh w \<Longrightarrow> execute tx (chain_of w) = Inl e \<Longrightarrow>
      succeeds (send tx) w (\<lambda>r w'. ready w' \<and> chain_of w' = chain_of w \<and> (\<exists>e'. r = Inl e'))"
begin

text \<open>The transactions that a round may sign.\<close>

abbreviation round_tx :: "u64 option \<Rightarrow> pubkey \<Rightarrow> instruction \<Rightarrow> hash \<Rightarrow> transaction" where
  "round_tx fee keypair ins b \<equiv>
     \<lparr>tr_instructions = price_instructions fee @ [Program ins], tr_payer = keypair,
      tr_signers = {keypair}, tr_blockhash = b\<rparr>"

lemma signs:
  assumes "signer_accounts ins = {keypair}"
  shows "new_signed_with_payer (price_instructions fee @ [Program ins]) keypair {keypair} b =
    Inr (round_tx fee keypair ins b)"
  by (cases fee) (simp_all add: new_signed_with_payer_def price_instructions_def assms)

lemma sign_and_send_succeeds:
  assumes "ready w" and "signer_accounts ins = {keypair}"
    and "\<And>b w'. ready w' \<Longrightarrow> fresh w' \<Longrightarrow> chain_of w' = chain_of w \<Longrightarrow> tries w' = tries w \<Longrightarrow>
      succeeds (send (round_tx fee keypair ins b)) w' Q"
  shows "succeeds (sign_and_send client (price_instructions fee @ [Program ins]) keypair {keypair} send) w Q"
proof -
  from blockhash [of w] assms(1) obtain b w' where b: "get_latest_blockhash client w = (Some b, w')"
    and w': "chain_of w' = chain_of w" "ready w'" "fresh w'" "tries w' = tries w"
    by blast
  from assms(3) [OF w'(2,3,1,4), of b] show ?thesis
    by (simp add: sign_and_send_def b signs [OF assms(2)] succeeds_def)
qed

lemma loop_applies:
  assumes "ready w" and "distributors (chain_of w) k = Some d"
    and "\<not> already d \<Longrightarrow> signer_accounts (ix d) = {keypair}"
    and "\<And>b. \<not> already d \<Longrightarrow> execute (round_tx fee keypair (ix d) b) (chain_of w) = Inr st'"
  shows "succeeds (loop (admin_round client False fee keypair k already ix send)) w
    (\<lambda>_ w'. ready w' \<and> chain_of w' = (if already d then chain_of w else st'))"
proof (rule loop_succeeds [where I = "\<lambda>v. ready v \<and> chain_of v = chain_of w" and m = tries])
  fix v assume v: "ready v \<and> chain_of v = chain_of w"
  show "succeeds (admin_round client False fee keypair k already ix send) v
    (\<lambda>a w'. case a of Some x \<Rightarrow> ready w' \<and> chain_of w' = (if already d then chain_of w else st')
      | None \<Rightarrow> (ready w' \<and> chain_of w' = chain_of w) \<and> tries w' < tries v)"
  proof (cases "already d")
    case True
    with v assms(2) show ?thesis by (simp add: admin_round_def fetch succeeds_def)
  next
    case False
    have "succeeds (sign_and_send client (price_instructions fee @ [Program (ix d)]) keypair {keypair} send) v
      (\<lambda>r w'. ready w' \<and> (case r of Inr _ \<Rightarrow> chain_of w' = st'
        | Inl _ \<Rightarrow> chain_of w' = chain_of v \<and> tries w' < tries v))"
    proof (rule sign_and_send_succeeds [OF _ assms(3) [OF False]])
      fix b w' assume w': "ready w'" "fresh w'" "chain_of w' = chain_of v" "tries w' = tries v"
      with assms(4) [OF False] v have "execute (round_tx fee keypair (ix d) b) (chain_of w') = Inr st'"
        by simp
      from accepted [OF w'(1,2) this]
      show "succeeds (send (round_tx fee keypair (ix d) b)) w' (\<lambda>r w'. ready w' \<and>
          (case r of Inr _ \<Rightarrow> chain_of w' = st'
           | Inl _ \<Rightarrow> chain_of w' = chain_of v \<and> tries w' < tries v))"
        by (elim succeeds_mono) (simp add: w'(3,4) split: sum.splits)
    qed (use v in simp)
    then have "succeeds (seq (sign_and_send client (price_instructions fee @ [Program (ix d)]) keypair
        {keypair} send) (\<lambda>r. ret (case r of Inr _ \<Rightarrow> Some () | Inl e \<Rightarrow> None))) v
      (\<lambda>a w'. case a of Some x \<Rightarrow> ready w' \<and> chain_of w' = (if already d then chain_of w else st')
        | None \<Rightarrow> (ready w' \<and> chain_of w' = chain_of w) \<and> tries w' < tries v)"
      by (intro succeeds_seq, elim succeeds_mono, intro succeeds_ret)
        (use v False in \<open>auto split: sum.splits\<close>)
    moreover have "admin_round client False fee keypair k already ix send v =
      seq (sign_and_send client (price_instructions fee @ [Program (ix d)]) keypair {keypair} send)
        (\<lambda>r. ret (case r of Inr _ \<Rightarrow> Some () | Inl e \<Rightarrow> None)) v"
      by (simp add: admin_round_def fetch v assms(2) False)
    ultimately show ?thesis by (simp only: succeeds_def)
  qed
qed (use assms(1) in simp)

text \<open>An instruction that the program refuses is sent for ever.\<close>

lemma loop_stuck:
  assumes "ready w" and "distributors (chain_of w) k = Some d" and "\<not> already d"
    and "signer_accounts (ix d) = {keypair}"
    and "\<And>b. \<exists>e. execute (round_tx fee keypair (ix d) b) (chain_of w) = Inl e"
  shows "\<not> returns (loop (admin_round client False fee keypair k already ix send)) w"
proof (rule loop_diverges [where I = "\<lambda>v. ready v \<and> chain_of v = chain_of w"])
  fix v assume v: "ready v \<and> chain_of v = chain_of w"
  have "succeeds (sign_and_send client (price_instructions fee @ [Program (ix d)]) keypair {keypair} send) v
      (\<lambda>r w'. ready w' \<and> chain_of w' = chain_of v \<and> (\<exists>e'. r = Inl e'))"
  proof (rule sign_and_send_succeeds [OF _ assms(4)])
    fix b w' assume w': "ready w'" "fresh w'" "chain_of w' = chain_of v"
    from assms(5) v w'(3) obtain e where "execute (round_tx fee keypair (ix d) b) (chain_of w') = Inl e"
      by auto
    from refused [OF w'(1,2) this]
    show "succeeds (send (round_tx fee keypair (ix d) b)) w'
      (\<lambda>r w'. ready w' \<and> chain_of w' = chain_of v \<and> (\<exists>e'. r = Inl e'))"
      by (elim succeeds_mono) (simp add: w'(3))
  qed (use v in simp)
  with v assms(2,3) show "\<exists>w'. admin_round client False fee keypair k already ix send v =
      Some (Inr None, w') \<and> ready w' \<and> chain_of w' = chain_of w"
    by (auto simp: admin_round_def fetch succeeds_def)
qed (use assms(1) in simp)

text \<open>The loops of a whole command, for the addresses of its files or versions.\<close>

lemma all_apply:
  fixes address :: "'k \<Rightarrow> pubkey"
  assumes "ready w"
    and runs: "\<And>x w Q. x \<in> set xs \<Longrightarrow>
      succeeds (loop (admin_round client False fee keypair (address x) already (ix (address x)) send)) w Q \<Longrightarrow>
      succeeds (body x) w Q"
    and exists: "\<And>x. x \<in> set xs \<Longrightarrow> \<exists>d. distributors (chain_of w) (address x) = Some d \<and>
      (\<not> already d \<longrightarrow> signer_accounts (ix (address x) d) = {keypair} \<and>
        (\<forall>st b. distributors st (address x) = Some d \<longrightarrow> token_accounts st = token_accounts (chain_of w) \<longrightarrow>
          execute (round_tx fee keypair (ix (address x) d) b) st = Inr (put_distributor (address x) (u d) st)))"
    and already: "\<And>d. already d \<Longrightarrow> u d = d" "\<And>d. already (u d)"
  shows "succeeds (for_each body xs) w
    (\<lambda>_ w'. ready w' \<and> chain_of w' = update_all u (address ` set xs) (chain_of w))"
proof (rule for_each_succeeds
    [where I = "\<lambda>ys v. ready v \<and> chain_of v = update_all u (address ` set ys) (chain_of w)"])
  fix ys x zs v
  let ?K = "address ` set ys" and ?k = "address x"
  assume xs: "xs = ys @ x # zs" and v: "ready v \<and> chain_of v = update_all u ?K (chain_of w)"
  then have x: "x \<in> set xs" by simp
  from exists [OF x] obtain d where d: "distributors (chain_of w) ?k = Some d"
    and ex: "\<not> already d \<Longrightarrow> signer_accounts (ix ?k d) = {keypair}"
      "\<And>st b. \<not> already d \<Longrightarrow> distributors st ?k = Some d \<Longrightarrow>
        token_accounts st = token_accounts (chain_of w) \<Longrightarrow>
        execute (round_tx fee keypair (ix ?k d) b) st = Inr (put_distributor ?k (u d) st)"
    by blast
  define d' where "d' = (if ?k \<in> ?K then u d else d)"
  have now: "distributors (chain_of v) ?k = Some d'" using v d by (simp add: d'_def)
  have fresh: "d' = d" "?k \<notin> ?K" if "\<not> already d'"
    using that already(2) by (auto simp: d'_def split: if_splits)
  have "succeeds (loop (admin_round client False fee keypair ?k already (ix ?k) send)) v
    (\<lambda>_ w'. ready w' \<and> chain_of w' =
      (if already d' then chain_of v else put_distributor ?k (u d') (chain_of v)))"
    by (rule loop_applies [OF _ now]) (use v fresh ex now in auto)
  moreover have "(if already d' then chain_of v else put_distributor ?k (u d') (chain_of v)) =
      update_all u (address ` set (ys @ [x])) (chain_of w)"
  proof (cases "already d'")
    case True
    then have "?k \<in> ?K \<or> u d = d" using already(1) by (auto simp: d'_def split: if_splits)
    with True v d show ?thesis by (simp add: update_all_insert_same)
  next
    case False
    with fresh v d show ?thesis by (simp add: put_update_all)
  qed
  ultimately show "succeeds (body x) v
    (\<lambda>_ w'. ready w' \<and> chain_of w' = update_all u (address ` set (ys @ [x])) (chain_of w))"
    by (intro runs [OF x]) simp
qed (use assms(1) in simp)

end

end
