(* ===== verification/Cli_Node.thy ===== *)
theory Cli_Node
  imports Cli_Delivery
begin

text \<open>
  A node that executes transactions on the model of the program: it loses the next \<open>nw_faults\<close>
  transactions, and its blockhashes live for a number of attempts.  A transaction is its own signature
  and is executed once.  The ways of sending of the commands are interpreted against \<open>delivery\<close>, and
  the commands are run on it.  How the token program creates an account and how the node finds the
  claim statuses that match a filter are arguments.
\<close>

section \<open>The node\<close>

record node_world =
  nw_chain :: chain
  nw_faults :: nat
  nw_life :: nat
  nw_landed :: "transaction list"
  nw_printed :: "(client_instruction list \<times> pubkey) list"

text \<open>What stays the same while the tool runs.\<close>

record node_config =
  cf_runtime :: solana
  cf_create_token_account :: "pubkey \<Rightarrow> pubkey \<Rightarrow> pubkey \<Rightarrow> chain \<Rightarrow> program_error + chain"
  cf_program_accounts :: "rpc_filter list \<Rightarrow> chain \<Rightarrow> (pubkey \<times> claim_status) list option"
  cf_program :: pubkey
  cf_time :: i64
  cf_slot :: u64
  cf_lifetime :: nat

definition node_tx :: "node_config \<Rightarrow> pubkey set \<Rightarrow> tx" where
  "node_tx C keys = \<lparr>unix_timestamp = cf_time C, clock_slot = cf_slot C, signers = keys,
     program_id = cf_program C\<rparr>"

fun execute_one :: "node_config \<Rightarrow> pubkey set \<Rightarrow> client_instruction \<Rightarrow> chain \<Rightarrow> program_error + chain" where
  "execute_one C keys (SetLimit units) st = Inr st"
| "execute_one C keys (SetPrice fee) st = Inr st"
| "execute_one C keys (CreateTokenAccount payer wallet mint) st =
     cf_create_token_account C payer wallet mint st"
| "execute_one C keys (TokenTransfer from to authority amt) st =
     and_then (require (authority \<in> keys) MissingRequiredSignature) (\<lambda>_.
     and_then (spl_transfer (cf_runtime C) (token_accounts st) from to authority amt) (\<lambda>accs.
     Inr (st\<lparr>token_accounts := accs\<rparr>)))"
| "execute_one C keys (Program ins) st = process_instruction (cf_runtime C) (node_tx C keys) ins st"

fun execute_all ::
  "node_config \<Rightarrow> pubkey set \<Rightarrow> client_instruction list \<Rightarrow> chain \<Rightarrow> program_error + chain" where
  "execute_all C keys [] st = Inr st"
| "execute_all C keys (ix # ixs) st = and_then (execute_one C keys ix st) (execute_all C keys ixs)"

definition execute :: "node_config \<Rightarrow> transaction \<Rightarrow> chain \<Rightarrow> program_error + chain" where
  "execute C tx st = execute_all C (tr_signers tx) (tr_instructions tx) st"

lemma execute_all_append [simp]:
  "execute_all C keys (xs @ ys) st = and_then (execute_all C keys xs st) (execute_all C keys ys)"
proof (induction xs arbitrary: st)
  case (Cons ix xs)
  then show ?case by (cases "execute_one C keys ix st") simp_all
qed simp

lemma execute_price [simp]: "execute_all C keys (price_instructions fee) st = Inr st"
  by (simp add: price_instructions_def split: option.split)

lemma execute_program:
  "execute C \<lparr>tr_instructions = price_instructions fee @ [Program ins], tr_payer = p, tr_signers = keys,
     tr_blockhash = b\<rparr> st = process_instruction (cf_runtime C) (node_tx C keys) ins st"
  by (cases "process_instruction (cf_runtime C) (node_tx C keys) ins st") (simp_all add: execute_def)

definition land :: "node_config \<Rightarrow> transaction \<Rightarrow> node_world \<Rightarrow> node_world" where
  "land C tx w =
     (if tx \<in> set (nw_landed w) then w
      else case execute C tx (nw_chain w) of
        Inr st \<Rightarrow> w\<lparr>nw_chain := st, nw_landed := tx # nw_landed w\<rparr>
      | Inl e \<Rightarrow> w)"

definition chain_node :: "node_config \<Rightarrow> (node_world, transaction) rpc" where
  "chain_node C =
     \<lparr>fetch_distributor = (\<lambda>k w. (distributors (nw_chain w) k, w)),
      fetch_token_account = (\<lambda>k w. (ok_or (token_accounts (nw_chain w) k) ''AccountNotFound'', w)),
      get_account_with_commitment = (\<lambda>k w. (Inr (case distributors (nw_chain w) k of
        Some d \<Rightarrow> Some (Some d) | None \<Rightarrow> if in_use (nw_chain w) k then Some None else None), w)),
      get_account_answer = (\<lambda>k w. (if in_use (nw_chain w) k then AccountFound else AccountNotFound, w)),
      program_accounts = (\<lambda>filters w. (cf_program_accounts C filters (nw_chain w), w)),
      signature_status = (\<lambda>tx w. (Inr (if tx \<in> set (nw_landed w) then Some (Inr ()) else None), w)),
      get_account_data_is_ok = (\<lambda>k w. (in_use (nw_chain w) k, w)),
      get_clock = (\<lambda>w. (Some (cf_time C, cf_slot C), w)),
      get_recent_performance_samples = (\<lambda>w. (Some [], w)),
      get_latest_blockhash = (\<lambda>w. (Some (fill32 0), w\<lparr>nw_life := cf_lifetime C, nw_landed := []\<rparr>)),
      simulate_transaction = (\<lambda>tx w. (Inr (case execute C tx (nw_chain w) of
        Inr _ \<Rightarrow> None | Inl _ \<Rightarrow> Some ''InstructionError''), w)),
      is_blockhash_valid = (\<lambda>b w. (Inr (0 < nw_life w), w)),
      send_transaction_with_config = (\<lambda>tx w. (Inr tx,
        if 0 < nw_faults w then w\<lparr>nw_faults := nw_faults w - 1\<rparr> else land C tx w)),
      confirm_transaction = (\<lambda>tx w. (Inr (tx \<in> set (nw_landed w)), w)),
      client_send_transaction = (\<lambda>tx w. case execute C tx (nw_chain w) of
        Inl e \<Rightarrow> (Inl ''Transaction simulation failed'', w)
      | Inr _ \<Rightarrow> (Inr tx, if 0 < nw_faults w then w\<lparr>nw_faults := nw_faults w - 1\<rparr> else land C tx w)),
      send_and_confirm = (\<lambda>tx w. case execute C tx (nw_chain w) of
        Inl e \<Rightarrow> (Inl ''Transaction simulation failed'', w)
      | Inr st \<Rightarrow> if 0 < nw_faults w then (Inl ''unable to confirm transaction'', w\<lparr>nw_faults := nw_faults w - 1\<rparr>)
          else (Inr tx, w\<lparr>nw_chain := st, nw_landed := tx # nw_landed w\<rparr>)),
      print_message = (\<lambda>ixs payer w. ((), w\<lparr>nw_printed := nw_printed w @ [(ixs, payer)]\<rparr>)),
      sleep_ms = (\<lambda>ms w. ((), w\<lparr>nw_life := nw_life w - 1\<rparr>))\<rparr>"

lemma chain_node_sel [simp]:
  "fetch_distributor (chain_node C) k w = (distributors (nw_chain w) k, w)"
  "fetch_token_account (chain_node C) k w = (ok_or (token_accounts (nw_chain w) k) ''AccountNotFound'', w)"
  "get_account_data_is_ok (chain_node C) k w = (in_use (nw_chain w) k, w)"
  "get_latest_blockhash (chain_node C) w = (Some (fill32 0), w\<lparr>nw_life := cf_lifetime C, nw_landed := []\<rparr>)"
  "is_blockhash_valid (chain_node C) b w = (Inr (0 < nw_life w), w)"
  "send_transaction_with_config (chain_node C) tx w = (Inr tx,
     if 0 < nw_faults w then w\<lparr>nw_faults := nw_faults w - 1\<rparr> else land C tx w)"
  "confirm_transaction (chain_node C) tx w = (Inr (tx \<in> set (nw_landed w)), w)"
  "print_message (chain_node C) ixs p w = ((), w\<lparr>nw_printed := nw_printed w @ [(ixs, p)]\<rparr>)"
  "sleep_ms (chain_node C) ms w = ((), w\<lparr>nw_life := nw_life w - 1\<rparr>)"
  by (simp_all add: chain_node_def)

section \<open>Its ways of sending\<close>

text \<open>\<open>send_and_confirm_transaction\<close> delivers, whatever is lost.\<close>

interpretation confirmed: delivery "chain_node C" "\<lambda>tx. call (send_and_confirm (chain_node C) tx)"
    nw_chain "\<lambda>_. True" "\<lambda>_. True" nw_faults "execute C"
  for C :: node_config
  by unfold_locales (auto simp: chain_node_def succeeds_def split: sum.split)

text \<open>\<open>RpcClient::send_transaction\<close> only delivers when nothing is lost.\<close>

interpretation unconfirmed: delivery "chain_node C"
    "\<lambda>tx. call (client_send_transaction (chain_node C) tx)"
    nw_chain "\<lambda>w. nw_faults w = 0" "\<lambda>w. nw_landed w = []" "\<lambda>_. 0" "execute C"
  for C :: node_config
  by unfold_locales (auto simp: chain_node_def succeeds_def land_def split: sum.split)

text \<open>\<open>send_transaction\<close> delivers when fewer transactions are lost than a blockhash lives for.\<close>

lemma send_attempt_node:
  assumes "execute C tx (nw_chain w) = Inr st'" and "nw_landed w = []" and "nw_faults w < nw_life w"
  shows "send_attempt (chain_node C) (chain_node C) tx w =
    (if 0 < nw_faults w
     then Some (Inr None, w\<lparr>nw_faults := nw_faults w - 1, nw_life := nw_life w - 1\<rparr>)
     else Some (Inr (Some (Inr ())), w\<lparr>nw_chain := st', nw_landed := [tx], nw_life := nw_life w - 1\<rparr>))"
  using assms by (simp add: send_attempt_def land_def)

lemma send_transaction_accepted:
  assumes "execute C tx (nw_chain w) = Inr st'" and "nw_landed w = []" and "nw_faults w < nw_life w"
  shows "succeeds (send_transaction (chain_node C) (chain_node C) tx) w (\<lambda>r w'.
    r = Inr () \<and> nw_chain w' = st' \<and> nw_faults w' = 0)"
proof -
  have "succeeds (loop (send_attempt (chain_node C) (chain_node C) tx)) w (\<lambda>r w'.
    r = Inr () \<and> nw_chain w' = st' \<and> nw_faults w' = 0)"
    by (rule loop_succeeds [where m = nw_faults and I = "\<lambda>v. nw_chain v = nw_chain w \<and>
        nw_landed v = [] \<and> nw_faults v < nw_life v"])
      (use assms in \<open>auto simp: send_attempt_node succeeds_def\<close>)
  then show ?thesis
    using assms(1) by (simp add: send_transaction_def succeeds_def chain_node_def)
qed

lemma send_transaction_refused:
  assumes "execute C tx (nw_chain w) = Inl e"
  shows "send_transaction (chain_node C) (chain_node C) tx w = Some (Inr (Inl ''InstructionError''), w)"
  using assms by (simp add: send_transaction_def chain_node_def)

interpretation resent: delivery "chain_node C" "send_transaction (chain_node C) (chain_node C)"
    nw_chain "\<lambda>w. nw_faults w < cf_lifetime C"
    "\<lambda>w. nw_landed w = [] \<and> nw_life w = cf_lifetime C" nw_faults "execute C"
  for C :: node_config
proof unfold_locales
  fix w :: node_world and tx st'
  assume "nw_faults w < cf_lifetime C" "nw_landed w = [] \<and> nw_life w = cf_lifetime C"
    "execute C tx (nw_chain w) = Inr st'"
  then have "succeeds (send_transaction (chain_node C) (chain_node C) tx) w (\<lambda>r w'.
      r = Inr () \<and> nw_chain w' = st' \<and> nw_faults w' = 0)" and "0 < cf_lifetime C"
    by (simp_all add: send_transaction_accepted)
  then show "succeeds (send_transaction (chain_node C) (chain_node C) tx) w (\<lambda>r w'.
      nw_faults w' < cf_lifetime C \<and> (case r of Inl x \<Rightarrow> nw_chain w' = nw_chain w \<and> nw_faults w' < nw_faults w
        | Inr x \<Rightarrow> nw_chain w' = st'))"
    by (elim succeeds_mono) simp
qed (auto simp: succeeds_def send_transaction_refused)

end
