(* ===== verification/Cli_Funding.thy ===== *)
theory Cli_Funding
  imports Cli_Network
begin

text \<open>
  The commands that create, fund and close the distributors of a directory of files:
  \<open>process_new_distributor.rs\<close>, \<open>process_fund_all.rs\<close> and \<open>proccess_close_distribitor.rs\<close>.  The first two
  repeat the whole pass over the directory, at most ten times, until no file fails.
\<close>

section \<open>Retries\<close>

text \<open>
  \<open>for i in (1..10).rev()\<close>: a pass that fails is followed by a pause of five seconds, and the last of
  the nine rounds ends with a pass whose failure panics.
\<close>

definition retry_round ::
  "('w, 's) rpc \<Rightarrow> ('w, string + unit) run \<Rightarrow> nat \<Rightarrow> unit \<Rightarrow> ('w, (unit, unit) flow) run" where
  "retry_round client pass i _ =
     seq pass (\<lambda>r.
     case r of
       Inr _ \<Rightarrow> ret (Return ())
     | Inl e \<Rightarrow>
         seq (call (sleep_ms client 5000)) (\<lambda>_.
         if i = 1
         then seq pass (\<lambda>r. of_result (case r of Inr _ \<Rightarrow> Inr (Continue ()) | Inl e \<Rightarrow> Inl UnwrapFailed))
         else ret (Continue ())))"

definition retry_passes :: "('w, 's) rpc \<Rightarrow> ('w, string + unit) run \<Rightarrow> ('w, unit) run" where
  "retry_passes client pass =
     seq (for_loop (retry_round client pass) (rev [1..<10]) ()) (\<lambda>_. ret ())"

text \<open>How a pass over the files ends: with the first \<open>?\<close> that failed, or with the flag of failures.\<close>

definition pass_result :: "string \<Rightarrow> (bool, string) flow \<Rightarrow> string + unit" where
  "pass_result message c =
     (case c of
        Return e \<Rightarrow> Inl e
      | Continue is_error \<Rightarrow> if is_error then Inl message else Inr ()
      | Break is_error \<Rightarrow> if is_error then Inl message else Inr ())"

section \<open>\<open>process_fund_all\<close>\<close>

definition fund_one ::
  "('w, 's) rpc \<Rightarrow> ('w, 's) rpc \<Rightarrow> solana \<Rightarrow> host \<Rightarrow> cli_args \<Rightarrow> pubkey \<Rightarrow> string \<Rightarrow> bool \<Rightarrow>
     ('w, (bool, string) flow) run" where
  "fund_one client send_client E H args keypair path is_error =
     seq (of_result (unwrap_result (new_from_file H path))) (\<lambda>merkle_tree.
     let distributor = distributor_of E args (ca_base args) (airdrop_version merkle_tree);
         source_vault = get_associated_token_address E keypair (ca_mint args);
         token_vault = get_associated_token_address E distributor (ca_mint args) in
     seq (call (fetch_token_account client token_vault)) (\<lambda>account.
     case account of
       Inl e \<Rightarrow> ret (Return e)
     | Inr token_vault_state \<Rightarrow>
         if at_max_total_claim merkle_tree \<le> ta_amount token_vault_state then ret (Continue is_error)
         else
           seq (sign_and_send client (price_instructions (ca_priority_fee args) @
             [TokenTransfer source_vault token_vault keypair (at_max_total_claim merkle_tree)])
             keypair {keypair} (send_transaction client send_client)) (\<lambda>r.
           ret (Continue (case r of Inr _ \<Rightarrow> is_error | Inl e \<Rightarrow> True)))))"

definition fund_all ::
  "('w, 's) rpc \<Rightarrow> ('w, 's) rpc \<Rightarrow> solana \<Rightarrow> host \<Rightarrow> cli_args \<Rightarrow> string list option \<Rightarrow>
     ('w, string + unit) run" where
  "fund_all client send_client E H args dir =
     seq (of_result (unwrap (ca_keypair args))) (\<lambda>keypair.
     seq (of_result (unwrap dir)) (\<lambda>paths.
     seq (for_loop (fund_one client send_client E H args keypair) (sort paths) False) (\<lambda>c.
     ret (pass_result ''There are some error when fund merkle tree, retrying'' c))))"

definition process_fund_all ::
  "('w, 's) rpc \<Rightarrow> ('w, 's) rpc \<Rightarrow> solana \<Rightarrow> host \<Rightarrow> cli_args \<Rightarrow> string list option \<Rightarrow> ('w, unit) run" where
  "process_fund_all client send_client E H args dir =
     retry_passes client (fund_all client send_client E H args dir)"

section \<open>\<open>process_new_distributor\<close>\<close>

record new_distributor_options =
  no_base :: "pubkey option"
  no_airdrop_version :: "u64 option"
  no_skip_verify :: bool
  no_options :: distributor_options

text \<open>An associated token account is created unless the node finds something there.\<close>

definition create_if_missing ::
  "('w, 's) rpc \<Rightarrow> solana \<Rightarrow> pubkey \<Rightarrow> pubkey \<Rightarrow> pubkey \<Rightarrow> ('w, client_instruction list) run" where
  "create_if_missing client E payer owner mint =
     seq (call (get_account_data_is_ok client (get_associated_token_address E owner mint))) (\<lambda>ok.
     ret (if ok then [] else [CreateTokenAccount payer owner mint]))"

text \<open>\<open>check_distributor_onchain_matches(..).expect(..)\<close>.\<close>

definition expect_match ::
  "solana \<Rightarrow> cli_args \<Rightarrow> new_distributor_options \<Rightarrow> pubkey \<Rightarrow> pubkey \<Rightarrow> airdrop_merkle_tree \<Rightarrow>
     merkle_distributor option \<Rightarrow> panic + unit" where
  "expect_match E args opts keypair base merkle_tree account =
     (case check_distributor_onchain_matches E account merkle_tree (no_options opts) keypair base
        (ca_mint args) of
        Inr _ \<Rightarrow> Inr ()
      | Inl e \<Rightarrow> Inl UnwrapFailed)"

text \<open>What follows the transaction: its result, and a second look at the distributor.\<close>

definition send_new_distributor ::
  "('w, 's) rpc \<Rightarrow> ('w, 's) rpc \<Rightarrow> solana \<Rightarrow> cli_args \<Rightarrow> new_distributor_options \<Rightarrow> pubkey \<Rightarrow> pubkey \<Rightarrow>
     airdrop_merkle_tree \<Rightarrow> bool \<Rightarrow> transaction \<Rightarrow> ('w, string + bool) run" where
  "send_new_distributor client send_client E args opts keypair base merkle_tree is_error tx =
     (if no_skip_verify opts
      then seq (call (client_send_transaction send_client tx)) (\<lambda>r.
        ret (Inr (case r of Inr _ \<Rightarrow> is_error | Inl e \<Rightarrow> True)))
      else
        seq (send_transaction client send_client tx) (\<lambda>r.
        let is_error = (case r of Inr _ \<Rightarrow> is_error | Inl e \<Rightarrow> True) in
        seq (call (get_account_with_commitment client
          (distributor_of E args base (airdrop_version merkle_tree)))) (\<lambda>a.
        case a of
          Inl e \<Rightarrow> ret (Inl e)
        | Inr None \<Rightarrow> ret (Inr is_error)
        | Inr (Some account) \<Rightarrow>
            seq (of_result (expect_match E args opts keypair base merkle_tree account)) (\<lambda>_.
            ret (Inr is_error)))))"

text \<open>The transaction for a distributor that was not found.\<close>

definition create_missing ::
  "('w, 's) rpc \<Rightarrow> ('w, 's) rpc \<Rightarrow> solana \<Rightarrow> cli_args \<Rightarrow> new_distributor_options \<Rightarrow> pubkey \<Rightarrow> pubkey \<Rightarrow>
     airdrop_merkle_tree \<Rightarrow> bool \<Rightarrow> ('w, string + bool) run" where
  "create_missing client send_client E args opts keypair base merkle_tree is_error =
     seq (create_if_missing client E keypair (distributor_of E args base (airdrop_version merkle_tree))
       (ca_mint args)) (\<lambda>create_vault.
     seq (create_if_missing client E keypair (do_clawback_receiver_owner (no_options opts))
       (ca_mint args)) (\<lambda>create_receiver.
     sign_and_send client
       (price_instructions (ca_priority_fee args) @ create_vault @ create_receiver @
          [Program (create_distributor_instruction E (ca_program_id args) base (ca_mint args) keypair
             (no_options opts) merkle_tree)])
       keypair {keypair, base}
       (send_new_distributor client send_client E args opts keypair base merkle_tree is_error)))"

definition create_one ::
  "('w, 's) rpc \<Rightarrow> ('w, 's) rpc \<Rightarrow> solana \<Rightarrow> host \<Rightarrow> cli_args \<Rightarrow> new_distributor_options \<Rightarrow> pubkey \<Rightarrow> pubkey \<Rightarrow>
     string \<Rightarrow> bool \<Rightarrow> ('w, (bool, string) flow) run" where
  "create_one client send_client E H args opts keypair base path is_error =
     seq (of_result (unwrap_result (new_from_file H path))) (\<lambda>merkle_tree.
     if (case no_airdrop_version opts of Some v \<Rightarrow> v \<noteq> airdrop_version merkle_tree | None \<Rightarrow> False)
     then ret (Continue is_error)
     else
       let distributor = distributor_of E args base (airdrop_version merkle_tree) in
       seq (call (get_account_with_commitment client distributor)) (\<lambda>a.
       case a of
         Inl e \<Rightarrow> ret (Return e)
       | Inr (Some account) \<Rightarrow>
           seq (of_result (expect_match E args opts keypair base merkle_tree account)) (\<lambda>_.
           ret (Continue is_error))
       | Inr None \<Rightarrow>
           seq (create_missing client send_client E args opts keypair base merkle_tree is_error) (\<lambda>r.
           ret (case r of
               Inl e \<Rightarrow> Return e
             | Inr is_error \<Rightarrow>
                 if no_airdrop_version opts = Some (airdrop_version merkle_tree)
                 then Break is_error else Continue is_error))))"

definition create_new_distributor ::
  "('w, 's) rpc \<Rightarrow> ('w, 's) rpc \<Rightarrow> solana \<Rightarrow> host \<Rightarrow> cli_args \<Rightarrow> new_distributor_options \<Rightarrow>
     string list option \<Rightarrow> ('w, string + unit) run" where
  "create_new_distributor client send_client E H args opts dir =
     seq (of_result (unwrap (ca_keypair args))) (\<lambda>keypair.
     seq (of_result (unwrap (no_base opts))) (\<lambda>base.
     seq (of_result (unwrap dir)) (\<lambda>paths.
     seq (for_loop (create_one client send_client E H args opts keypair base) (sort paths) False) (\<lambda>c.
     ret (pass_result ''There are some error when create merkle tree, retrying'' c)))))"

definition process_new_distributor ::
  "('w, 's) rpc \<Rightarrow> ('w, 's) rpc \<Rightarrow> solana \<Rightarrow> host \<Rightarrow> cli_args \<Rightarrow> new_distributor_options \<Rightarrow>
     string list option \<Rightarrow> ('w, unit) run" where
  "process_new_distributor client send_client E H args opts dir =
     retry_passes client (create_new_distributor client send_client E H args opts dir)"

section \<open>\<open>process_close_distributor\<close>\<close>

definition close_existing ::
  "('w, 's) rpc \<Rightarrow> solana \<Rightarrow> cli_args \<Rightarrow> pubkey \<Rightarrow> pubkey \<Rightarrow> merkle_distributor \<Rightarrow> ('w, string + 's) run" where
  "close_existing client E args keypair distributor d =
     seq (create_if_missing client E keypair keypair (ca_mint args)) (\<lambda>create.
     sign_and_send client
       (price_instructions (ca_priority_fee args) @ create @
          [Program (CloseDistributor \<lparr>cd_distributor = distributor, cd_token_vault = md_token_vault d,
             cd_admin = keypair, cd_destination_token_account =
               get_associated_token_address E keypair (ca_mint args)\<rparr>)])
       keypair {keypair} (\<lambda>tx. call (client_send_transaction client tx)))"

definition close_one ::
  "('w, 's) rpc \<Rightarrow> solana \<Rightarrow> host \<Rightarrow> cli_args \<Rightarrow> u64 option \<Rightarrow> string \<Rightarrow> unit \<Rightarrow> ('w, (unit, unit) flow) run" where
  "close_one client E H args version path _ =
     seq (of_result (unwrap_result (new_from_file H path))) (\<lambda>merkle_tree.
     if (case version of Some v \<Rightarrow> v \<noteq> airdrop_version merkle_tree | None \<Rightarrow> False)
     then ret (Continue ())
     else
       let distributor = distributor_of E args (ca_base args) (airdrop_version merkle_tree) in
       seq (of_result (unwrap (ca_keypair args))) (\<lambda>keypair.
       seq (call (fetch_distributor client distributor)) (\<lambda>account.
       case account of
         None \<Rightarrow> ret (Continue ())
       | Some d \<Rightarrow>
           seq (close_existing client E args keypair distributor d) (\<lambda>_.
           ret (if version = Some (airdrop_version merkle_tree) then Break () else Continue ())))))"

definition process_close_distributor ::
  "('w, 's) rpc \<Rightarrow> solana \<Rightarrow> host \<Rightarrow> cli_args \<Rightarrow> string list option \<Rightarrow> u64 option \<Rightarrow> ('w, unit) run" where
  "process_close_distributor client E H args dir version =
     seq (of_result (unwrap dir)) (\<lambda>paths.
     seq (for_loop (close_one client E H args version) (sort paths) ()) (\<lambda>_. ret ()))"

section \<open>The passes come to an end\<close>

lemma sign_and_send_returns [returns_intro]:
  "(\<And>tx w. returns (send tx) w) \<Longrightarrow> returns (sign_and_send client ixs payer keys send) w"
  unfolding sign_and_send_def by (intro returns_seq returns_simps)

lemma fund_one_returns:
  assumes "\<And>tx w. returns (send_transaction client send_client tx) w"
  shows "returns (fund_one client send_client E H args keypair path is_error) w"
  unfolding fund_one_def Let_def
  by (intro returns_seq returns_simps) (auto intro!: returns_seq sign_and_send_returns assms split: sum.split)

lemma fund_all_returns:
  assumes "\<And>tx w. returns (send_transaction client send_client tx) w"
  shows "returns (fund_all client send_client E H args dir) w"
  unfolding fund_all_def
  by (intro returns_seq returns_simps for_loop_returns fund_one_returns assms)

lemma create_if_missing_returns [simp]: "returns (create_if_missing client E payer owner mint) w"
  unfolding create_if_missing_def by (intro returns_seq returns_simps)

lemma send_new_distributor_returns:
  assumes "\<And>tx w. returns (send_transaction client send_client tx) w"
  shows "returns (send_new_distributor client send_client E args opts keypair base t is_error tx) w"
  unfolding send_new_distributor_def Let_def
  by (auto intro!: returns_seq assms split: sum.split option.split)

lemma create_missing_returns:
  assumes "\<And>tx w. returns (send_transaction client send_client tx) w"
  shows "returns (create_missing client send_client E args opts keypair base t is_error) w"
  unfolding create_missing_def
  by (intro returns_seq create_if_missing_returns sign_and_send_returns send_new_distributor_returns assms)

lemma create_one_returns:
  assumes "\<And>tx w. returns (send_transaction client send_client tx) w"
  shows "returns (create_one client send_client E H args opts keypair base path is_error) w"
  unfolding create_one_def Let_def
  by (intro returns_seq returns_simps)
    (auto intro!: returns_seq create_missing_returns assms split: sum.split option.split if_split)

lemma create_new_distributor_returns:
  assumes "\<And>tx w. returns (send_transaction client send_client tx) w"
  shows "returns (create_new_distributor client send_client E H args opts dir) w"
  unfolding create_new_distributor_def
  by (intro returns_seq returns_simps for_loop_returns create_one_returns assms)

lemma retry_passes_returns:
  assumes "\<And>w. returns pass w"
  shows "returns (retry_passes client pass) w"
  unfolding retry_passes_def retry_round_def
  by (intro returns_seq for_loop_returns returns_simps assms)
    (auto intro!: returns_seq assms split: sum.split)

section \<open>The number of passes\<close>

text \<open>\<open>ws\<close> are the worlds in which the passes start, each after the pause that follows a failure.\<close>

definition failing_passes ::
  "('w, 's) rpc \<Rightarrow> ('w, string + unit) run \<Rightarrow> nat \<Rightarrow> (nat \<Rightarrow> 'w) \<Rightarrow> bool" where
  "failing_passes client pass n ws \<longleftrightarrow> (\<forall>i<n. \<exists>e v. pass (ws i) = Some (Inr (Inl e), v) \<and>
     ws (Suc i) = snd (sleep_ms client 5000 v))"

lemma failing_passes_Suc:
  "failing_passes client pass (Suc n) ws \<longleftrightarrow>
     (\<exists>e v. pass (ws 0) = Some (Inr (Inl e), v) \<and> ws 1 = snd (sleep_ms client 5000 v)) \<and>
     failing_passes client pass n (\<lambda>i. ws (Suc i))"
  by (auto simp: failing_passes_def less_Suc_eq_0_disj)

lemma retry_loop_outcome:
  assumes "failing_passes client pass n ws" and "n \<le> m" and "0 < m"
    and "pass (ws n) = Some (Inr r, v)" and "r = Inr () \<or> n = m"
  shows "\<exists>c. for_loop (retry_round client pass) (rev [1..<Suc m]) () (ws 0) =
    Some (case r of Inr _ \<Rightarrow> Inr c | Inl e \<Rightarrow> Inl UnwrapFailed, v)"
  using assms
proof (induction m arbitrary: n ws)
  case (Suc m)
  show ?case
  proof (cases n)
    case 0
    with Suc.prems show ?thesis by (simp add: retry_round_def)
  next
    case (Suc n')
    with Suc.prems(1) obtain e u where p: "pass (ws 0) = Some (Inr (Inl e), u)"
      "ws 1 = snd (sleep_ms client 5000 u)" and rest: "failing_passes client pass n' (\<lambda>i. ws (Suc i))"
      by (auto simp: failing_passes_Suc)
    show ?thesis
    proof (cases "m = 0")
      case True
      with Suc Suc.prems(2,4) have "pass (ws 1) = Some (Inr r, v)" by simp
      with p True show ?thesis by (cases r) (simp_all add: retry_round_def)
    next
      case False
      with Suc Suc.prems rest Suc.IH [of n' "\<lambda>i. ws (Suc i)"] have
        "\<exists>c. for_loop (retry_round client pass) (rev [1..<Suc m]) () (ws 1) =
          Some (case r of Inr _ \<Rightarrow> Inr c | Inl e \<Rightarrow> Inl UnwrapFailed, v)" by auto
      moreover from p False have "retry_round client pass (Suc m) () (ws 0) = Some (Inr (Continue ()), ws 1)"
        by (simp add: retry_round_def)
      moreover have "rev [1..<Suc (Suc m)] = Suc m # rev [1..<Suc m]" by simp
      ultimately show ?thesis by (simp only: for_loop.simps seq_simps flow.case)
    qed
  qed
qed simp

lemma retry_passes_outcome:
  assumes "failing_passes client pass n ws" and "n \<le> 9" and "pass (ws n) = Some (Inr r, v)"
    and "r = Inr () \<or> n = 9"
  shows "retry_passes client pass (ws 0) =
    Some (case r of Inr _ \<Rightarrow> Inr () | Inl e \<Rightarrow> Inl UnwrapFailed, v)"
proof -
  from retry_loop_outcome [OF assms(1,2) _ assms(3,4)] obtain c where
    "for_loop (retry_round client pass) (rev [1..<10]) () (ws 0) =
      Some (case r of Inr _ \<Rightarrow> Inr c | Inl e \<Rightarrow> Inl UnwrapFailed, v)" by auto
  then show ?thesis by (cases r) (simp_all add: retry_passes_def)
qed

end
