(* ===== verification/Tool_Instance.thy ===== *)
theory Tool_Instance
  imports Runtime_Instance Cli_Node Cli_Funding
begin

text \<open>
  The command line tool on the instance of \<open>Runtime_Instance\<close>: a file system in which every path holds
  the distribution file of the instance, arguments with the admin's key, and a node on which the
  distributor of that file exists.
\<close>

definition demo_host :: host where
  "demo_host = \<lparr>open_file = (\<lambda>path. Inr []), from_json = (\<lambda>bytes. Inr demo_file),
     from_bincode = (\<lambda>bytes. None), pubkey_from_str = (\<lambda>s. Some (fill32 (of_nat (of_char (hd s))))),
     pubkey_to_string = (\<lambda>k. [char_of (unat (hd (to_bytes k)))])\<rparr>"

lemma demo_host_file [simp]: "new_from_file demo_host path = Inr demo_file"
  by (simp add: new_from_file_def demo_host_def)

definition demo_cli :: "bool \<Rightarrow> cli_args" where
  "demo_cli bs58 = \<lparr>ca_mint = fill32 2, ca_base = fill32 1, ca_program_id = fill32 0,
     ca_keypair = Some (fill32 3), ca_priority_fee = None, ca_bs58 = bs58\<rparr>"

lemma demo_cli_sel [simp]:
  "ca_mint (demo_cli b) = fill32 2" "ca_base (demo_cli b) = fill32 1"
  "ca_program_id (demo_cli b) = fill32 0" "ca_keypair (demo_cli b) = Some (fill32 3)"
  "ca_priority_fee (demo_cli b) = None" "ca_bs58 (demo_cli b) = b"
  by (simp_all add: demo_cli_def)

text \<open>The token accounts that transactions create are empty ones of the wallet they are for.\<close>

definition demo_create :: "pubkey \<Rightarrow> pubkey \<Rightarrow> pubkey \<Rightarrow> chain \<Rightarrow> program_error + chain" where
  "demo_create payer wallet mint st =
     (let a = get_associated_token_address demo wallet mint in
      and_then (require (\<not> in_use st a) AccountAlreadyInUse) (\<lambda>_.
      Inr (st\<lparr>token_accounts := (token_accounts st)(a \<mapsto>
        \<lparr>ta_mint = mint, ta_owner = wallet, ta_amount = 0\<rparr>)\<rparr>)))"

definition demo_config :: "i64 \<Rightarrow> nat \<Rightarrow> node_config" where
  "demo_config t life = \<lparr>cf_runtime = demo, cf_create_token_account = demo_create,
     cf_program_accounts = (\<lambda>filters st. Some []),
     cf_program = fill32 0, cf_time = t, cf_slot = 50, cf_lifetime = life\<rparr>"

lemma demo_config_sel [simp]:
  "cf_runtime (demo_config t l) = demo" "cf_create_token_account (demo_config t l) = demo_create"
  "cf_program_accounts (demo_config t l) = (\<lambda>filters st. Some [])" "cf_program (demo_config t l) = fill32 0" "cf_time (demo_config t l) = t"
  "cf_slot (demo_config t l) = 50" "cf_lifetime (demo_config t l) = l"
  by (simp_all add: demo_config_def)

definition demo_world :: "nat \<Rightarrow> chain \<Rightarrow> node_world" where
  "demo_world faults st = \<lparr>nw_chain = st, nw_faults = faults, nw_life = 0, nw_landed = [], nw_printed = []\<rparr>"

lemma demo_world_sel [simp]: "nw_chain (demo_world n st) = st" "nw_faults (demo_world n st) = n"
  by (simp_all add: demo_world_def)

lemma demo_distributor_of [simp]: "distributor_of demo (demo_cli b) (fill32 1) 0 = fill32 129"
  by (simp add: distributor_of_def get_merkle_distributor_pda_def demo_address_def
      merkle_distributor_seeds_def)

lemma demo_distributor_admin [simp]: "md_admin (demo_distributor r c n t b) = fill32 3"
  by (simp add: demo_distributor_def)

text \<open>The options with which the tool creates the distributor of the file.\<close>

definition demo_options :: new_distributor_options where
  "demo_options = \<lparr>no_base = Some (fill32 1), no_airdrop_version = None, no_skip_verify = False,
     no_options = \<lparr>do_start_vesting_ts = 1000, do_end_vesting_ts = 2000, do_clawback_start_ts = 100000,
       do_enable_slot = 10, do_closable = False, do_clawback_receiver_owner = fill32 7\<rparr>\<rparr>"

definition demo_created :: chain where
  "demo_created = demo_new\<lparr>distributors := [fill32 129 \<mapsto>
     (demo_distributor (merkle_root demo_file) False 0 0 False)\<lparr>md_max_total_claim := 35\<rparr>]\<rparr>"

lemma demo_created_matches:
  "expect_match demo (demo_cli b) demo_options (fill32 3) (fill32 1) demo_file
     (Some ((demo_distributor (merkle_root demo_file) False 0 0 False)\<lparr>md_max_total_claim := 35\<rparr>)) = Inr ()"
  by (simp add: expect_match_def check_distributor_onchain_matches_def demo_options_def demo_distributor_def)

lemma demo_already_created:
  "create_one (chain_node C) (chain_node C) demo demo_host (demo_cli b) demo_options (fill32 3) (fill32 1) path
     False (demo_world n demo_created) = Some (Inr (Continue False), demo_world n demo_created)"
  using demo_created_matches [of b]
  by (simp add: create_one_def unwrap_result_def Let_def chain_node_def demo_created_def demo_options_def)

end
