(* ===== verification/Network_Properties.thy ===== *)
theory Network_Properties
  imports Tool_Instance
begin

text \<open>
  The commands of the tool and the network: what the administrating commands do to the distributors
  on a node that executes transactions on the program and may lose some of them, when they come to
  an end, and what they never do.
\<close>

section \<open>The admin commands take effect\<close>


lemma admin_target:
  assumes "\<exists>d. distributors st0 k = Some d \<and> md_admin d = keypair \<and> P d"
    and "\<And>st d. distributors st k = Some d \<Longrightarrow> md_admin d = keypair \<Longrightarrow> P d \<Longrightarrow>
      token_accounts st = token_accounts st0 \<Longrightarrow> \<not> already d \<Longrightarrow>
      process_instruction (cf_runtime C) (node_tx C {keypair}) (ix d) st = Inr (put_distributor k (u d) st)"
    and "\<And>d. signer_accounts (ix d) = {md_admin d}"
  shows "\<exists>d. distributors st0 k = Some d \<and> (\<not> already d \<longrightarrow> signer_accounts (ix d) = {keypair} \<and>
    (\<forall>st b. distributors st k = Some d \<longrightarrow> token_accounts st = token_accounts st0 \<longrightarrow>
      execute C \<lparr>tr_instructions = price_instructions fee @ [Program (ix d)], tr_payer = keypair,
        tr_signers = {keypair}, tr_blockhash = b\<rparr> st = Inr (put_distributor k (u d) st)))"
proof -
  from assms(1) obtain d where d: "distributors st0 k = Some d" "md_admin d = keypair" "P d" by blast
  have "execute C \<lparr>tr_instructions = price_instructions fee @ [Program (ix d)], tr_payer = keypair,
      tr_signers = {keypair}, tr_blockhash = b\<rparr> st = Inr (put_distributor k (u d) st)"
    if "\<not> already d" "distributors st k = Some d" "token_accounts st = token_accounts st0" for st b
    unfolding execute_program using assms(2) [OF that(2) d(2,3) that(3,1)] .
  with d show ?thesis by (intro exI [of _ d]) (simp add: assms(3))
qed



text \<open>
  Run with the admin's keypair for a range of versions whose distributors
  exist, \<open>process_set_enable_slot\<close> comes to an end however many transactions are lost, and
  exactly the distributors of the range have the new slot.
\<close>

theorem enable_slot_takes_effect:
  assumes "ca_keypair args = Some keypair" and "\<not> ca_bs58 args"
    and "\<forall>v. from_version \<le> v \<and> v \<le> to_version \<longrightarrow>
      (\<exists>d. distributors (nw_chain w) (distributor_of E args (ca_base args) v) = Some d \<and> md_admin d = keypair)"
  shows "succeeds (process_set_enable_slot (chain_node C) E args from_version to_version slot) w
    (\<lambda>_ w'. nw_chain w' = update_all (\<lambda>d. d\<lparr>md_enable_slot := slot\<rparr>)
      (distributor_of E args (ca_base args) ` {v. from_version \<le> v \<and> v \<le> to_version}) (nw_chain w))"
proof -
  let ?k = "distributor_of E args (ca_base args)"
  let ?ix = "\<lambda>k d. SetEnableSlot \<lparr>se_distributor = k, se_admin = md_admin d\<rparr> slot"
  have "succeeds (for_each (\<lambda>v. loop (admin_round (chain_node C) False (ca_priority_fee args) keypair (?k v)
      (\<lambda>d. md_enable_slot d = slot) (?ix (?k v)) (\<lambda>tx. call (send_and_confirm (chain_node C) tx))))
      (inclusive_range from_version to_version)) w
    (\<lambda>_ w'. True \<and> nw_chain w' = update_all (\<lambda>d. d\<lparr>md_enable_slot := slot\<rparr>)
      (?k ` set (inclusive_range from_version to_version)) (nw_chain w))"
    by (rule confirmed.all_apply [where ix = ?ix and already = "\<lambda>d. md_enable_slot d = slot",
          OF _ _ admin_target [where P = "\<lambda>_. True"]])
      (use assms(3) in \<open>auto simp: admin_Inr node_tx_def inclusive_range_set\<close>)
  then show ?thesis
    using assms(1,2) by (simp add: process_set_enable_slot_def succeeds_def inclusive_range_set Let_def)
qed

lemma enable_slot_takes_effect_witness:
  "succeeds (process_set_enable_slot (chain_node (demo_config 500 3)) demo (demo_cli False) 0 0 77)
     (demo_world 9 (demo_open demo_leaf False))
     (\<lambda>_ w'. nw_chain w' = update_all (\<lambda>d. d\<lparr>md_enable_slot := 77\<rparr>) {fill32 129} (demo_open demo_leaf False))"
  using enable_slot_takes_effect [of "demo_cli False" "fill32 3" 0 0 "demo_world 9 (demo_open demo_leaf False)" demo
      "demo_config 500 3" 77]
  by simp





section \<open>What sending means\<close>

text \<open>An attempt on a node that loses every transaction of the blockhash's life.\<close>

lemma send_attempt_lost:
  assumes "nw_landed w = []" and "nw_life w \<le> nw_faults w"
  shows "send_attempt (chain_node C) (chain_node C) tx w =
    (if nw_life w = 0 then Some (Inr (Some (Inr ())), w)
     else Some (Inr None, w\<lparr>nw_faults := nw_faults w - 1, nw_life := nw_life w - 1\<rparr>))"
  using assms by (simp add: send_attempt_def)

lemma send_loop_lost:
  assumes "nw_landed w = []" and "nw_life w \<le> nw_faults w"
  shows "succeeds (loop (send_attempt (chain_node C) (chain_node C) tx)) w
    (\<lambda>r w'. r = Inr () \<and> nw_chain w' = nw_chain w)"
  by (rule loop_succeeds [where m = nw_life and I = "\<lambda>v. nw_chain v = nw_chain w \<and> nw_landed v = [] \<and>
      nw_life v \<le> nw_faults v"])
    (use assms in \<open>auto simp: send_attempt_lost succeeds_def\<close>)

text \<open>
  C24.  \<open>send_transaction\<close> answers \<open>Ok\<close> for every transaction whose simulation
  succeeds: it has been executed when fewer transactions were lost than attempts that the blockhash
  lives for, and otherwise the blockhash has expired and the chain is as before.  A
  transaction whose simulation fails is an error and is not sent.
\<close>

theorem ok_does_not_mean_landed:
  assumes "nw_landed w = []"
  shows "case execute C tx (nw_chain w) of
      Inl _ \<Rightarrow> \<exists>e. send_transaction (chain_node C) (chain_node C) tx w = Some (Inr (Inl e), w)
    | Inr st' \<Rightarrow> succeeds (send_transaction (chain_node C) (chain_node C) tx) w (\<lambda>r w'.
        r = Inr () \<and> nw_chain w' = (if nw_faults w < nw_life w then st' else nw_chain w))"
proof (cases "execute C tx (nw_chain w)")
  case (Inl e)
  then show ?thesis by (simp add: send_transaction_refused)
next
  case (Inr st')
  show ?thesis
  proof (cases "nw_faults w < nw_life w")
    case True
    from send_transaction_accepted [OF Inr assms True] Inr True show ?thesis
      by (auto elim: succeeds_mono)
  next
    case False
    with send_loop_lost [OF assms, of C tx] Inr show ?thesis
      by (simp add: send_transaction_def succeeds_def chain_node_def)
  qed
qed

lemma ok_does_not_mean_landed_witness:
  "\<exists>w'. send_transaction (chain_node (demo_config 500 3)) (chain_node (demo_config 500 3))
     \<lparr>tr_instructions = [], tr_payer = fill32 3, tr_signers = {fill32 3}, tr_blockhash = fill32 0\<rparr>
     (demo_world 5 demo_new) = Some (Inr (Inr ()), w') \<and> nw_chain w' = demo_new"
  using ok_does_not_mean_landed [of "demo_world 5 demo_new" "demo_config 500 3"
      "\<lparr>tr_instructions = [], tr_payer = fill32 3, tr_signers = {fill32 3}, tr_blockhash = fill32 0\<rparr>"]
  by (simp add: demo_world_def execute_def succeeds_def)

text \<open>
  C13.  On a node whose blockhashes expire, \<open>send_transaction\<close>, \<open>process_fund_all\<close> and
  \<open>process_new_distributor\<close> come to an end, whatever else the node answers.
\<close>

theorem passes_terminate:
  assumes "\<forall>blockhash. \<exists>left. expiring client send_client blockhash left"
  shows "returns (send_transaction client send_client tx) w \<and>
    returns (process_fund_all client send_client E H args dir) w \<and>
    returns (process_new_distributor client send_client E H args opts dir) w"
proof (intro conjI)
  have sent: "returns (send_transaction client send_client tx) w" for tx w
    using assms by (blast intro: send_transaction_returns)
  show "returns (send_transaction client send_client tx) w" by (rule sent)
  show "returns (process_fund_all client send_client E H args dir) w"
    unfolding process_fund_all_def by (intro retry_passes_returns fund_all_returns sent)
  show "returns (process_new_distributor client send_client E H args opts dir) w"
    unfolding process_new_distributor_def by (intro retry_passes_returns create_new_distributor_returns sent)
qed

lemma demo_expiring: "expiring (chain_node C) (chain_node C) blockhash nw_life"
  by (simp add: expiring_def land_def split: sum.split)

lemma passes_terminate_witness:
  "returns (process_fund_all (chain_node (demo_config 500 3)) (chain_node (demo_config 500 3)) demo demo_host
     (demo_cli False) (Some [''a.json''])) (demo_world 5 demo_new)"
  using passes_terminate [of "chain_node (demo_config 500 3)" "chain_node (demo_config 500 3)"] demo_expiring
  by blast

text \<open>
  \<open>process_fund_all\<close> and \<open>process_new_distributor\<close> make at most ten passes over the
  directory: they are done after the first one that succeeds, and when the tenth
  fails they panic; five seconds pass after each failure but the last.
\<close>

theorem ten_passes:
  assumes "n \<le> 9" and "r = Inr () \<or> n = 9"
  shows "(failing_passes client (fund_all client send_client E H args dir) n ws \<and>
        fund_all client send_client E H args dir (ws n) = Some (Inr r, v) \<longrightarrow>
      process_fund_all client send_client E H args dir (ws 0) =
        Some (case r of Inr _ \<Rightarrow> Inr () | Inl e \<Rightarrow> Inl UnwrapFailed, v)) \<and>
    (failing_passes client (create_new_distributor client send_client E H args opts dir) n ws \<and>
        create_new_distributor client send_client E H args opts dir (ws n) = Some (Inr r, v) \<longrightarrow>
      process_new_distributor client send_client E H args opts dir (ws 0) =
        Some (case r of Inr _ \<Rightarrow> Inr () | Inl e \<Rightarrow> Inl UnwrapFailed, v))"
  unfolding process_fund_all_def process_new_distributor_def
  by (intro conjI impI; elim conjE; rule retry_passes_outcome [OF _ assms(1) _ assms(2)])

text \<open>Without the vault's account every pass fails.\<close>

lemma demo_no_vault:
  "fund_all (chain_node C) (chain_node C) demo demo_host (demo_cli False) (Some [''a.json''])
     (demo_world 0 (demo_new\<lparr>token_accounts := Map.empty\<rparr>)) =
   Some (Inr (Inl ''AccountNotFound''), demo_world 0 (demo_new\<lparr>token_accounts := Map.empty\<rparr>))"
  by (simp add: fund_all_def fund_one_def unwrap_result_def Let_def pass_result_def)

lemma ten_passes_witness:
  "process_fund_all (chain_node (demo_config 500 3)) (chain_node (demo_config 500 3)) demo demo_host
     (demo_cli False) (Some [''a.json'']) (demo_world 0 (demo_new\<lparr>token_accounts := Map.empty\<rparr>)) =
   Some (Inl UnwrapFailed, demo_world 0 (demo_new\<lparr>token_accounts := Map.empty\<rparr>))"
proof -
  let ?w = "demo_world 0 (demo_new\<lparr>token_accounts := Map.empty\<rparr>)" and ?c = "chain_node (demo_config 500 3)"
  have "failing_passes ?c (fund_all ?c ?c demo demo_host (demo_cli False) (Some [''a.json''])) 9 (\<lambda>_. ?w)"
    by (simp add: failing_passes_def demo_no_vault) (simp add: demo_world_def)
  with ten_passes [of 9 "Inl ''AccountNotFound''" ?c ?c demo demo_host "demo_cli False" "Some [''a.json'']"
      "\<lambda>_. ?w" ?w] show ?thesis by (simp add: demo_no_vault)
qed

section \<open>Front-running\<close>







end
