(* ===== verification/Funding_Properties.thy ===== *)
theory Funding_Properties
  imports Network_Properties "HOL-Library.Multiset"
begin

text \<open>
  \<open>process_fund_all\<close> on a node that executes transactions on the program: the token accounts while the
  files are gone through, and what the command leaves behind.
\<close>

section \<open>Funding\<close>








section \<open>The accounts during a pass\<close>




section \<open>The command\<close>




end
