(* ===== verification/Byte_Layout.thy ===== *)
theory Byte_Layout
  imports Prelude
begin

unbundle bit_operations_syntax

text \<open>
  Binary layouts: a writer that appends the bytes of a value and a reader that takes them off the
  front of the input.  The locale \<open>layout\<close> states that the reader undoes the writer whatever
  follows, and its interpretations build the layouts of the model's types from those of the parts.
\<close>

section \<open>The interface\<close>

type_synonym 'a writer = "'a \<Rightarrow> u8 list"
type_synonym 'a reader = "u8 list \<Rightarrow> ('a \<times> u8 list) option"

locale layout =
  fixes put :: "'a writer" and get :: "'a reader"
  assumes get_put: "get (put x @ rest) = Some (x, rest)"
begin

lemma get_put_only: "get (put x) = Some (x, [])"
  using get_put [of x "[]"] by simp

lemma put_inject: "put x = put y \<longleftrightarrow> x = y"
  by (metis get_put_only option.inject prod.inject)

lemma put_prefix_free: "put x @ r = put y @ s \<longleftrightarrow> x = y \<and> r = s"
  by (metis get_put option.inject prod.inject)

end

section \<open>Numbers, byte arrays and flags\<close>

fun from_le_bytes :: "u8 list \<Rightarrow> u64" where
  "from_le_bytes [] = 0"
| "from_le_bytes (b # bs) = ucast b OR push_bit 8 (from_le_bytes bs)"

lemma bit_from_le_bytes:
  "n < 64 \<Longrightarrow> bit (from_le_bytes bs) n \<longleftrightarrow> n div 8 < length bs \<and> bit (bs ! (n div 8)) (n mod 8)"
proof (induction bs arbitrary: n)
  case (Cons b bs)
  show ?case
  proof (cases "n < 8")
    case True
    with Cons.prems show ?thesis by (simp add: bit_or_iff bit_push_bit_iff bit_ucast_iff)
  next
    case False
    then have "\<not> bit b n" using bit_imp_le_length [of b n] by auto
    moreover from False have "n div 8 = Suc ((n - 8) div 8)" "n mod 8 = (n - 8) mod 8"
      by (simp_all add: div_if mod_if)
    ultimately show ?thesis
      using Cons.IH [of "n - 8"] Cons.prems False by (simp add: bit_or_iff bit_push_bit_iff bit_ucast_iff)
  qed
qed simp

lemma from_to_le_bytes [simp]: "from_le_bytes (to_le_bytes w) = w"
proof (rule bit_word_eqI)
  fix n assume "n < LENGTH(64)"
  then have n: "n < 64" "n div 8 < 8" "n mod 8 < 8" by simp_all
  then show "bit (from_le_bytes (to_le_bytes w)) n \<longleftrightarrow> bit w n"
    by (simp add: bit_from_le_bytes bit_to_le_bytes)
qed

definition get_u64 :: "u64 reader" where
  "get_u64 bs = (if length bs < 8 then None else Some (from_le_bytes (take 8 bs), drop 8 bs))"

definition get_bytes32 :: "bytes32 reader" where
  "get_bytes32 bs = (if length bs < 32 then None else Some (Bytes32 (take 32 bs), drop 32 bs))"

definition put_bool :: "bool writer" where
  "put_bool b = [if b then 1 else 0]"

fun get_bool :: "bool reader" where
  "get_bool [] = None"
| "get_bool (b # bs) = (if b = 0 then Some (False, bs) else if b = 1 then Some (True, bs) else None)"

interpretation u64_bytes: layout to_le_bytes get_u64
  by unfold_locales (simp add: get_u64_def)

interpretation bytes32_bytes: layout to_bytes get_bytes32
  by unfold_locales (simp add: get_bytes32_def to_bytes_inverse)

interpretation bool_bytes: layout put_bool get_bool
  by unfold_locales (simp add: put_bool_def)

section \<open>Optional values and sequences\<close>

text \<open>A flag before the value, and before every element of a sequence; a zero ends it.\<close>

fun put_option :: "'a writer \<Rightarrow> 'a option writer" where
  "put_option put None = [0]"
| "put_option put (Some x) = 1 # put x"

fun get_option :: "'a reader \<Rightarrow> 'a option reader" where
  "get_option get [] = None"
| "get_option get (b # bs) =
     (if b = 0 then Some (None, bs)
      else case get bs of Some (x, rest) \<Rightarrow> Some (Some x, rest) | None \<Rightarrow> None)"

fun put_list :: "'a writer \<Rightarrow> 'a list writer" where
  "put_list put [] = [0]"
| "put_list put (x # xs) = 1 # put x @ put_list put xs"

text \<open>The reader of a sequence takes at most as many elements as its input has bytes.\<close>

fun get_elements :: "nat \<Rightarrow> 'a reader \<Rightarrow> 'a list reader" where
  "get_elements 0 get bs = None"
| "get_elements (Suc fuel) get bs =
     (case bs of
        [] \<Rightarrow> None
      | b # bs' \<Rightarrow>
          if b = 0 then Some ([], bs')
          else case get bs' of
              None \<Rightarrow> None
            | Some (x, rest) \<Rightarrow>
                (case get_elements fuel get rest of
                   None \<Rightarrow> None | Some (xs, rest') \<Rightarrow> Some (x # xs, rest')))"

definition get_list :: "'a reader \<Rightarrow> 'a list reader" where
  "get_list get bs = get_elements (length bs) get bs"

context layout
begin

lemma get_put_option: "get_option get (put_option put x @ rest) = Some (x, rest)"
  by (cases x) (simp_all add: get_put)

lemma get_put_elements:
  "length xs < fuel \<Longrightarrow> get_elements fuel get (put_list put xs @ rest) = Some (xs, rest)"
proof (induction xs arbitrary: fuel)
  case Nil
  then show ?case by (cases fuel) simp_all
next
  case (Cons x xs)
  then show ?case by (cases fuel) (simp_all add: get_put)
qed

lemma length_put_list: "length xs < length (put_list put xs)"
  by (induction xs) simp_all

lemma get_put_list: "get_list get (put_list put xs @ rest) = Some (xs, rest)"
  unfolding get_list_def using length_put_list [of xs] by (intro get_put_elements) simp

end

interpretation hashes_bytes: layout "put_list to_bytes" "get_list get_bytes32"
  by unfold_locales (rule bytes32_bytes.get_put_list)

interpretation proof_bytes: layout "put_option (put_list to_bytes)" "get_option (get_list get_bytes32)"
  by unfold_locales (rule hashes_bytes.get_put_option)

end
