(* ===== verification/Cli_Files.thy ===== *)
theory Cli_Files
  imports Cli_Batches Api_Server "HOL-Library.Multiset"
begin

text \<open>
  The distribution files on disk: \<open>write_to_file\<close> and \<open>write_blob_to_file\<close> of
  \<open>airdrop_merkle_tree.rs\<close>, the files that \<open>process_create_merkle_tree.rs\<close> writes, and their conversion by
  \<open>process_create_merkle_tree_blob.rs\<close>.  A directory is a map from names to contents; creating and
  writing a file succeeds, and the encoders of \<open>serde_json\<close> and \<open>bincode\<close> are the fields of \<open>codec\<close>.
\<close>

section \<open>Directories\<close>

record codec =
  to_json :: "airdrop_merkle_tree \<Rightarrow> u8 list"
  to_bincode :: "airdrop_merkle_tree \<Rightarrow> u8 list"

type_synonym directory = "string \<rightharpoonup> u8 list"

text \<open>The readers of a host, over the files of one directory.\<close>

definition host_on :: "directory \<Rightarrow> host \<Rightarrow> host" where
  "host_on files H = H\<lparr>open_file := (\<lambda>name. ok_or (files name) (IoError ''No such file or directory''))\<rparr>"

definition write_to_file :: "codec \<Rightarrow> airdrop_merkle_tree \<Rightarrow> string \<Rightarrow> directory \<Rightarrow> directory" where
  "write_to_file K t name files = files(name \<mapsto> to_json K t)"

definition write_blob_to_file :: "codec \<Rightarrow> airdrop_merkle_tree \<Rightarrow> string \<Rightarrow> directory \<Rightarrow> directory" where
  "write_blob_to_file K t name files = files(name \<mapsto> to_bincode K t)"

text \<open>What the libraries promise of their encoders.\<close>

definition codec_sound :: "codec \<Rightarrow> host \<Rightarrow> bool" where
  "codec_sound K H \<longleftrightarrow> (\<forall>t. from_json H (to_json K t) = Inr t \<and> from_bincode H (to_bincode K t) = Some t)"

section \<open>Names\<close>

text \<open>The decimal form of a number, as \<open>format!\<close> writes it.\<close>

fun show_nat :: "nat \<Rightarrow> string" where
  "show_nat n = (if n < 10 then [char_of (48 + n)] else show_nat (n div 10) @ [char_of (48 + n mod 10)])"

declare show_nat.simps [simp del]

definition tree_file_name :: "u64 \<Rightarrow> string" where
  "tree_file_name index = ''tree_'' @ show_nat (unat index) @ ''.json''"

text \<open>\<open>Path::file_stem\<close>: the name without its extension.\<close>

definition file_stem :: "string \<Rightarrow> string" where
  "file_stem name =
     (case path_extension name of
        Some ext \<Rightarrow> take (length name - (length ext + 1)) name
      | None \<Rightarrow> name)"

section \<open>The commands\<close>

definition process_create_merkle_tree ::
  "hashv \<Rightarrow> (string \<Rightarrow> pubkey option) \<Rightarrow> codec \<Rightarrow> nat \<Rightarrow> u32 \<Rightarrow> csv_entry list \<Rightarrow> directory \<Rightarrow>
     directory \<times> panic option" where
  "process_create_merkle_tree h from_str K max_nodes_per_tree decimals csv_entries files =
     (let (trees, r) = create_trees h from_str max_nodes_per_tree decimals 0 csv_entries
      in (foldl (\<lambda>fs (index, t). write_to_file K t (tree_file_name index) fs) files trees, r))"

text \<open>The conversion reads the names in the order of the directory and stops at the first error.\<close>

fun process_create_merkle_tree_blob ::
  "codec \<Rightarrow> host \<Rightarrow> string list \<Rightarrow> directory \<Rightarrow> directory \<times> merkle_tree_error failure option" where
  "process_create_merkle_tree_blob K H [] files = (files, None)"
| "process_create_merkle_tree_blob K H (name # names) files =
     (case path_extension name of
        None \<Rightarrow> process_create_merkle_tree_blob K H names files
      | Some ext \<Rightarrow>
          if ext = ''bin'' then process_create_merkle_tree_blob K H names files
          else case new_from_file H name of
              Inl e \<Rightarrow> (files, Some e)
            | Inr single_tree \<Rightarrow>
                process_create_merkle_tree_blob K H names
                  (write_blob_to_file K single_tree (file_stem name @ ''.bin'') files))"

section \<open>Decimal names are distinct\<close>

definition read_nat :: "string \<Rightarrow> nat" where
  "read_nat s = foldl (\<lambda>n c. 10 * n + (of_char c - 48)) 0 s"

lemma read_show_nat: "read_nat (show_nat n) = n"
proof (induction n rule: show_nat.induct)
  case (1 n)
  show ?case
  proof (cases "n < 10")
    case True
    then show ?thesis by (simp add: show_nat.simps [of n] read_nat_def of_char_of)
  next
    case False
    with 1 have "read_nat (show_nat (n div 10)) = n div 10" by simp
    with False show ?thesis
      by (simp add: show_nat.simps [of n] read_nat_def of_char_of)
  qed
qed

lemma show_nat_inject [simp]: "show_nat m = show_nat n \<longleftrightarrow> m = n"
  by (metis read_show_nat)

lemma tree_file_name_inject [simp]: "tree_file_name i = tree_file_name j \<longleftrightarrow> i = j"
  by (auto simp: tree_file_name_def word_unat_eq_iff)

lemma path_extension_dot:
  assumes "CHR ''.'' \<notin> set ext" and "stem \<noteq> []"
  shows "path_extension (stem @ ''.'' @ ext) = Some ext"
proof -
  have "takeWhile (\<lambda>c. c \<noteq> CHR ''.'') (rev ext @ CHR ''.'' # rev stem) = rev ext"
    using assms(1) by (subst takeWhile_append2) auto
  with assms(2) show ?thesis
    unfolding path_extension_def Let_def by (cases stem) simp_all
qed

lemma tree_file_name_extension [simp]: "path_extension (tree_file_name i) = Some ''json''"
  using path_extension_dot [of "''json''" "''tree_'' @ show_nat (unat i)"]
  by (simp add: tree_file_name_def)

section \<open>Reading back\<close>

lemma read_json:
  assumes "codec_sound K H" and "files name = Some (to_json K t)"
  shows "new_from_file (host_on files H) name = Inr t"
  using assms by (simp add: new_from_file_def host_on_def codec_sound_def)

lemma read_blob:
  assumes "codec_sound K H" and "files name = Some (to_bincode K t)"
  shows "new_from_blob (host_on files H) name = Inr t"
  using assms by (simp add: new_from_blob_def host_on_def codec_sound_def)

text \<open>The files after a sequence of writes.\<close>

lemma foldl_writes:
  "foldl (\<lambda>fs (index, t). write_to_file K t (tree_file_name index) fs) files trees =
    files ++ map_of (rev (map (\<lambda>(index, t). (tree_file_name index, to_json K t)) trees))"
  by (induction trees arbitrary: files) (auto simp: write_to_file_def)

lemma map_of_rev:
  assumes "distinct (map fst xs)"
  shows "map_of (rev xs) = map_of xs"
  using assms by (subst map_of_inject_set) (simp_all add: rev_map [symmetric])

lemma convert_names:
  assumes "\<And>name. name \<in> set names \<Longrightarrow> path_extension name = Some ''json'' \<and> new_from_file H name = Inr (f name)"
  shows "process_create_merkle_tree_blob K H names files =
    (files ++ map_of (rev (map (\<lambda>name. (file_stem name @ ''.bin'', to_bincode K (f name))) names)), None)"
  using assms by (induction names arbitrary: files) (simp_all add: write_blob_to_file_def)

lemma loaded_trees_map:
  assumes "\<And>name. name \<in> set names \<Longrightarrow> load_single H name = Inr (Some (f name))"
  shows "loaded_trees H names = Inr (map f names)"
  using assms by (induction names) simp_all

lemma mset_map_of:
  assumes "distinct (map fst ts)" and "distinct names" and "set names = set (map fst ts)"
  shows "mset (map (\<lambda>n. the (map_of ts n)) names) = mset (map snd ts)"
proof -
  have "mset names = mset (map fst ts)"
    using assms by (simp only: set_eq_iff_mset_eq_distinct [symmetric])
  from arg_cong [OF this, of "image_mset (\<lambda>n. the (map_of ts n))"]
  have "mset (map (\<lambda>n. the (map_of ts n)) names) = mset (map (\<lambda>n. the (map_of ts n)) (map fst ts))"
    by (simp only: mset_map)
  moreover have "the (map_of ts (fst e)) = snd e" if "e \<in> set ts" for e
    using map_of_is_SomeI [OF assms(1), of "fst e" "snd e"] that by simp
  then have "map (\<lambda>n. the (map_of ts n)) (map fst ts) = map snd ts"
    by simp
  ultimately show ?thesis by (simp only:)
qed

text \<open>
  A directory that holds one readable file for each tree: whatever the order of the listing, the
  server loads each tree once.
\<close>

lemma loaded_trees_perm:
  assumes "distinct (map fst ts)" and "distinct names" and "set names = set (map fst ts)"
    and load: "\<And>n t. (n, t) \<in> set ts \<Longrightarrow> load_single H n = Inr (Some t)"
  shows "\<exists>us. loaded_trees H (sort names) = Inr us \<and> mset us = mset (map snd ts)"
proof -
  let ?f = "\<lambda>n. the (map_of ts n)"
  have "load_single H n = Inr (Some (?f n))" if "n \<in> set names" for n
  proof -
    from that assms(3) obtain t where t: "(n, t) \<in> set ts" by auto
    with load map_of_is_SomeI [OF assms(1) t] show ?thesis by simp
  qed
  then have "loaded_trees H (sort names) = Inr (map ?f (sort names))"
    by (intro loaded_trees_map) simp
  moreover have "mset (map ?f (sort names)) = mset (map ?f names)"
    by (simp only: mset_map mset_sort)
  ultimately show ?thesis
    using mset_map_of [OF assms(1-3)] by metis
qed

end
