(* ===== verification/File_Codec.thy ===== *)
theory File_Codec
  imports Byte_Layout Cli_Files
begin

text \<open>
  A concrete binary form of distribution files, field by field in the order of \<open>AirdropMerkleTree\<close>
  and \<open>TreeNode\<close>: an instance of what \<open>codec_sound\<close> asks of the encoders.
\<close>

definition put_node :: "tree_node writer" where
  "put_node n = to_bytes (tn_claimant n) @ to_le_bytes (tn_amount n) @
     put_option (put_list to_bytes) (tn_proof n)"

definition get_node_bytes :: "tree_node reader" where
  "get_node_bytes bs =
     (case get_bytes32 bs of None \<Rightarrow> None | Some (claimant, bs) \<Rightarrow>
     (case get_u64 bs of None \<Rightarrow> None | Some (amt, bs) \<Rightarrow>
     (case get_option (get_list get_bytes32) bs of None \<Rightarrow> None | Some (p, bs) \<Rightarrow>
        Some (\<lparr>tn_claimant = claimant, tn_amount = amt, tn_proof = p\<rparr>, bs))))"

interpretation node_bytes: layout put_node get_node_bytes
  by unfold_locales (simp add: put_node_def get_node_bytes_def bytes32_bytes.get_put
      u64_bytes.get_put proof_bytes.get_put)

definition put_tree :: "airdrop_merkle_tree writer" where
  "put_tree t = to_bytes (merkle_root t) @ to_le_bytes (airdrop_version t) @
     to_le_bytes (at_max_num_nodes t) @ to_le_bytes (at_max_total_claim t) @
     put_list put_node (tree_nodes t)"

definition get_tree :: "airdrop_merkle_tree reader" where
  "get_tree bs =
     (case get_bytes32 bs of None \<Rightarrow> None | Some (root, bs) \<Rightarrow>
     (case get_u64 bs of None \<Rightarrow> None | Some (version, bs) \<Rightarrow>
     (case get_u64 bs of None \<Rightarrow> None | Some (num, bs) \<Rightarrow>
     (case get_u64 bs of None \<Rightarrow> None | Some (claim, bs) \<Rightarrow>
     (case get_list get_node_bytes bs of None \<Rightarrow> None | Some (ns, bs) \<Rightarrow>
        Some (\<lparr>merkle_root = root, airdrop_version = version, at_max_num_nodes = num,
          at_max_total_claim = claim, tree_nodes = ns\<rparr>, bs))))))"

interpretation tree_bytes: layout put_tree get_tree
  by unfold_locales (simp add: put_tree_def get_tree_def bytes32_bytes.get_put u64_bytes.get_put
      node_bytes.get_put_list)

text \<open>The encoders and the readers of a host that use it, for both forms of file.\<close>

definition bytes_codec :: codec where
  "bytes_codec = \<lparr>to_json = put_tree, to_bincode = put_tree\<rparr>"

definition bytes_host :: "host \<Rightarrow> host" where
  "bytes_host H = H\<lparr>from_json := (\<lambda>bs. ok_or (map_option fst (get_tree bs)) (SerdeError ''invalid'')),
     from_bincode := (\<lambda>bs. map_option fst (get_tree bs))\<rparr>"

lemma bytes_codec_sound: "codec_sound bytes_codec (bytes_host H)"
  by (simp add: codec_sound_def bytes_codec_def bytes_host_def tree_bytes.get_put_only ok_or_def)

end
