(* ===== verification/File_Properties.thy ===== *)
theory File_Properties
  imports File_Codec Cli_Properties Tool_Instance
begin

text \<open>
  What the commands that write distribution files promise together with the server that reads them.
\<close>

section \<open>The files of one run\<close>


















end
