(* ===== verification/Cli_Send.thy ===== *)
theory Cli_Send
  imports Cli_Funding
begin

text \<open>
  \<open>process_mass_send\<close> and \<open>process_resend\<close> of \<open>process_send.rs\<close> as runs.  The files, the web and the
  random numbers of the tool are the record \<open>shell\<close>; an operation on them that fails is \<open>None\<close> or
  \<open>False\<close>.  The order in which a \<open>HashMap\<close> yields its entries is an argument, of which \<open>enumerates\<close>
  states what the library promises.
\<close>

section \<open>The shell\<close>

record ('w, 's) shell =
  sh_read_dir :: "string \<Rightarrow> string list option"
  sh_read_csv :: "string \<Rightarrow> merkle_tree_error + csv_entry option list"
  sh_read_records :: "string \<Rightarrow> merkle_tree_error + string option list"
  sh_load_sent :: "string \<Rightarrow> (string \<rightharpoonup> string) option"
  sh_store_sent :: "string \<Rightarrow> (string \<rightharpoonup> string) \<Rightarrow> 'w \<Rightarrow> bool \<times> 'w"
  sh_create_dir :: "string \<Rightarrow> 'w \<Rightarrow> bool \<times> 'w"
  sh_write_file :: "string \<Rightarrow> string \<Rightarrow> u8 list \<Rightarrow> 'w \<Rightarrow> bool \<times> 'w"
  sh_get_proof :: "string \<Rightarrow> 'w \<Rightarrow> user_proof option \<times> 'w"
  sh_gen_range :: "nat \<Rightarrow> 'w \<Rightarrow> nat \<times> 'w"
  sh_signature_text :: "'s \<Rightarrow> string"
  sh_signature_from :: "string \<Rightarrow> 's option"
  sh_entries :: "(string \<rightharpoonup> string) \<Rightarrow> (string \<times> string) list"
  sh_groups :: "(string \<rightharpoonup> string list) \<Rightarrow> (string \<times> string list) list"

definition enumerates :: "((string \<rightharpoonup> 'v) \<Rightarrow> (string \<times> 'v) list) \<Rightarrow> bool" where
  "enumerates entries \<longleftrightarrow> (\<forall>m. finite (dom m) \<longrightarrow> distinct (map fst (entries m)) \<and> map_of (entries m) = m)"

text \<open>The paths of the entries of a directory; \<open>sh_read_dir\<close> lists their names.\<close>

definition dir_paths :: "('w, 's) shell \<Rightarrow> string \<Rightarrow> string list option" where
  "dir_paths sh path = map_option (map (\<lambda>name. path @ ''/'' @ name)) (sh_read_dir sh path)"

section \<open>One transaction\<close>

text \<open>The \<open>for\<close> loop of \<open>send_for_batch_address\<close>, which asks the node for each token account.\<close>

primrec batch_instructions ::
  "('w, 's) rpc \<Rightarrow> solana \<Rightarrow> host \<Rightarrow> pubkey \<Rightarrow> pubkey \<Rightarrow> u64 \<Rightarrow> string list \<Rightarrow>
     ('w, client_instruction list \<times> string list) run" where
  "batch_instructions client E H payer mint amt [] = ret ([], [])"
| "batch_instructions client E H payer mint amt (address # addresses) =
     (case pubkey_from_str H address of
        None \<Rightarrow> batch_instructions client E H payer mint amt addresses
      | Some user \<Rightarrow>
          seq (create_if_missing client E payer user mint) (\<lambda>create.
          seq (batch_instructions client E H payer mint amt addresses) (\<lambda>(ixs, qualified).
          ret (create @ [TokenTransfer (get_associated_token_address E payer mint)
            (get_associated_token_address E user mint) payer amt] @ ixs, address # qualified))))"

definition send_batch ::
  "('w, 's) rpc \<Rightarrow> solana \<Rightarrow> host \<Rightarrow> cli_args \<Rightarrow> u64 \<Rightarrow> string list \<Rightarrow>
     ('w, string + 's \<times> string list) run" where
  "send_batch client E H args amt batch_address =
     seq (of_result (unwrap (ca_keypair args))) (\<lambda>keypair.
     seq (batch_instructions client E H keypair (ca_mint args) amt batch_address) (\<lambda>(ixs, qualified).
     seq (sign_and_send client (SetLimit 1000000 # price_instructions (ca_priority_fee args) @ ixs)
       keypair {keypair} (\<lambda>tx. call (client_send_transaction client tx))) (\<lambda>r.
     ret (and_then r (\<lambda>signature. Inr (signature, qualified))))))"

text \<open>
  Sending a batch, recording its addresses under the signature, and writing the record to its file;
  an error of sending is only printed.
\<close>

definition send_and_record ::
  "('w, 's) rpc \<Rightarrow> solana \<Rightarrow> host \<Rightarrow> ('w, 's) shell \<Rightarrow> cli_args \<Rightarrow> u64 \<Rightarrow> string \<Rightarrow> string list \<Rightarrow>
     (string \<rightharpoonup> string) \<Rightarrow> ('w, (string \<rightharpoonup> string, unit) flow) run" where
  "send_and_record client E H sh args amt des_path batch_address sent_addresses =
     seq (send_batch client E H args amt batch_address) (\<lambda>r.
     case r of
       Inl e \<Rightarrow> ret (Continue sent_addresses)
     | Inr (signature, qualified) \<Rightarrow>
         let sent = foldl (\<lambda>m a. m(a \<mapsto> sh_signature_text sh signature)) sent_addresses qualified in
         seq (call (sh_store_sent sh des_path sent)) (\<lambda>ok.
         of_result (if ok then Inr (Continue sent) else Inl UnwrapFailed)))"

section \<open>The commands\<close>

definition parse_new_record ::
  "(string \<Rightarrow> merkle_tree_error + string option list) \<Rightarrow> string \<Rightarrow> string list merkle_result" where
  "parse_new_record open_csv path = read_rows open_csv path"

definition run_mass_send ::
  "('w, 's) rpc \<Rightarrow> solana \<Rightarrow> host \<Rightarrow> ('w, 's) shell \<Rightarrow> cli_args \<Rightarrow> string \<Rightarrow> string \<Rightarrow> u64 \<Rightarrow> u64 \<Rightarrow>
     ('w, unit) run" where
  "run_mass_send client E H sh args csv_path des_path max_address_per_tx amt =
     seq (of_result (unwrap_result (parse_new_record (sh_read_records sh) csv_path))) (\<lambda>addresses.
     seq (of_result (unwrap (sh_load_sent sh des_path))) (\<lambda>sent_addresses.
     seq (for_loop (send_and_record client E H sh args amt des_path)
       (batch_loop (unat max_address_per_tx) (\<lambda>a. sent_addresses a \<noteq> None) addresses [])
       sent_addresses) (\<lambda>_. ret ())))"

text \<open>The addresses of each signature.\<close>

definition add_to_group :: "(string \<rightharpoonup> string list) \<Rightarrow> string \<times> string \<Rightarrow> (string \<rightharpoonup> string list)" where
  "add_to_group groups entry =
     (case groups (snd entry) of
        Some array_addr \<Rightarrow> groups(snd entry \<mapsto> array_addr @ [fst entry])
      | None \<Rightarrow> groups(snd entry \<mapsto> [fst entry]))"

definition signature_to_address :: "(string \<times> string) list \<Rightarrow> (string \<rightharpoonup> string list)" where
  "signature_to_address entries = foldl add_to_group Map.empty entries"

text \<open>An error of the query is only printed; a transaction that failed or is not found is sent again.\<close>

fun should_resend :: "string + (string + unit) option \<Rightarrow> bool" where
  "should_resend (Inl e) = False"
| "should_resend (Inr None) = True"
| "should_resend (Inr (Some (Inl e))) = True"
| "should_resend (Inr (Some (Inr _))) = False"

definition resend_one ::
  "('w, 's) rpc \<Rightarrow> solana \<Rightarrow> host \<Rightarrow> ('w, 's) shell \<Rightarrow> cli_args \<Rightarrow> string \<Rightarrow> nat \<Rightarrow> u64 \<Rightarrow>
     string \<times> string list \<Rightarrow> (string \<rightharpoonup> string) \<Rightarrow> ('w, (string \<rightharpoonup> string, unit) flow) run" where
  "resend_one client E H sh args des_path number_of_addresses amt entry sent_addresses =
     seq (of_result (unwrap (sh_signature_from sh (fst entry)))) (\<lambda>signature.
     seq (call (signature_status client signature)) (\<lambda>status.
     if should_resend status
     then send_and_record client E H sh args amt des_path
       (resend_addresses number_of_addresses (snd entry)) sent_addresses
     else ret (Continue sent_addresses)))"

definition process_resend ::
  "('w, 's) rpc \<Rightarrow> solana \<Rightarrow> host \<Rightarrow> ('w, 's) shell \<Rightarrow> cli_args \<Rightarrow> string \<Rightarrow> u64 \<Rightarrow> u64 \<Rightarrow> ('w, unit) run" where
  "process_resend client E H sh args des_path max_address_per_tx amt =
     seq (of_result (unwrap (sh_load_sent sh des_path))) (\<lambda>sent_addresses.
     seq (for_loop (resend_one client E H sh args des_path (unat max_address_per_tx) amt)
       (sh_groups sh (signature_to_address (sh_entries sh sent_addresses)))
       sent_addresses) (\<lambda>_. ret ()))"

section \<open>Grouping\<close>

text \<open>The group of a signature: the addresses recorded with it, in the order of the entries.\<close>

lemma signature_to_address_eq:
  "signature_to_address entries s =
     (if s \<in> snd ` set entries then Some (map fst (filter (\<lambda>e. snd e = s) entries)) else None)"
  unfolding signature_to_address_def
proof (induction entries rule: rev_induct)
  case (snoc e entries)
  have none: "filter (\<lambda>e. snd e = s) entries = []" if "s \<notin> snd ` set entries"
    using that by (auto simp: filter_empty_conv)
  with snoc show ?case by (auto simp: add_to_group_def split: option.splits)
qed simp

lemma finite_groups: "finite (dom (signature_to_address entries))"
proof (rule finite_subset)
  show "dom (signature_to_address entries) \<subseteq> snd ` set entries"
    by (auto simp: signature_to_address_eq split: if_splits)
qed simp

text \<open>The groups in which a record falls apart are those of the signatures in it.\<close>

lemma group_members:
  assumes "enumerates (sh_entries sh)" and "enumerates (sh_groups sh)" and "finite (dom sent)"
    and "(signature, addresses) \<in> set (sh_groups sh (signature_to_address (sh_entries sh sent)))"
  shows "address \<in> set addresses \<longleftrightarrow> sent address = Some signature"
proof -
  let ?es = "sh_entries sh sent"
  from assms(1,3) have es: "distinct (map fst ?es)" "map_of ?es = sent"
    unfolding enumerates_def by blast+
  from assms(2) finite_groups have "distinct (map fst (sh_groups sh (signature_to_address ?es)))"
    "map_of (sh_groups sh (signature_to_address ?es)) = signature_to_address ?es"
    unfolding enumerates_def by blast+
  with assms(4) have "signature_to_address ?es signature = Some addresses"
    by (metis map_of_is_SomeI)
  then have "addresses = map fst (filter (\<lambda>e. snd e = signature) ?es)"
    by (simp add: signature_to_address_eq split: if_splits)
  then have "address \<in> set addresses \<longleftrightarrow> (address, signature) \<in> set ?es" by force
  also have "\<dots> \<longleftrightarrow> sent address = Some signature"
    using es by (metis map_of_SomeD map_of_is_SomeI)
  finally show ?thesis .
qed

end
