(* ===== verification/Cli_Commands.thy ===== *)
theory Cli_Commands
  imports Cli_Send Cli_Admin Cli_Files
begin

text \<open>
  The remaining commands of the tool as runs: claiming (\<open>process_claim.rs\<close>, \<open>process_new_claim.rs\<close>,
  \<open>process_claim_from_api.rs\<close>), closing claim statuses and the views (\<open>process_close_claim_status.rs\<close>,
  \<open>view_distributor.rs\<close>, \<open>process_verify.rs\<close>, \<open>verify_kv_proof.rs\<close>), and the commands that write files.
\<close>

section \<open>Claiming\<close>

definition send_and_unwrap ::
  "('w, 's) rpc \<Rightarrow> pubkey \<Rightarrow> client_instruction list \<Rightarrow> ('w, unit) run" where
  "send_and_unwrap client keypair ixs =
     seq (sign_and_send client ixs keypair {keypair} (\<lambda>tx. call (send_and_confirm client tx))) (\<lambda>r.
     of_result (case r of Inr _ \<Rightarrow> Inr () | Inl e \<Rightarrow> Inl UnwrapFailed))"

definition run_new_claim ::
  "('w, 's) rpc \<Rightarrow> solana \<Rightarrow> host \<Rightarrow> cli_args \<Rightarrow> string \<Rightarrow> ('w, unit) run" where
  "run_new_claim client E H args path =
     seq (of_result (unwrap (ca_keypair args))) (\<lambda>claimant.
     seq (of_result (unwrap_result (new_from_file H path))) (\<lambda>merkle_tree.
     seq (of_result (get_node merkle_tree claimant)) (\<lambda>node.
     seq (call (get_account_answer client (get_associated_token_address E claimant (ca_mint args)))) (\<lambda>answer.
     seq (of_result (process_new_claim E (ca_program_id args) (ca_base args) (ca_mint args)
       (ca_priority_fee args) (\<lambda>_. answer) claimant merkle_tree)) (\<lambda>ixs.
     send_and_unwrap client claimant ixs)))))"

definition run_claim ::
  "('w, 's) rpc \<Rightarrow> solana \<Rightarrow> host \<Rightarrow> cli_args \<Rightarrow> string \<Rightarrow> ('w, unit) run" where
  "run_claim client E H args path =
     seq (of_result (unwrap (ca_keypair args))) (\<lambda>claimant.
     seq (of_result (unwrap_result (new_from_file H path))) (\<lambda>merkle_tree.
     let distributor = distributor_of E args (ca_base args) (airdrop_version merkle_tree);
         claim_status_pda = fst (get_claim_status_pda E (ca_program_id args) claimant distributor) in
     seq (call (get_account_answer client claim_status_pda)) (\<lambda>answer.
     seq (case answer of
         AccountFound \<Rightarrow> ret ()
       | AccountNotFound \<Rightarrow> run_new_claim client E H args path
       | AccountError \<Rightarrow> of_result (Inl ExplicitPanic)) (\<lambda>_.
     send_and_unwrap client claimant (price_instructions (ca_priority_fee args) @
       [Program (ClaimLocked \<lparr>cl_distributor = distributor, cl_claim_status = claim_status_pda,
          cl_from = get_associated_token_address E distributor (ca_mint args),
          cl_to = get_associated_token_address E claimant (ca_mint args), cl_claimant = claimant\<rparr>)])))))"

text \<open>
  The two accounts that may be created are the same one: the destination is derived from the claimant.
\<close>

definition create_as_found :: "pubkey \<Rightarrow> pubkey \<Rightarrow> pubkey \<Rightarrow> bool \<Rightarrow> client_instruction list" where
  "create_as_found payer wallet mint ok = (if ok then [] else [CreateTokenAccount payer wallet mint])"

definition forward_transfer ::
  "('w, 's) rpc \<Rightarrow> solana \<Rightarrow> pubkey \<Rightarrow> pubkey \<Rightarrow> pubkey \<Rightarrow> u64 \<Rightarrow> ('w, client_instruction list) run" where
  "forward_transfer client E mint claimant destination_owner amt =
     (if destination_owner \<noteq> claimant
      then let claimant_ata = get_associated_token_address E claimant mint;
               destination_ata = get_associated_token_address E claimant mint in
        seq (call (get_account_data_is_ok client destination_ata)) (\<lambda>destination_ok.
        ret (create_as_found claimant destination_ata mint destination_ok @
          [TokenTransfer claimant_ata destination_ata claimant amt]))
      else ret [])"

definition run_claim_from_api ::
  "('w, 's) rpc \<Rightarrow> solana \<Rightarrow> host \<Rightarrow> ('w, 's) shell \<Rightarrow> cli_args \<Rightarrow> string \<Rightarrow> pubkey \<Rightarrow> ('w, unit) run" where
  "run_claim_from_api client E H sh args root_api destination_owner =
     seq (of_result (unwrap (ca_keypair args))) (\<lambda>claimant.
     seq (call (sh_get_proof sh (root_api @ ''/'' @ pubkey_to_string H (ca_mint args) @ ''/'' @
       pubkey_to_string H claimant))) (\<lambda>answer.
     seq (of_result (unwrap answer)) (\<lambda>kv_proof.
     seq (of_result (unwrap (pubkey_from_str H (up_merkle_tree kv_proof)))) (\<lambda>distributor.
     let claimant_ata = get_associated_token_address E claimant (ca_mint args) in
     seq (call (get_account_data_is_ok client claimant_ata)) (\<lambda>claimant_ok.
     seq (forward_transfer client E (ca_mint args) claimant destination_owner (up_amount kv_proof)) (\<lambda>forward.
     send_and_unwrap client claimant (price_instructions (ca_priority_fee args) @
       create_as_found claimant claimant_ata (ca_mint args) claimant_ok @
       [Program (NewClaim (client_new_claim E (ca_program_id args) (ca_mint args) distributor claimant)
          (up_amount kv_proof) 0 (up_proof kv_proof))] @ forward)))))))"

section \<open>Claim statuses\<close>

text \<open>\<open>ClaimStatus::LEN\<close>: the discriminator and the size of the struct, aligned to eight bytes.\<close>

definition CLAIM_STATUS_LEN :: u64 where
  "CLAIM_STATUS_LEN = 8 + 96"

definition closable_filters :: "rpc_filter list" where
  "closable_filters = [DataSize CLAIM_STATUS_LEN, Memcmp (8 + 32 + 8 + 8 + 8) [1]]"

definition view_claim_status :: "('w, 's) rpc \<Rightarrow> ('w, nat) run" where
  "view_claim_status client =
     seq (call (program_accounts client closable_filters)) (\<lambda>answer.
     seq (of_result (unwrap answer)) (\<lambda>claim_status_accounts.
     ret (length claim_status_accounts)))"

definition close_instruction :: "pubkey \<Rightarrow> pubkey \<times> claim_status \<Rightarrow> client_instruction" where
  "close_instruction keypair value =
     Program (CloseClaimStatus \<lparr>cc_claim_status = fst value, cc_claimant = cs_claimant (snd value),
       cc_admin = keypair\<rparr>)"

definition close_one_status ::
  "('w, 's) rpc \<Rightarrow> pubkey \<Rightarrow> pubkey \<times> claim_status \<Rightarrow> client_instruction list \<Rightarrow>
     ('w, (client_instruction list, unit) flow) run" where
  "close_one_status client keypair value close_ixs =
     (let ixs = close_ixs @ [close_instruction keypair value] in
      if 11 \<le> length ixs
      then seq (sign_and_send client ixs keypair {keypair} (\<lambda>tx. call (client_send_transaction client tx))) (\<lambda>r.
        ret (Continue (case r of Inr _ \<Rightarrow> [] | Inl e \<Rightarrow> ixs)))
      else ret (Continue ixs))"

definition process_close_claim_status :: "('w, 's) rpc \<Rightarrow> cli_args \<Rightarrow> ('w, unit) run" where
  "process_close_claim_status client args =
     seq (call (program_accounts client closable_filters)) (\<lambda>answer.
     seq (of_result (unwrap answer)) (\<lambda>claim_status_accounts.
     seq (of_result (unwrap (ca_keypair args))) (\<lambda>keypair.
     seq (for_loop (close_one_status client keypair) claim_status_accounts []) (\<lambda>c.
     case c of
       Continue close_ixs \<Rightarrow>
         if close_ixs = [] then ret ()
         else seq (sign_and_send client close_ixs keypair {keypair}
           (\<lambda>tx. call (send_and_confirm client tx))) (\<lambda>_. ret ())
     | _ \<Rightarrow> ret ()))))"

text \<open>\<open>0..=num_tree\<close> distributors are counted.\<close>

definition get_total_claim :: "('w, 's) rpc \<Rightarrow> solana \<Rightarrow> cli_args \<Rightarrow> u64 \<Rightarrow> ('w, (u64, unit) flow) run" where
  "get_total_claim client E args num_tree =
     for_loop (\<lambda>i total_node_claimed.
       seq (call (fetch_distributor client (distributor_of E args (ca_base args) i))) (\<lambda>account.
       seq (of_result (unwrap account)) (\<lambda>distributor.
       seq (of_result (add_u64 total_node_claimed (md_num_nodes_claimed distributor))) (\<lambda>s.
       ret (Continue s)))))
       (inclusive_range 0 num_tree) 0"

section \<open>Checks\<close>

text \<open>What is printed: the distributor of each version, or that there is none.\<close>

definition view_one :: "('w, 's) rpc \<Rightarrow> solana \<Rightarrow> cli_args \<Rightarrow> u64 \<Rightarrow> ('w, unit) run" where
  "view_one client E args version =
     seq (call (get_account_with_commitment client (distributor_of E args (ca_base args) version))) (\<lambda>answer.
     of_result (case answer of
       Inl e \<Rightarrow> Inl UnwrapFailed
     | Inr None \<Rightarrow> Inr ()
     | Inr (Some None) \<Rightarrow> Inl UnwrapFailed
     | Inr (Some (Some distributor)) \<Rightarrow> Inr ()))"

definition view_distributors :: "('w, 's) rpc \<Rightarrow> solana \<Rightarrow> cli_args \<Rightarrow> u64 \<Rightarrow> u64 \<Rightarrow> ('w, unit) run" where
  "view_distributors client E args from_version to_version =
     for_each (view_one client E args) (inclusive_range from_version to_version)"

definition verify_one ::
  "('w, 's) rpc \<Rightarrow> solana \<Rightarrow> cli_args \<Rightarrow> verify_args \<Rightarrow> airdrop_merkle_tree \<Rightarrow> ('w, unit) run" where
  "verify_one client E args va merkle_tree =
     (if (case va_airdrop_version va of Some v \<Rightarrow> airdrop_version merkle_tree \<noteq> v | None \<Rightarrow> False) then ret ()
      else
        let distributor = distributor_of E args (ca_base args) (airdrop_version merkle_tree) in
        seq (if va_skip_verify_amount va then ret ()
          else seq (call (fetch_token_account client
              (get_associated_token_address E distributor (ca_mint args)))) (\<lambda>answer.
            of_result (case answer of
              Inl e \<Rightarrow> Inl UnwrapFailed
            | Inr vault \<Rightarrow> require (ta_amount vault = at_max_total_claim merkle_tree) AssertionFailed))) (\<lambda>_.
        seq (call (fetch_distributor client distributor)) (\<lambda>account.
        seq (of_result (unwrap account)) (\<lambda>d.
        of_result (
          and_then (require (md_root d = merkle_root merkle_tree) AssertionFailed) (\<lambda>_.
          and_then (require (md_clawback_start_ts d = va_clawback_start_ts va) AssertionFailed) (\<lambda>_.
          and_then (require (md_closable d = va_closable va) AssertionFailed) (\<lambda>_.
          and_then (require (md_admin d = va_admin va) AssertionFailed) (\<lambda>_.
          and_then (require (md_enable_slot d = va_enable_slot va) AssertionFailed) (\<lambda>_.
          require (md_clawback_receiver d =
            get_associated_token_address E (va_clawback_receiver_owner va) (ca_mint args))
            AssertionFailed))))))))))"

definition run_verify ::
  "('w, 's) rpc \<Rightarrow> solana \<Rightarrow> host \<Rightarrow> cli_args \<Rightarrow> string list option \<Rightarrow> verify_args \<Rightarrow> ('w, unit) run" where
  "run_verify client E H args dir va = for_each_file H dir (verify_one client E args va)"

text \<open>Two answers for a random entry of the list; an empty list panics in \<open>gen_range\<close>.\<close>

definition verify_kv_one ::
  "('w, 's) shell \<Rightarrow> csv_entry list \<Rightarrow> string \<Rightarrow> string \<Rightarrow> ('w, unit) run" where
  "verify_kv_one sh csv_entries kv_api local_api =
     seq (of_result (require (0 < length csv_entries) ExplicitPanic)) (\<lambda>_.
     seq (call (sh_gen_range sh (length csv_entries))) (\<lambda>index.
     seq (of_result (require (index < length csv_entries) IndexOutOfBounds)) (\<lambda>_.
     let key = ce_pubkey (csv_entries ! index) in
     seq (call (sh_get_proof sh (kv_api @ ''/'' @ key))) (\<lambda>kv_answer.
     seq (of_result (unwrap kv_answer)) (\<lambda>kv_proof.
     seq (call (sh_get_proof sh (local_api @ ''/'' @ key))) (\<lambda>local_answer.
     seq (of_result (unwrap local_answer)) (\<lambda>local_proof.
     of_result (
       and_then (require (up_amount kv_proof = up_amount local_proof) AssertionFailed) (\<lambda>_.
       and_then (require (up_merkle_tree kv_proof = up_merkle_tree local_proof) AssertionFailed) (\<lambda>_.
       require (up_proof kv_proof = up_proof local_proof) AssertionFailed))))))))))"

definition verify_kv_proof ::
  "('w, 's) shell \<Rightarrow> string \<Rightarrow> string \<Rightarrow> string \<Rightarrow> u64 \<Rightarrow> ('w, unit) run" where
  "verify_kv_proof sh csv_path kv_api local_api num_verify =
     seq (of_result (unwrap_result (csv_entry_new_from_file (sh_read_csv sh) csv_path))) (\<lambda>csv_entries.
     for_each (\<lambda>_. verify_kv_one sh csv_entries kv_api local_api) [0..<unat num_verify])"

section \<open>Writing files\<close>

definition write_or_panic :: "('w, 's) shell \<Rightarrow> string \<Rightarrow> string \<Rightarrow> u8 list \<Rightarrow> ('w, unit) run" where
  "write_or_panic sh dir name bytes =
     seq (call (sh_write_file sh dir name bytes)) (\<lambda>ok.
     of_result (if ok then Inr () else Inl UnwrapFailed))"

text \<open>\<open>fs::create_dir_all\<close>, unwrapped.\<close>

definition create_dir_all :: "('w, 's) shell \<Rightarrow> string \<Rightarrow> ('w, unit) run" where
  "create_dir_all sh path =
     seq (call (sh_create_dir sh path)) (\<lambda>ok. of_result (if ok then Inr () else Inl UnwrapFailed))"

text \<open>The trees are written one by one, up to the one that makes the builder panic.\<close>

definition run_create_merkle_tree ::
  "hashv \<Rightarrow> host \<Rightarrow> codec \<Rightarrow> ('w, 's) shell \<Rightarrow> string \<Rightarrow> string \<Rightarrow> u64 \<Rightarrow> u32 \<Rightarrow> ('w, unit) run" where
  "run_create_merkle_tree h H K sh csv_path merkle_tree_path max_nodes_per_tree decimals =
     seq (of_result (unwrap_result (csv_entry_new_from_file (sh_read_csv sh) csv_path))) (\<lambda>csv_entries.
     seq (create_dir_all sh merkle_tree_path) (\<lambda>_.
     let (trees, r) = create_trees h (pubkey_from_str H) (unat max_nodes_per_tree) decimals 0 csv_entries in
     seq (for_each (\<lambda>(index, t). write_or_panic sh merkle_tree_path (tree_file_name index) (to_json K t)) trees)
       (\<lambda>_. of_result (case r of None \<Rightarrow> Inr () | Some p \<Rightarrow> Inl p))))"

text \<open>An error of reading or writing is returned by \<open>?\<close>.\<close>

definition convert_one ::
  "host \<Rightarrow> codec \<Rightarrow> ('w, 's) shell \<Rightarrow> string \<Rightarrow> string \<Rightarrow> string \<Rightarrow> unit \<Rightarrow>
     ('w, (unit, merkle_tree_error) flow) run" where
  "convert_one H K sh json_path merkle_tree_path name _ =
     (case path_extension name of
        None \<Rightarrow> ret (Continue ())
      | Some ext \<Rightarrow>
          if ext = ''bin'' then ret (Continue ())
          else case new_from_file H (json_path @ ''/'' @ name) of
              Inl (Panicked p) \<Rightarrow> of_result (Inl p)
            | Inl (Returned e) \<Rightarrow> ret (Return e)
            | Inr single_tree \<Rightarrow>
                seq (call (sh_write_file sh merkle_tree_path (file_stem name @ ''.bin'')
                  (to_bincode K single_tree))) (\<lambda>ok.
                ret (if ok then Continue () else Return (IoError ''write''))))"

definition run_create_merkle_tree_blob ::
  "host \<Rightarrow> codec \<Rightarrow> ('w, 's) shell \<Rightarrow> string \<Rightarrow> string \<Rightarrow> ('w, merkle_tree_error + unit) run" where
  "run_create_merkle_tree_blob H K sh json_path merkle_tree_path =
     seq (of_result (unwrap (sh_read_dir sh json_path))) (\<lambda>names.
     seq (create_dir_all sh merkle_tree_path) (\<lambda>_.
     seq (for_loop (convert_one H K sh json_path merkle_tree_path) names ()) (\<lambda>c.
     ret (case c of Return e \<Rightarrow> Inl e | _ \<Rightarrow> Inr ()))))"

text \<open>
  \<open>process_generate_kv_proof\<close>: the map of proofs and the index of the next file go through both loops.
\<close>

type_synonym kv_state = "(string \<times> kv_proof) list \<times> u64"

definition write_kv_file ::
  "('w, 's) shell \<Rightarrow> ((string \<times> kv_proof) list \<Rightarrow> u8 list) \<Rightarrow> string \<Rightarrow> kv_state \<Rightarrow> ('w, unit) run" where
  "write_kv_file sh kv_json kv_path st =
     seq (create_dir_all sh kv_path) (\<lambda>_.
     write_or_panic sh kv_path (show_nat (unat (snd st)) @ ''.json'') (kv_json (fst st)))"

definition kv_node ::
  "host \<Rightarrow> ('w, 's) shell \<Rightarrow> ((string \<times> kv_proof) list \<Rightarrow> u8 list) \<Rightarrow> string \<Rightarrow> u64 \<Rightarrow> pubkey \<Rightarrow> tree_node \<Rightarrow>
     kv_state \<Rightarrow> ('w, (kv_state, unit) flow) run" where
  "kv_node H sh kv_json kv_path max_entries distributor node st =
     seq (of_result (unwrap (tn_proof node))) (\<lambda>p.
     let proofs = AList.update (pubkey_to_string H (tn_claimant node))
           \<lparr>kv_merkle_tree = pubkey_to_string H distributor, kv_amount = tn_amount node,
            kv_proof_hashes = p\<rparr> (fst st) in
     if unat max_entries \<le> length proofs
     then seq (write_kv_file sh kv_json kv_path (proofs, snd st)) (\<lambda>_.
       seq (of_result (add_one (snd st))) (\<lambda>index. ret (Continue ([], index))))
     else ret (Continue (proofs, snd st)))"

definition kv_tree ::
  "solana \<Rightarrow> host \<Rightarrow> ('w, 's) shell \<Rightarrow> ((string \<times> kv_proof) list \<Rightarrow> u8 list) \<Rightarrow> cli_args \<Rightarrow> string \<Rightarrow> u64 \<Rightarrow>
     string \<Rightarrow> kv_state \<Rightarrow> ('w, (kv_state, unit) flow) run" where
  "kv_tree E H sh kv_json args kv_path max_entries path st =
     seq (of_result (unwrap_result (new_from_file H path))) (\<lambda>merkle_tree.
     for_loop (kv_node H sh kv_json kv_path max_entries
       (distributor_of E args (ca_base args) (airdrop_version merkle_tree))) (tree_nodes merkle_tree) st)"

definition process_generate_kv_proof ::
  "solana \<Rightarrow> host \<Rightarrow> ('w, 's) shell \<Rightarrow> ((string \<times> kv_proof) list \<Rightarrow> u8 list) \<Rightarrow> cli_args \<Rightarrow> string list option \<Rightarrow>
     string \<Rightarrow> u64 \<Rightarrow> ('w, unit) run" where
  "process_generate_kv_proof E H sh kv_json args dir kv_path max_entries =
     seq (of_result (unwrap dir)) (\<lambda>paths.
     seq (for_loop (kv_tree E H sh kv_json args kv_path max_entries) (sort paths) ([], 0)) (\<lambda>c.
     case c of
       Continue st \<Rightarrow> if fst st = [] then ret () else write_kv_file sh kv_json kv_path st
     | _ \<Rightarrow> ret ()))"

end
