(* ===== verification/Cli_Main.thy ===== *)
theory Cli_Main
  imports Cli_Commands
begin

text \<open>
  The arguments, the commands and the dispatch of \<open>cli.rs\<close>.  A command gets the clients it makes: for
  the RPC url with the commitments confirmed and finalized, and for the url to send to; whether a
  read within a command names another commitment is left to the client.
\<close>

section \<open>Arguments\<close>

record close_distributor_args =
  cda_merkle_tree_path :: string
  cda_airdrop_version :: "u64 option"

record claim_from_api_args =
  cfa_root_api :: string
  cfa_destination_owner :: pubkey

record verify_command_args =
  vca_merkle_tree_path :: string
  vca_checks :: verify_args

record new_distributor_command_args =
  nda_merkle_tree_path :: string
  nda_base_path :: string
  nda_start_vesting_ts :: i64
  nda_end_vesting_ts :: i64
  nda_clawback_start_ts :: i64
  nda_enable_slot :: u64
  nda_airdrop_version :: "u64 option"
  nda_closable :: bool
  nda_skip_verify :: bool
  nda_clawback_receiver_owner :: pubkey

record create_merkle_tree_args =
  cma_csv_path :: string
  cma_merkle_tree_path :: string
  cma_max_nodes_per_tree :: u64
  cma_amount :: f64
  cma_decimals :: u32

record create_merkle_tree_blob_args =
  cba_json_path :: string
  cba_merkle_tree_path :: string

record set_admin_args =
  sda_new_admin :: pubkey
  sda_merkle_tree_path :: string

record set_enable_slot_args =
  ses_from_version :: u64
  ses_to_version :: u64
  ses_slot :: u64

record set_clawback_start_ts_args =
  scs_from_version :: u64
  scs_to_version :: u64
  scs_clawback_start_ts :: i64

record set_enable_slot_by_time_args =
  sbt_merkle_tree_path :: string
  sbt_timestamp :: u64
  sbt_airdrop_version :: "u64 option"

record generate_kv_proof_args =
  gka_merkle_tree_path :: string
  gka_kv_path :: string
  gka_max_entries_per_file :: u64

record mass_send_args =
  msa_csv_path :: string
  msa_des_path :: string
  msa_max_address_per_tx :: u64
  msa_amount :: u64

record resend_send_args =
  rsa_des_path :: string
  rsa_max_address_per_tx :: u64
  rsa_amount :: u64

record verify_kv_proof_args =
  vka_csv_path :: string
  vka_kv_api :: string
  vka_local_api :: string
  vka_num_verify :: u64

record clawback_receiver_args =
  cra_merkle_tree_path :: string
  cra_receiver :: pubkey

record view_distributors_args =
  vda_from_version :: u64
  vda_to_version :: u64

section \<open>Commands\<close>

text \<open>An argument struct with one path or number is that path or number.\<close>

datatype commands =
    ClaimCommand string
  | ClaimFromApiCommand claim_from_api_args
  | NewDistributorCommand new_distributor_command_args
  | CloseDistributorCommand close_distributor_args
  | CloseClaimStatusCommand
  | ClawbackCommand string
  | CreateMerkleTreeCommand create_merkle_tree_args
  | CreateMerkleTreeBlobCommand create_merkle_tree_blob_args
  | SetAdminCommand set_admin_args
  | SetEnableSlotCommand set_enable_slot_args
  | SetEnableSlotByTimeCommand set_enable_slot_by_time_args
  | SetClawbackStartTsCommand set_clawback_start_ts_args
  | FundAllCommand string
  | VerifyCommand verify_command_args
  | SlotByTimeCommand u64
  | GenerateKvProofCommand generate_kv_proof_args
  | MassSendCommand mass_send_args
  | ResendCommand resend_send_args
  | ViewClaimStatusCommand
  | VerifyKvProofCommand verify_kv_proof_args
  | TotalClaimCommand u64
  | SetClawbackReceiverCommand clawback_receiver_args
  | ViewDistributorsCommand view_distributors_args

section \<open>The dispatch\<close>

text \<open>What \<open>main\<close> runs in: the clients, the libraries and the files.\<close>

record ('w, 's) environment =
  en_confirmed :: "('w, 's) rpc"
  en_finalized :: "('w, 's) rpc"
  en_extra_send :: "('w, 's) rpc"
  en_runtime :: solana
  en_host :: host
  en_shell :: "('w, 's) shell"
  en_codec :: codec
  en_kv_json :: "(string \<times> kv_proof) list \<Rightarrow> u8 list"
  en_read_keypair :: "string \<Rightarrow> pubkey option"

definition new_distributor_options_of ::
  "('w, 's) environment \<Rightarrow> new_distributor_command_args \<Rightarrow> new_distributor_options" where
  "new_distributor_options_of N a =
     \<lparr>no_base = en_read_keypair N (nda_base_path a), no_airdrop_version = nda_airdrop_version a,
      no_skip_verify = nda_skip_verify a,
      no_options = \<lparr>do_start_vesting_ts = nda_start_vesting_ts a, do_end_vesting_ts = nda_end_vesting_ts a,
        do_clawback_start_ts = nda_clawback_start_ts a, do_enable_slot = nda_enable_slot a,
        do_closable = nda_closable a, do_clawback_receiver_owner = nda_clawback_receiver_owner a\<rparr>\<rparr>"

text \<open>A command that has no result to return lets \<open>main\<close> return \<open>Ok\<close>.\<close>

definition and_ok :: "('w, 'a) run \<Rightarrow> ('w, merkle_tree_error + unit) run" where
  "and_ok m = seq m (\<lambda>_. ret (Inr ()))"

fun cli_main :: "('w, 's) environment \<Rightarrow> cli_args \<Rightarrow> commands \<Rightarrow> ('w, merkle_tree_error + unit) run" where
  "cli_main N args (NewDistributorCommand a) =
     and_ok (process_new_distributor (en_confirmed N) (en_extra_send N) (en_runtime N) (en_host N) args
       (new_distributor_options_of N a) (dir_paths (en_shell N) (nda_merkle_tree_path a)))"
| "cli_main N args (CloseDistributorCommand a) =
     and_ok (process_close_distributor (en_finalized N) (en_runtime N) (en_host N) args
       (dir_paths (en_shell N) (cda_merkle_tree_path a)) (cda_airdrop_version a))"
| "cli_main N args (ClaimCommand path) =
     and_ok (run_claim (en_confirmed N) (en_runtime N) (en_host N) args path)"
| "cli_main N args (ClaimFromApiCommand a) =
     and_ok (run_claim_from_api (en_confirmed N) (en_runtime N) (en_host N) (en_shell N) args
       (cfa_root_api a) (cfa_destination_owner a))"
| "cli_main N args (ClawbackCommand path) =
     and_ok (process_clawback (en_confirmed N) (en_runtime N) (en_host N) args (dir_paths (en_shell N) path))"
| "cli_main N args (CreateMerkleTreeCommand a) =
     and_ok (run_create_merkle_tree (rt_hashv (en_runtime N)) (en_host N) (en_codec N) (en_shell N)
       (cma_csv_path a) (cma_merkle_tree_path a) (cma_max_nodes_per_tree a) (cma_decimals a))"
| "cli_main N args (CreateMerkleTreeBlobCommand a) =
     run_create_merkle_tree_blob (en_host N) (en_codec N) (en_shell N) (cba_json_path a)
       (cba_merkle_tree_path a)"
| "cli_main N args (SetAdminCommand a) =
     and_ok (process_set_admin (en_confirmed N) (en_extra_send N) (en_runtime N) (en_host N) args
       (dir_paths (en_shell N) (sda_merkle_tree_path a)) (sda_new_admin a))"
| "cli_main N args (SetEnableSlotCommand a) =
     and_ok (process_set_enable_slot (en_confirmed N) (en_runtime N) args (ses_from_version a)
       (ses_to_version a) (ses_slot a))"
| "cli_main N args (SetClawbackStartTsCommand a) =
     and_ok (process_set_clawback_start_ts (en_confirmed N) (en_runtime N) args (scs_from_version a)
       (scs_to_version a) (scs_clawback_start_ts a))"
| "cli_main N args (SetEnableSlotByTimeCommand a) =
     and_ok (process_set_enable_slot_by_time (en_confirmed N) (en_runtime N) (en_host N) args
       (dir_paths (en_shell N) (sbt_merkle_tree_path a)) (sbt_timestamp a) (sbt_airdrop_version a))"
| "cli_main N args (FundAllCommand path) =
     and_ok (process_fund_all (en_finalized N) (en_extra_send N) (en_runtime N) (en_host N) args
       (dir_paths (en_shell N) path))"
| "cli_main N args (VerifyCommand a) =
     and_ok (run_verify (en_finalized N) (en_runtime N) (en_host N) args
       (dir_paths (en_shell N) (vca_merkle_tree_path a)) (vca_checks a))"
| "cli_main N args (SlotByTimeCommand timestamp) =
     and_ok (process_get_slot (en_confirmed N) timestamp)"
| "cli_main N args CloseClaimStatusCommand = and_ok (process_close_claim_status (en_finalized N) args)"
| "cli_main N args (GenerateKvProofCommand a) =
     and_ok (process_generate_kv_proof (en_runtime N) (en_host N) (en_shell N) (en_kv_json N) args
       (dir_paths (en_shell N) (gka_merkle_tree_path a)) (gka_kv_path a) (gka_max_entries_per_file a))"
| "cli_main N args (MassSendCommand a) =
     and_ok (run_mass_send (en_finalized N) (en_runtime N) (en_host N) (en_shell N) args (msa_csv_path a)
       (msa_des_path a) (msa_max_address_per_tx a) (msa_amount a))"
| "cli_main N args (ResendCommand a) =
     and_ok (process_resend (en_finalized N) (en_runtime N) (en_host N) (en_shell N) args (rsa_des_path a)
       (rsa_max_address_per_tx a) (rsa_amount a))"
| "cli_main N args ViewClaimStatusCommand = and_ok (view_claim_status (en_finalized N))"
| "cli_main N args (VerifyKvProofCommand a) =
     and_ok (verify_kv_proof (en_shell N) (vka_csv_path a) (vka_kv_api a) (vka_local_api a) (vka_num_verify a))"
| "cli_main N args (TotalClaimCommand num_tree) =
     and_ok (get_total_claim (en_finalized N) (en_runtime N) args num_tree)"
| "cli_main N args (ViewDistributorsCommand a) =
     and_ok (view_distributors (en_finalized N) (en_runtime N) args (vda_from_version a) (vda_to_version a))"
| "cli_main N args (SetClawbackReceiverCommand a) =
     and_ok (process_set_clawback_receiver (en_confirmed N) (en_runtime N) (en_host N) args
       (dir_paths (en_shell N) (cra_merkle_tree_path a)) (cra_receiver a))"

end
