(* ===== verification/Cli_Safety.thy ===== *)
theory Cli_Safety
  imports Cli_Main
begin

text \<open>
  What a command of the tool may do to the outside: \<open>keeps I m\<close> says that the run \<open>m\<close> preserves the
  property \<open>I\<close> of the world, and \<open>obeys\<close> that a client's queries preserve it and that sending a
  permitted transaction does.  A run that keeps every such property submits permitted transactions
  only.
\<close>

section \<open>Preservation by runs\<close>

definition keeps :: "('w \<Rightarrow> bool) \<Rightarrow> ('w, 'a) run \<Rightarrow> bool" where
  "keeps I m \<longleftrightarrow> (\<forall>w. I w \<longrightarrow> outcome m w (\<lambda>_. I))"

named_theorems keeps_intro \<open>rules for runs that preserve a property of the world\<close>

lemma keepsD: "keeps I m \<Longrightarrow> I w \<Longrightarrow> m w = Some (r, w') \<Longrightarrow> I w'"
  by (auto simp: keeps_def outcome_def)

lemma keeps_pure [keeps_intro]: "keeps I (ret a)" "keeps I (of_result r)"
  by (simp_all add: keeps_def outcome_def)

lemma keeps_call: "(\<And>w. I w \<Longrightarrow> I (snd (f w))) \<Longrightarrow> keeps I (call f)"
  by (simp add: keeps_def outcome_def)

lemma keeps_seq [keeps_intro]: "keeps I m \<Longrightarrow> (\<And>a. keeps I (f a)) \<Longrightarrow> keeps I (seq m f)"
  unfolding keeps_def
  by (intro allI impI outcome_seq, rule outcome_mono [of m _ "\<lambda>_. I"]) (auto split: sum.split)

lemma keeps_seq_result:
  assumes "\<And>a. r = Inr a \<Longrightarrow> keeps I (f a)"
  shows "keeps I (seq (of_result r) f)"
  using assms by (cases r) (auto simp: keeps_def outcome_def)

lemma keeps_loop [keeps_intro]: "keeps I body \<Longrightarrow> keeps I (loop body)"
  unfolding keeps_def
  by (intro allI impI, rule loop_outcome [of I]) (auto simp: outcome_def split: sum.split option.split)

lemma keeps_for_each [keeps_intro]: "(\<And>x. x \<in> set xs \<Longrightarrow> keeps I (body x)) \<Longrightarrow> keeps I (for_each body xs)"
  unfolding keeps_def by (intro allI impI for_each_outcome) auto

lemma keeps_for_loop [keeps_intro]:
  "(\<And>x s. x \<in> set xs \<Longrightarrow> keeps I (body x s)) \<Longrightarrow> keeps I (for_loop body xs s)"
  unfolding keeps_def
  by (intro allI impI for_loop_outcome [where I = "\<lambda>_. I"])
    (auto simp: outcome_def split: sum.split flow.split)

lemma keeps_if: "(b \<Longrightarrow> keeps I m) \<Longrightarrow> (\<not> b \<Longrightarrow> keeps I n) \<Longrightarrow> keeps I (if b then m else n)"
  by simp

section \<open>Clients\<close>

definition obeys :: "('w, 's) rpc \<Rightarrow> (transaction \<Rightarrow> bool) \<Rightarrow> ('w \<Rightarrow> bool) \<Rightarrow> bool" where
  "obeys client good I \<longleftrightarrow>
     (\<forall>k. keeps I (call (fetch_distributor client k))) \<and>
     (\<forall>k. keeps I (call (fetch_token_account client k))) \<and>
     (\<forall>k. keeps I (call (get_account_with_commitment client k))) \<and>
     (\<forall>k. keeps I (call (get_account_answer client k))) \<and>
     (\<forall>k. keeps I (call (get_account_data_is_ok client k))) \<and>
     (\<forall>fs. keeps I (call (program_accounts client fs))) \<and>
     (\<forall>s. keeps I (call (signature_status client s))) \<and>
     keeps I (call (get_clock client)) \<and>
     keeps I (call (get_recent_performance_samples client)) \<and>
     keeps I (call (get_latest_blockhash client)) \<and>
     (\<forall>tx. keeps I (call (simulate_transaction client tx))) \<and>
     (\<forall>b. keeps I (call (is_blockhash_valid client b))) \<and>
     (\<forall>s. keeps I (call (confirm_transaction client s))) \<and>
     (\<forall>ixs k. keeps I (call (print_message client ixs k))) \<and>
     (\<forall>ms. keeps I (call (sleep_ms client ms))) \<and>
     (\<forall>tx. good tx \<longrightarrow> keeps I (call (send_transaction_with_config client tx)) \<and>
       keeps I (call (client_send_transaction client tx)) \<and> keeps I (call (send_and_confirm client tx)))"

definition leaves_alone :: "('w, 's) shell \<Rightarrow> ('w \<Rightarrow> bool) \<Rightarrow> bool" where
  "leaves_alone sh I \<longleftrightarrow>
     (\<forall>path m. keeps I (call (sh_store_sent sh path m))) \<and>
     (\<forall>dir. keeps I (call (sh_create_dir sh dir))) \<and>
     (\<forall>dir name bytes. keeps I (call (sh_write_file sh dir name bytes))) \<and>
     (\<forall>url. keeps I (call (sh_get_proof sh url))) \<and>
     (\<forall>n. keeps I (call (sh_gen_range sh n)))"

lemma obeys_reads [keeps_intro]:
  assumes "obeys client good I"
  shows "keeps I (call (fetch_distributor client k))" "keeps I (call (fetch_token_account client k))"
    "keeps I (call (get_account_with_commitment client k))" "keeps I (call (get_account_answer client k))"
    "keeps I (call (get_account_data_is_ok client k))" "keeps I (call (program_accounts client fs))"
    "keeps I (call (signature_status client s))" "keeps I (call (get_clock client))"
    "keeps I (call (get_recent_performance_samples client))" "keeps I (call (get_latest_blockhash client))"
    "keeps I (call (simulate_transaction client tx))" "keeps I (call (is_blockhash_valid client b))"
    "keeps I (call (confirm_transaction client s))" "keeps I (call (print_message client ixs k))"
    "keeps I (call (sleep_ms client ms))"
  using assms unfolding obeys_def by blast+

lemma obeys_sends:
  assumes "obeys client good I" and "good tx"
  shows "keeps I (call (send_transaction_with_config client tx))"
    "keeps I (call (client_send_transaction client tx))" "keeps I (call (send_and_confirm client tx))"
  using assms unfolding obeys_def by blast+

lemma leaves_alone_writes:
  assumes "leaves_alone sh I"
  shows "keeps I (call (sh_store_sent sh path m))" "keeps I (call (sh_write_file sh dir name bytes))"
    "keeps I (call (sh_get_proof sh url))" "keeps I (call (sh_gen_range sh n))"
    "keeps I (call (sh_create_dir sh dir))"
  using assms unfolding leaves_alone_def by blast+

section \<open>Sending\<close>

lemma send_attempt_keeps:
  assumes "obeys client good I" and "obeys send_client good I" and "good tx"
  shows "keeps I (send_attempt client send_client tx)"
  unfolding send_attempt_def
  by (intro keeps_intro obeys_reads [OF assms(1)])
    (auto intro!: keeps_intro obeys_reads [OF assms(1)] obeys_sends [OF assms(2,3)]
      split: sum.split bool.split)

lemma send_transaction_keeps:
  assumes "obeys client good I" and "obeys send_client good I" and "good tx"
  shows "keeps I (send_transaction client send_client tx)"
  unfolding send_transaction_def
  by (intro keeps_intro obeys_reads [OF assms(1)])
    (auto intro!: keeps_intro send_attempt_keeps [OF assms] split: sum.split option.split)

lemma sign_and_send_keeps:
  assumes "obeys client good I"
    and "\<And>b. insert payer (\<Union>ix\<in>set ixs. required_signers ix) = keys \<Longrightarrow>
      keeps I (send \<lparr>tr_instructions = ixs, tr_payer = payer, tr_signers = keys, tr_blockhash = b\<rparr>)"
  shows "keeps I (sign_and_send client ixs payer keys send)"
proof -
  have "keeps I (send tx)" if tx: "new_signed_with_payer ixs payer keys b = Inr tx" for b tx
  proof -
    from tx have "insert payer (\<Union>ix\<in>set ixs. required_signers ix) = keys"
      and "tx = \<lparr>tr_instructions = ixs, tr_payer = payer, tr_signers = keys, tr_blockhash = b\<rparr>"
      by (simp_all add: new_signed_with_payer_def split: if_splits)
    with assms(2) show ?thesis by simp
  qed
  then show ?thesis
    unfolding sign_and_send_def
    by (intro keeps_seq [OF obeys_reads(10) [OF assms(1)]] keeps_seq [OF keeps_pure(2)] keeps_seq_result)
qed

section \<open>Values of runs\<close>

definition possible :: "('w, 'a) run \<Rightarrow> 'a \<Rightarrow> bool" where
  "possible m a \<longleftrightarrow> (\<exists>w w'. m w = Some (Inr a, w'))"

lemma possible_simps [simp]:
  "possible (ret b) a \<longleftrightarrow> a = b" "possible (of_result r) a \<longleftrightarrow> r = Inr a"
  by (auto simp: possible_def)

lemma possible_seqD: "possible (seq m f) b \<Longrightarrow> \<exists>a. possible m a \<and> possible (f a) b"
  by (auto simp: possible_def seq_Some_iff)

lemma keeps_seq_values:
  assumes "keeps I m" and "\<And>a. possible m a \<Longrightarrow> keeps I (f a)"
  shows "keeps I (seq m f)"
  unfolding keeps_def outcome_def
proof (intro allI impI)
  fix w r w'
  assume "I w" and run: "seq m f w = Some (r, w')"
  then consider p where "m w = Some (Inl p, w')" | a v where "m w = Some (Inr a, v)" "f a v = Some (r, w')"
    by (auto simp: seq_def split: option.splits sum.splits)
  then show "I w'"
  proof cases
    case 1
    with assms(1) \<open>I w\<close> show ?thesis by (rule keepsD)
  next
    case (2 a v)
    from assms(1) \<open>I w\<close> 2(1) have "I v" by (rule keepsD)
    from 2(1) have "possible m a" unfolding possible_def by blast
    from assms(2) [OF this] \<open>I v\<close> 2(2) show ?thesis by (rule keepsD)
  qed
qed

lemma for_loop_values:
  assumes step: "\<And>x s c. P s \<Longrightarrow> possible (body x s) (Continue c) \<Longrightarrow> P c"
  shows "P s \<Longrightarrow> possible (for_loop body xs s) (Continue c) \<Longrightarrow> P c"
proof (induction xs arbitrary: s)
  case (Cons x xs)
  from possible_seqD [OF Cons.prems(2) [unfolded for_loop.simps]] obtain a where
    a: "possible (body x s) a"
    and "possible (case a of Continue s' \<Rightarrow> for_loop body xs s' | _ \<Rightarrow> ret a) (Continue c)"
    by blast
  from this(2) obtain s' where s': "a = Continue s'" "possible (for_loop body xs s') (Continue c)"
    by (cases a) simp_all
  from step [OF Cons.prems(1) a [unfolded s'(1)]] s'(2) show ?case by (rule Cons.IH)
qed simp

lemma keeps_for_loop_state:
  assumes step: "\<And>x s c. P s \<Longrightarrow> possible (body x s) (Continue c) \<Longrightarrow> P c"
    and body: "\<And>x s. P s \<Longrightarrow> keeps I (body x s)"
  shows "P s \<Longrightarrow> keeps I (for_loop body xs s)"
proof (induction xs arbitrary: s)
  case (Cons x xs)
  have "keeps I (case a of Continue s' \<Rightarrow> for_loop body xs s' | _ \<Rightarrow> ret a)"
    if "possible (body x s) a" for a
  proof (cases a)
    case (Continue s')
    from step [OF Cons.prems that [unfolded Continue]] show ?thesis
      unfolding Continue flow.case by (rule Cons.IH)
  qed (simp_all add: keeps_intro)
  with body [OF Cons.prems] show ?case unfolding for_loop.simps by (rule keeps_seq_values)
qed (simp add: keeps_intro)

lemma create_if_missing_values:
  "possible (create_if_missing client E payer owner mint) ixs \<Longrightarrow>
     ixs = [] \<or> ixs = [CreateTokenAccount payer owner mint]"
  unfolding create_if_missing_def by (drule possible_seqD) (auto split: if_splits)

lemma batch_instructions_values:
  assumes "possible (batch_instructions client E H payer mint amt addresses) r" and "ix \<in> set (fst r)"
  shows "(\<exists>wallet. ix = CreateTokenAccount payer wallet mint) \<or>
    (\<exists>address\<in>set addresses. \<exists>user. pubkey_from_str H address = Some user \<and>
      ix = TokenTransfer (get_associated_token_address E payer mint)
        (get_associated_token_address E user mint) payer amt)"
  using assms
proof (induction addresses arbitrary: r)
  case (Cons address addresses)
  show ?case
  proof (cases "pubkey_from_str H address")
    case None
    with Cons show ?thesis by fastforce
  next
    case (Some user)
    with Cons.prems(1) obtain create q where
      create: "possible (create_if_missing client E payer user mint) create"
      and q: "possible (batch_instructions client E H payer mint amt addresses) q"
      and r: "fst r = create @ [TokenTransfer (get_associated_token_address E payer mint)
        (get_associated_token_address E user mint) payer amt] @ fst q"
      by (auto dest!: possible_seqD split: prod.splits)
    from Cons.prems(2) r consider "ix \<in> set create" | "ix = TokenTransfer (get_associated_token_address E payer mint)
        (get_associated_token_address E user mint) payer amt" | "ix \<in> set (fst q)" by auto
    then show ?thesis
    proof cases
      case 1
      with create_if_missing_values [OF create] show ?thesis by auto
    next
      case 2
      with Some show ?thesis by auto
    next
      case 3
      with Cons.IH [OF q] show ?thesis by auto
    qed
  qed
qed simp


lemma keypair_keeps [keeps_intro]:
  "(\<And>k. x = Some k \<Longrightarrow> keeps I (f k)) \<Longrightarrow> keeps I (seq (of_result (unwrap x)) f)"
  by (cases x) (auto intro!: keeps_seq_result simp: ok_or_def)

lemma unwrapped_keeps [keeps_intro]:
  "(\<And>a. r = Inr a \<Longrightarrow> keeps I (f a)) \<Longrightarrow> keeps I (seq (of_result (unwrap_result r)) f)"
  by (intro keeps_seq_result) (simp add: exec_iff)

text \<open>What a batch may submit: the compute budget and the instructions that the loop may build.\<close>

lemma create_if_missing_keeps [keeps_intro]:
  "obeys client good I \<Longrightarrow> keeps I (create_if_missing client E payer owner mint)"
  unfolding create_if_missing_def by (intro keeps_intro obeys_reads)

lemma send_and_record_obeys:
  fixes client :: "('a, 'b) rpc"
  assumes obeys: "obeys client good I" and "leaves_alone sh I"
    and builds: "\<And>k ixs q b. ca_keypair args = Some k \<Longrightarrow>
      possible (batch_instructions client E H k (ca_mint args) amt addresses) (ixs, q) \<Longrightarrow>
      insert k (\<Union>ix\<in>set (SetLimit 1000000 # price_instructions (ca_priority_fee args) @ ixs).
        required_signers ix) = {k} \<Longrightarrow>
      good \<lparr>tr_instructions = SetLimit 1000000 # price_instructions (ca_priority_fee args) @ ixs,
        tr_payer = k, tr_signers = {k}, tr_blockhash = b\<rparr>"
  shows "keeps I (send_and_record client E H sh args amt path addresses sent)"
proof -
  have one: "keeps I (batch_instructions client E H k mint u as)" for k mint u as
  proof (induction as)
    case (Cons address as)
    then show ?case
      by (cases "pubkey_from_str H address")
        (auto intro!: keeps_seq keeps_pure create_if_missing_keeps [OF obeys])
  qed (simp only: batch_instructions.simps keeps_pure)
  have sign: "keeps I (sign_and_send client (SetLimit 1000000 # price_instructions (ca_priority_fee args) @ ixs)
      k {k} (\<lambda>tx. call (client_send_transaction client tx)))"
    if "ca_keypair args = Some k"
      and "possible (batch_instructions client E H k (ca_mint args) amt addresses) (ixs, q)" for k ixs q
    by (rule sign_and_send_keeps [OF obeys], rule obeys_sends(2) [OF obeys], rule builds [OF that])
  have "keeps I (send_batch client E H args amt addresses)"
    unfolding send_batch_def
    by (intro keypair_keeps keeps_seq_values [OF one]) (auto intro!: keeps_seq keeps_pure sign split: prod.split)
  then show ?thesis
    unfolding send_and_record_def Let_def
    by (intro keeps_seq) (auto intro!: keeps_intro leaves_alone_writes(1) [OF assms(2)] split: sum.split)
qed

end
