(* ===== verification/Cli_Permissions.thy ===== *)
theory Cli_Permissions
  imports Cli_Safety
begin

text \<open>
  Which transactions each command may sign: its purpose, besides the compute budget and the creation
  of token accounts at the expense of the payer; and that every command keeps to it.
\<close>

section \<open>Purposes\<close>

definition housekeeping :: "pubkey \<Rightarrow> client_instruction \<Rightarrow> bool" where
  "housekeeping k ix \<longleftrightarrow> required_signers ix \<subseteq> {k} \<and>
     (case ix of TokenTransfer from to authority amt \<Rightarrow> False | Program ins \<Rightarrow> False | _ \<Rightarrow> True)"

abbreviation ata :: "('w, 's) environment \<Rightarrow> cli_args \<Rightarrow> pubkey \<Rightarrow> pubkey" where
  "ata N args owner \<equiv> get_associated_token_address (en_runtime N) owner (ca_mint args)"

abbreviation distributor_at :: "('w, 's) environment \<Rightarrow> cli_args \<Rightarrow> u64 \<Rightarrow> pubkey" where
  "distributor_at N args version \<equiv> distributor_of (en_runtime N) args (ca_base args) version"

text \<open>\<open>k\<close> is the key of the keypair.\<close>

fun purpose :: "('w, 's) environment \<Rightarrow> cli_args \<Rightarrow> pubkey \<Rightarrow> commands \<Rightarrow> client_instruction \<Rightarrow> bool" where
  "purpose N args k (ClaimCommand path) ix \<longleftrightarrow>
     (\<exists>accs u pf. ix = Program (NewClaim accs u 0 pf) \<and> nc_claimant accs = k \<and> nc_to accs = ata N args k) \<or>
     (\<exists>accs. ix = Program (ClaimLocked accs) \<and> cl_claimant accs = k \<and> cl_to accs = ata N args k)"
| "purpose N args k (ClaimFromApiCommand a) ix \<longleftrightarrow>
     (\<exists>accs u pf. ix = Program (NewClaim accs u 0 pf) \<and> nc_claimant accs = k \<and> nc_to accs = ata N args k) \<or>
     (\<exists>u. ix = TokenTransfer (ata N args k) (ata N args k) k u)"
| "purpose N args k (NewDistributorCommand a) ix \<longleftrightarrow>
     (\<exists>accs nargs. ix = Program (NewDistributor accs nargs) \<and> nd_admin accs = k \<and>
       en_read_keypair N (nda_base_path a) = Some (nd_base accs) \<and> nd_mint accs = ca_mint args \<and>
       nd_clawback_receiver accs = ata N args (nda_clawback_receiver_owner a) \<and>
       na_start_vesting_ts nargs = nda_start_vesting_ts a \<and> na_end_vesting_ts nargs = nda_end_vesting_ts a \<and>
       na_clawback_start_ts nargs = nda_clawback_start_ts a \<and> na_closable nargs = nda_closable a)"
| "purpose N args k (CloseDistributorCommand a) ix \<longleftrightarrow>
     (\<exists>accs v. ix = Program (CloseDistributor accs) \<and> cd_admin accs = k \<and>
       cd_distributor accs = distributor_at N args v \<and> cda_airdrop_version a \<in> {None, Some v} \<and>
       cd_destination_token_account accs = ata N args k)"
| "purpose N args k CloseClaimStatusCommand ix \<longleftrightarrow>
     (\<exists>accs. ix = Program (CloseClaimStatus accs) \<and> cc_admin accs = k)"
| "purpose N args k (ClawbackCommand path) ix \<longleftrightarrow>
     (\<exists>accs v. ix = Program (Clawback accs) \<and> cb_distributor accs = distributor_at N args v)"
| "purpose N args k (SetAdminCommand a) ix \<longleftrightarrow>
     (\<exists>accs v. ix = Program (SetAdmin accs) \<and> sa_distributor accs = distributor_at N args v \<and>
       sa_new_admin accs = sda_new_admin a)"
| "purpose N args k (SetEnableSlotCommand a) ix \<longleftrightarrow>
     (\<exists>accs v. ix = Program (SetEnableSlot accs (ses_slot a)) \<and> se_distributor accs = distributor_at N args v \<and>
       ses_from_version a \<le> v \<and> v \<le> ses_to_version a)"
| "purpose N args k (SetEnableSlotByTimeCommand a) ix \<longleftrightarrow>
     (\<exists>accs v slot. ix = Program (SetEnableSlot accs slot) \<and> se_distributor accs = distributor_at N args v \<and>
       sbt_airdrop_version a \<in> {None, Some v})"
| "purpose N args k (SetClawbackStartTsCommand a) ix \<longleftrightarrow>
     (\<exists>accs v. ix = Program (SetClawbackStartTs accs (scs_clawback_start_ts a)) \<and>
       st_distributor accs = distributor_at N args v \<and> scs_from_version a \<le> v \<and> v \<le> scs_to_version a)"
| "purpose N args k (SetClawbackReceiverCommand a) ix \<longleftrightarrow>
     (\<exists>accs v. ix = Program (SetClawbackReceiver accs) \<and> sr_distributor accs = distributor_at N args v \<and>
       sr_new_clawback_account accs = ata N args (cra_receiver a))"
| "purpose N args k (FundAllCommand path) ix \<longleftrightarrow>
     (\<exists>v amt. ix = TokenTransfer (ata N args k) (ata N args (distributor_at N args v)) k amt)"
| "purpose N args k (MassSendCommand a) ix \<longleftrightarrow>
     (\<exists>addresses sent address user. parse_new_record (sh_read_records (en_shell N)) (msa_csv_path a) = Inr addresses \<and>
       sh_load_sent (en_shell N) (msa_des_path a) = Some sent \<and>
       address \<in> set addresses \<and> sent address = None \<and> pubkey_from_str (en_host N) address = Some user \<and>
       ix = TokenTransfer (ata N args k) (ata N args user) k (msa_amount a))"
| "purpose N args k (ResendCommand a) ix \<longleftrightarrow>
     (\<exists>user. ix = TokenTransfer (ata N args k) (ata N args user) k (rsa_amount a))"
| "purpose N args k cmd ix \<longleftrightarrow> False"

text \<open>The commands that print instead of sending when base58 is asked for, and those that only look.\<close>

fun submits :: "cli_args \<Rightarrow> commands \<Rightarrow> bool" where
  "submits args (SetAdminCommand a) \<longleftrightarrow> \<not> ca_bs58 args"
| "submits args (SetEnableSlotCommand a) \<longleftrightarrow> \<not> ca_bs58 args"
| "submits args (SetClawbackStartTsCommand a) \<longleftrightarrow> \<not> ca_bs58 args"
| "submits args (SetClawbackReceiverCommand a) \<longleftrightarrow> \<not> ca_bs58 args"
| "submits args (CreateMerkleTreeCommand a) \<longleftrightarrow> False"
| "submits args (CreateMerkleTreeBlobCommand a) \<longleftrightarrow> False"
| "submits args (VerifyCommand a) \<longleftrightarrow> False"
| "submits args (SlotByTimeCommand t) \<longleftrightarrow> False"
| "submits args (GenerateKvProofCommand a) \<longleftrightarrow> False"
| "submits args ViewClaimStatusCommand \<longleftrightarrow> False"
| "submits args (VerifyKvProofCommand a) \<longleftrightarrow> False"
| "submits args (TotalClaimCommand n) \<longleftrightarrow> False"
| "submits args (ViewDistributorsCommand a) \<longleftrightarrow> False"
| "submits args cmd \<longleftrightarrow> True"

fun other_signers :: "('w, 's) environment \<Rightarrow> commands \<Rightarrow> pubkey set" where
  "other_signers N (NewDistributorCommand a) = set_option (en_read_keypair N (nda_base_path a))"
| "other_signers N cmd = {}"

definition permitted :: "('w, 's) environment \<Rightarrow> cli_args \<Rightarrow> commands \<Rightarrow> transaction \<Rightarrow> bool" where
  "permitted N args cmd tx \<longleftrightarrow> submits args cmd \<and> ca_keypair args = Some (tr_payer tx) \<and>
     tr_signers tx = insert (tr_payer tx) (other_signers N cmd) \<and>
     (\<forall>ix\<in>set (tr_instructions tx). required_signers ix \<subseteq> tr_signers tx \<and>
       (housekeeping (tr_payer tx) ix \<or> purpose N args (tr_payer tx) cmd ix))"

lemma housekeeping_simps [simp]:
  "housekeeping k (SetLimit u)" "housekeeping k (SetPrice p)"
  "housekeeping k (CreateTokenAccount payer wallet mint) \<longleftrightarrow> payer = k"
  "\<not> housekeeping k (TokenTransfer from to authority amt)" "\<not> housekeeping k (Program ins)"
  by (auto simp: housekeeping_def)

lemma price_members [simp]:
  "ix \<in> set (price_instructions fee) \<longleftrightarrow> (\<exists>p. fee = Some p \<and> ix = SetPrice p)"
  by (auto simp: price_instructions_def split: option.split)

text \<open>What a transaction of a command looks like.\<close>

lemma permittedI:
  assumes "submits args cmd" and "ca_keypair args = Some k" and "keys = insert k (other_signers N cmd)"
    and "insert k (\<Union>ix\<in>set ixs. required_signers ix) = keys"
    and "\<And>ix. ix \<in> set ixs \<Longrightarrow> housekeeping k ix \<or> purpose N args k cmd ix"
  shows "permitted N args cmd \<lparr>tr_instructions = ixs, tr_payer = k, tr_signers = keys, tr_blockhash = b\<rparr>"
  using assms by (auto simp: permitted_def)

section \<open>The building blocks keep to it\<close>

lemma signed_keeps:
  assumes "obeys client (permitted N args cmd) I" and "submits args cmd" and "ca_keypair args = Some k"
    and "keys = insert k (other_signers N cmd)"
    and "\<And>ix. ix \<in> set ixs \<Longrightarrow> housekeeping k ix \<or> purpose N args k cmd ix"
    and "\<And>tx. permitted N args cmd tx \<Longrightarrow> keeps I (send tx)"
  shows "keeps I (sign_and_send client ixs k keys send)"
  using assms(1)
proof (rule sign_and_send_keeps)
  fix b assume "insert k (\<Union>ix\<in>set ixs. required_signers ix) = keys"
  from permittedI [OF assms(2-4) this assms(5)] show
    "keeps I (send \<lparr>tr_instructions = ixs, tr_payer = k, tr_signers = keys, tr_blockhash = b\<rparr>)"
    by (rule assms(6))
qed

lemma for_each_file_keeps [keeps_intro]:
  "(\<And>t. keeps I (body t)) \<Longrightarrow> keeps I (for_each_file H dir body)"
  unfolding for_each_file_def by (intro keeps_intro)

lemma admin_round_keeps:
  assumes obeys: "obeys client (permitted N args cmd) I" and "submits args cmd \<longleftrightarrow> \<not> bs58"
    and "ca_keypair args = Some k" and "other_signers N cmd = {}"
    and "\<And>d. purpose N args k cmd (Program (ix d))"
    and "\<And>tx. permitted N args cmd tx \<Longrightarrow> keeps I (send tx)"
  shows "keeps I (admin_round client bs58 fee k distributor already ix send)"
proof -
  have "keeps I (sign_and_send client (price_instructions fee @ [Program (ix d)]) k {k} send)" if "\<not> bs58" for d
    by (rule signed_keeps [OF obeys]) (use assms that in auto)
  then show ?thesis
    unfolding admin_round_def Let_def by (auto intro!: keeps_intro obeys_reads [OF obeys])
qed

lemma send_or_panic_keeps:
  assumes "obeys client (permitted N args cmd) I" and "submits args cmd" and "ca_keypair args = Some k"
    and "other_signers N cmd = {}"
    and "\<And>ix. ix \<in> set ixs \<Longrightarrow> housekeeping k ix \<or> purpose N args k cmd ix"
  shows "keeps I (send_or_panic client k ixs)" and "keeps I (send_and_unwrap client k ixs)"
  unfolding send_or_panic_def send_and_unwrap_def
  by (intro keeps_intro signed_keeps [OF assms(1-3) _ assms(5)] obeys_sends(3) [OF assms(1)];
      simp add: assms(4))+

lemma fetch_slot_at_keeps [keeps_intro]:
  "obeys client good I \<Longrightarrow> keeps I (fetch_slot_at client t)"
  unfolding fetch_slot_at_def by (auto intro!: keeps_intro obeys_reads split: prod.split)

lemma retry_passes_keeps:
  assumes "obeys client good I" and "keeps I pass"
  shows "keeps I (retry_passes client pass)"
  unfolding retry_passes_def retry_round_def
  by (intro keeps_intro) (auto intro!: keeps_intro obeys_reads [OF assms(1)] assms(2) split: sum.split)

lemma and_ok_keeps [keeps_intro]: "keeps I m \<Longrightarrow> keeps I (and_ok m)"
  unfolding and_ok_def by (intro keeps_intro)

section \<open>The commands keep to it\<close>

lemma set_admin_keeps:
  fixes N :: "('w, 's) environment"
  defines "good \<equiv> \<lambda>args a. permitted N args (SetAdminCommand a)"
  assumes "obeys client (good args a) I" and "obeys send_client (good args a) I"
  shows "keeps I (process_set_admin client send_client (en_runtime N) H args dir (sda_new_admin a))"
  unfolding process_set_admin_def Let_def
  by (intro keeps_intro admin_round_keeps [OF assms(2) [unfolded good_def]]
      send_transaction_keeps [OF assms(2,3) [unfolded good_def]]) auto

lemma set_clawback_receiver_keeps:
  assumes "obeys client (permitted N args (SetClawbackReceiverCommand a)) I"
  shows "keeps I (process_set_clawback_receiver client (en_runtime N) H args dir (cra_receiver a))"
  unfolding process_set_clawback_receiver_def Let_def
  by (intro keeps_intro admin_round_keeps [OF assms] obeys_sends(2) [OF assms]) auto

lemma set_enable_slot_keeps:
  assumes "obeys client (permitted N args (SetEnableSlotCommand a)) I"
  shows "keeps I (process_set_enable_slot client (en_runtime N) args (ses_from_version a)
    (ses_to_version a) (ses_slot a))"
  unfolding process_set_enable_slot_def Let_def
  by (intro keeps_intro admin_round_keeps [OF assms] obeys_sends(3) [OF assms])
    (auto simp: inclusive_range_set)

lemma set_clawback_start_ts_keeps:
  assumes "obeys client (permitted N args (SetClawbackStartTsCommand a)) I"
  shows "keeps I (process_set_clawback_start_ts client (en_runtime N) args (scs_from_version a)
    (scs_to_version a) (scs_clawback_start_ts a))"
  unfolding process_set_clawback_start_ts_def Let_def
  by (intro keeps_intro admin_round_keeps [OF assms] obeys_sends(3) [OF assms])
    (auto simp: inclusive_range_set)

lemma clawback_keeps:
  assumes "obeys client (permitted N args (ClawbackCommand path)) I"
  shows "keeps I (process_clawback client (en_runtime N) H args dir)"
  unfolding process_clawback_def Let_def
  by (intro keeps_intro admin_round_keeps [OF assms] send_transaction_keeps [OF assms assms]) auto

lemma set_enable_slot_by_time_keeps:
  assumes "obeys client (permitted N args (SetEnableSlotByTimeCommand a)) I"
  shows "keeps I (process_set_enable_slot_by_time client (en_runtime N) H args dir (sbt_timestamp a)
    (sbt_airdrop_version a))"
  unfolding process_set_enable_slot_by_time_def
  by (intro keeps_intro fetch_slot_at_keeps [OF assms])
    (auto intro!: keeps_intro send_or_panic_keeps(1) [OF assms] simp: set_slot_instruction_def
      split: option.split)

lemma fund_all_keeps:
  assumes "obeys client (permitted N args (FundAllCommand path)) I"
    and "obeys send_client (permitted N args (FundAllCommand path)) I"
  shows "keeps I (process_fund_all client send_client (en_runtime N) H args dir)"
proof -
  have "keeps I (fund_one client send_client (en_runtime N) H args k p is_error)"
    if "ca_keypair args = Some k" for k p is_error
    unfolding fund_one_def Let_def
    by (intro keeps_intro obeys_reads [OF assms(1)])
      (auto intro!: keeps_intro signed_keeps [OF assms(1)] send_transaction_keeps [OF assms]
        simp: that split: sum.split)
  then show ?thesis
    unfolding process_fund_all_def fund_all_def
    by (intro retry_passes_keeps [OF assms(1)] keeps_intro)
qed

lemma close_distributor_keeps:
  assumes "obeys client (permitted N args (CloseDistributorCommand a)) I"
  shows "keeps I (process_close_distributor client (en_runtime N) H args dir (cda_airdrop_version a))"
proof -
  have existing: "keeps I (close_existing client (en_runtime N) args k
      (distributor_of (en_runtime N) args (ca_base args) v) d)"
    if "ca_keypair args = Some k" "cda_airdrop_version a \<in> {None, Some v}" for k v d
    unfolding close_existing_def
    by (rule keeps_seq_values [OF create_if_missing_keeps [OF assms]],
        rule signed_keeps [OF assms _ that(1) _ _ obeys_sends(2) [OF assms]])
      (use that(2) in \<open>auto dest!: create_if_missing_values\<close>)
  have "keeps I (close_one client (en_runtime N) H args (cda_airdrop_version a) path u)" for path u
    unfolding close_one_def Let_def
    by (intro keeps_intro keeps_if obeys_reads [OF assms])
      (auto intro!: keeps_intro existing split: option.split option.splits)
  then show ?thesis
    unfolding process_close_distributor_def by (intro keeps_intro)
qed

lemma new_distributor_keeps:
  assumes "obeys client (permitted N args (NewDistributorCommand a)) I"
    and "obeys send_client (permitted N args (NewDistributorCommand a)) I"
  shows "keeps I (process_new_distributor client send_client (en_runtime N) H args
    (new_distributor_options_of N a) dir)"
proof -
  let ?cmd = "NewDistributorCommand a" and ?opts = "new_distributor_options_of N a"
  have send: "keeps I (send_new_distributor client send_client (en_runtime N) args ?opts k base t e tx)"
    if "permitted N args ?cmd tx" for k base t e tx
    unfolding send_new_distributor_def Let_def
    by (intro keeps_intro keeps_if obeys_sends(2) [OF assms(2)] send_transaction_keeps [OF assms]
        obeys_reads [OF assms(1)] that)
      (auto intro!: keeps_intro split: sum.split option.split)
  have missing: "keeps I (create_missing client send_client (en_runtime N) args ?opts k base t e)"
    if "ca_keypair args = Some k" "no_base ?opts = Some base" for k base t e
    unfolding create_missing_def
    by (rule keeps_seq_values [OF create_if_missing_keeps [OF assms(1)]],
        rule keeps_seq_values [OF create_if_missing_keeps [OF assms(1)]],
        rule signed_keeps [OF assms(1) _ that(1) _ _ send])
      (use that in \<open>auto dest!: create_if_missing_values simp: new_distributor_options_of_def
        create_distributor_instruction_def Let_def\<close>)
  have "keeps I (create_one client send_client (en_runtime N) H args ?opts k base path e)"
    if "ca_keypair args = Some k" "no_base ?opts = Some base" for k base path e
    unfolding create_one_def Let_def
    by (intro keeps_intro keeps_if obeys_reads [OF assms(1)])
      (auto intro!: keeps_intro missing that split: sum.split option.split)
  then show ?thesis
    unfolding process_new_distributor_def create_new_distributor_def
    by (intro retry_passes_keeps [OF assms(1)] keeps_intro)
qed

text \<open>What \<open>process_new_claim\<close> builds.\<close>

lemma process_new_claim_purpose:
  assumes "process_new_claim E program base mint fee get_account k t = Inr ixs" and "ix \<in> set ixs"
  shows "housekeeping k ix \<or>
    (\<exists>accs u pf. ix = Program (NewClaim accs u 0 pf) \<and> nc_claimant accs = k \<and>
      nc_to accs = get_associated_token_address E k mint)"
  using assms
  by (auto simp: process_new_claim_def Let_def exec_iff client_new_claim_def split: account_answer.splits)

lemma new_claim_keeps:
  assumes "obeys client (permitted N args (ClaimCommand path)) I"
  shows "keeps I (run_new_claim client (en_runtime N) H args p)"
proof -
  have "keeps I (send_and_unwrap client k ixs)"
    if "ca_keypair args = Some k" and built: "process_new_claim (en_runtime N) (ca_program_id args) (ca_base args)
      (ca_mint args) (ca_priority_fee args) (\<lambda>_. answer) k t = Inr ixs" for k answer t ixs
    by (rule send_or_panic_keeps(2) [OF assms _ that(1)])
      (use process_new_claim_purpose [OF built] in \<open>simp_all, blast\<close>)
  then show ?thesis
    unfolding run_new_claim_def
    by (intro keypair_keeps keeps_seq_result keeps_seq obeys_reads [OF assms])
qed

lemma claim_keeps:
  assumes "obeys client (permitted N args (ClaimCommand path)) I"
  shows "keeps I (run_claim client (en_runtime N) H args path)"
  unfolding run_claim_def Let_def
  by (intro keeps_intro obeys_reads [OF assms] send_or_panic_keeps(2) [OF assms])
    (auto intro!: keeps_intro new_claim_keeps [OF assms] split: account_answer.split)

lemma forward_transfer_keeps:
  "obeys client good I \<Longrightarrow> keeps I (forward_transfer client E mint k owner amt)"
  unfolding forward_transfer_def Let_def by (intro keeps_intro keeps_if obeys_reads)

lemma forward_transfer_purpose:
  assumes "possible (forward_transfer client (en_runtime N) (ca_mint args) k owner amt) ixs" and "ix \<in> set ixs"
  shows "housekeeping k ix \<or> purpose N args k (ClaimFromApiCommand a) ix"
proof (cases "owner = k")
  case True
  with assms show ?thesis by (simp add: forward_transfer_def)
next
  case False
  with assms(1) have "possible (seq (call (get_account_data_is_ok client (ata N args k))) (\<lambda>ok.
      ret (create_as_found k (ata N args k) (ca_mint args) ok @ [TokenTransfer (ata N args k) (ata N args k) k amt]))) ixs"
    by (simp add: forward_transfer_def Let_def)
  from possible_seqD [OF this] obtain ok where
    "ixs = create_as_found k (ata N args k) (ca_mint args) ok @ [TokenTransfer (ata N args k) (ata N args k) k amt]"
    by auto
  with assms(2) show ?thesis by (auto simp: create_as_found_def split: if_splits)
qed

lemma claim_from_api_keeps:
  assumes "obeys client (permitted N args (ClaimFromApiCommand a)) I" and "leaves_alone (en_shell N) I"
  shows "keeps I (run_claim_from_api client (en_runtime N) H (en_shell N) args (cfa_root_api a)
    (cfa_destination_owner a))"
proof -
  let ?cmd = "ClaimFromApiCommand a"
  have "keeps I (send_and_unwrap client k (price_instructions (ca_priority_fee args) @
      create_as_found k (ata N args k) (ca_mint args) ok @
      [Program (NewClaim (client_new_claim (en_runtime N) (ca_program_id args) (ca_mint args) d k) u 0 pf)] @
      forward))"
    if k: "ca_keypair args = Some k" and
      f: "possible (forward_transfer client (en_runtime N) (ca_mint args) k owner v) forward"
    for k ok d u v pf forward owner
  proof (rule send_or_panic_keeps(2) [OF assms(1) _ k])
    fix ix
    assume "ix \<in> set (price_instructions (ca_priority_fee args) @
      create_as_found k (ata N args k) (ca_mint args) ok @
      [Program (NewClaim (client_new_claim (en_runtime N) (ca_program_id args) (ca_mint args) d k) u 0 pf)] @ forward)"
    then consider "ix \<in> set forward" | "ix \<in> set (price_instructions (ca_priority_fee args))"
      | "ix \<in> set (create_as_found k (ata N args k) (ca_mint args) ok)"
      | "ix = Program (NewClaim (client_new_claim (en_runtime N) (ca_program_id args) (ca_mint args) d k) u 0 pf)"
      by auto
    then show "housekeeping k ix \<or> purpose N args k ?cmd ix"
    proof cases
      case 1
      with f show ?thesis by (rule forward_transfer_purpose)
    next
      case 4
      then have "purpose N args k ?cmd ix" by (simp add: client_new_claim_def)
      then show ?thesis ..
    qed (auto simp: create_as_found_def split: if_splits)
  qed simp_all
  then show ?thesis
    unfolding run_claim_from_api_def Let_def
    by (intro keypair_keeps keeps_seq [OF leaves_alone_writes(3) [OF assms(2)]]
        keeps_seq [OF obeys_reads(5) [OF assms(1)]]
        keeps_seq_values [OF forward_transfer_keeps [OF assms(1)]])
qed

lemma close_one_status_values:
  fixes client :: "('a, 'b) rpc"
  assumes "possible (close_one_status client k v ixs) (Continue c)" and "ix \<in> set c"
  shows "ix \<in> set ixs \<or> ix = close_instruction k v"
proof (cases "11 \<le> length (ixs @ [close_instruction k v])")
  case True
  with assms(1) have "possible (seq (sign_and_send client (ixs @ [close_instruction k v]) k {k}
      (\<lambda>tx. call (client_send_transaction client tx))) (\<lambda>r.
      ret (Continue (case r of Inr _ \<Rightarrow> [] | Inl e \<Rightarrow> ixs @ [close_instruction k v])) :: ('a, (client_instruction list, unit) flow) run))
      (Continue c)"
    by (simp add: close_one_status_def Let_def)
  from possible_seqD [OF this] obtain r :: "string + 'b" where
    "possible (ret (Continue (case r of Inr _ \<Rightarrow> [] | Inl e \<Rightarrow> ixs @ [close_instruction k v])) ::
      ('a, (client_instruction list, unit) flow) run) (Continue c)" by blast
  then have "c = (case r of Inr _ \<Rightarrow> [] | Inl e \<Rightarrow> ixs @ [close_instruction k v])" by simp
  with assms(2) show ?thesis by (cases r) auto
qed (use assms in \<open>auto simp: close_one_status_def Let_def\<close>)

lemma close_claim_status_keeps:
  fixes client :: "('a, 'b) rpc"
  assumes "obeys client (permitted N args CloseClaimStatusCommand) I"
  shows "keeps I (process_close_claim_status client args)"
proof -
  let ?ok = "\<lambda>k ixs. set ixs \<subseteq> range (close_instruction k)"
  have new: "purpose N args k CloseClaimStatusCommand (close_instruction k v)" for k v
    by (simp add: close_instruction_def)
  have send: "keeps I (sign_and_send client ixs k {k} send)"
    if "ca_keypair args = Some k" "?ok k ixs" "\<And>tx. permitted N args CloseClaimStatusCommand tx \<Longrightarrow> keeps I (send tx)"
    for k ixs and send :: "transaction \<Rightarrow> ('a, string + 'b) run"
    by (rule signed_keeps [OF assms _ that(1) _ _ that(3)]) (use that(2) new in fastforce)+
  have body: "keeps I (close_one_status client k v ixs)" if "ca_keypair args = Some k" "?ok k ixs" for k v ixs
  proof -
    have "?ok k (ixs @ [close_instruction k v])" using that(2) by auto
    from send [OF that(1) this obeys_sends(2) [OF assms]] show ?thesis
      unfolding close_one_status_def Let_def by (intro keeps_if keeps_seq keeps_pure)
  qed
  have state: "?ok k c" if "?ok k ixs" "possible (close_one_status client k v ixs) (Continue c)" for k v ixs c
    using that by (blast dest: close_one_status_values)
  have loop: "keeps I (for_loop (close_one_status client k) vs [])" if "ca_keypair args = Some k" for k vs
    by (rule keeps_for_loop_state [where P = "?ok k", OF state body [OF that]]) auto
  have end_state: "?ok k c" if "possible (for_loop (close_one_status client k) vs []) (Continue c)" for k vs c
    by (rule for_loop_values [where P = "?ok k", OF state _ that]) auto
  have last: "keeps I (case c of Continue ixs \<Rightarrow> if ixs = [] then ret ()
      else seq (sign_and_send client ixs k {k} (\<lambda>tx. call (send_and_confirm client tx))) (\<lambda>_. ret ())
      | _ \<Rightarrow> ret ())"
    if "ca_keypair args = Some k" "possible (for_loop (close_one_status client k) vs []) c" for k vs c
  proof (cases c)
    case (Continue ixs)
    from send [OF that(1) end_state [OF that(2) [unfolded Continue]] obeys_sends(3) [OF assms]]
    show ?thesis unfolding Continue flow.case by (intro keeps_if keeps_seq keeps_pure)
  qed (simp_all add: keeps_pure)
  show ?thesis
    unfolding process_close_claim_status_def
    by (intro keeps_seq [OF obeys_reads(6) [OF assms]] keypair_keeps keeps_seq_values [OF loop] last)
qed

text \<open>A batch may go to addresses that the command is to pay.\<close>

lemma send_and_record_keeps:
  assumes obeys: "obeys client (permitted N args cmd) I" and "leaves_alone sh I"
    and "submits args cmd" and "other_signers N cmd = {}"
    and pays: "\<And>k address user. ca_keypair args = Some k \<Longrightarrow> address \<in> set addresses \<Longrightarrow>
      pubkey_from_str H address = Some user \<Longrightarrow>
      purpose N args k cmd (TokenTransfer (ata N args k) (ata N args user) k amt)"
  shows "keeps I (send_and_record client (en_runtime N) H sh args amt path addresses sent)"
proof (rule send_and_record_obeys [OF obeys assms(2)])
  fix k ixs q b
  assume k: "ca_keypair args = Some k"
    and r: "possible (batch_instructions client (en_runtime N) H k (ca_mint args) amt addresses) (ixs, q)"
    and keys: "insert k (\<Union>ix\<in>set (SetLimit 1000000 # price_instructions (ca_priority_fee args) @ ixs).
      required_signers ix) = {k}"
  have "housekeeping k ix \<or> purpose N args k cmd ix" if "ix \<in> set ixs" for ix
    using batch_instructions_values [OF r, of ix] pays [OF k] that by auto
  then show "permitted N args cmd \<lparr>tr_instructions = SetLimit 1000000 # price_instructions (ca_priority_fee args) @ ixs,
      tr_payer = k, tr_signers = {k}, tr_blockhash = b\<rparr>"
    by (intro permittedI [OF assms(3) k _ keys]) (auto simp: assms(4))
qed

lemma mass_send_keeps:
  assumes "obeys client (permitted N args (MassSendCommand a)) I" and "leaves_alone (en_shell N) I"
  shows "keeps I (run_mass_send client (en_runtime N) (en_host N) (en_shell N) args (msa_csv_path a)
    (msa_des_path a) (msa_max_address_per_tx a) (msa_amount a))"
proof -
  have "keeps I (send_and_record client (en_runtime N) (en_host N) (en_shell N) args (msa_amount a)
      (msa_des_path a) batch s)"
    if read: "parse_new_record (sh_read_records (en_shell N)) (msa_csv_path a) = Inr addresses"
        "sh_load_sent (en_shell N) (msa_des_path a) = Some sent"
      and batch: "batch \<in> set (batch_loop n (\<lambda>x. sent x \<noteq> None) addresses [])"
    for addresses sent n batch s
  proof (rule send_and_record_keeps [OF assms])
    fix k address user
    assume "address \<in> set batch" and user: "pubkey_from_str (en_host N) address = Some user"
    with batch have "address \<in> set (concat (batch_loop n (\<lambda>x. sent x \<noteq> None) addresses []))" by auto
    then have "address \<in> set addresses" "sent address = None" by (simp_all add: batch_loop_concat)
    with read user show "purpose N args k (MassSendCommand a)
        (TokenTransfer (ata N args k) (ata N args user) k (msa_amount a))" by auto
  qed simp_all
  then show ?thesis unfolding run_mass_send_def by (intro unwrapped_keeps keypair_keeps keeps_seq keeps_for_loop keeps_pure)
qed

lemma resend_keeps:
  assumes "obeys client (permitted N args (ResendCommand a)) I" and "leaves_alone (en_shell N) I"
  shows "keeps I (process_resend client (en_runtime N) H (en_shell N) args (rsa_des_path a)
    (rsa_max_address_per_tx a) (rsa_amount a))"
proof -
  have "keeps I (resend_one client (en_runtime N) H (en_shell N) args (rsa_des_path a) n (rsa_amount a) e s)"
    for n e s
    unfolding resend_one_def
    by (intro keypair_keeps keeps_seq keeps_if keeps_pure obeys_reads(7) [OF assms(1)]
        send_and_record_keeps [OF assms]) auto
  then show ?thesis unfolding process_resend_def by (intro keypair_keeps keeps_seq keeps_for_loop keeps_pure)
qed

section \<open>The commands that only look\<close>

lemma views_keep:
  assumes "obeys client good I"
  shows "keeps I (view_claim_status client)" and "keeps I (get_total_claim client E args n)"
    and "keeps I (view_distributors client E args v1 v2)" and "keeps I (run_verify client E H args dir va)"
    and "keeps I (process_get_slot client t)"
  unfolding view_claim_status_def get_total_claim_def view_distributors_def view_one_def run_verify_def
    verify_one_def process_get_slot_def Let_def
  by (intro keeps_intro keeps_if obeys_reads [OF assms] fetch_slot_at_keeps [OF assms])+

lemma checks_keep:
  assumes "leaves_alone sh I"
  shows "keeps I (verify_kv_proof sh path kv local n)"
    and "keeps I (run_create_merkle_tree h H K sh path dir max_nodes decimals)"
    and "keeps I (run_create_merkle_tree_blob H K sh path dir)"
    and "keeps I (process_generate_kv_proof E H sh kv_json args paths path max_entries)"
proof -
  note writes = leaves_alone_writes [OF assms]
  show "keeps I (verify_kv_proof sh path kv local n)"
    unfolding verify_kv_proof_def verify_kv_one_def Let_def by (intro keeps_intro writes)
  have dir: "keeps I (create_dir_all sh d)" for d
    unfolding create_dir_all_def by (intro keeps_intro writes)
  have panic: "keeps I (write_or_panic sh d name bytes)" for d name bytes
    unfolding write_or_panic_def by (intro keeps_intro writes)
  show "keeps I (run_create_merkle_tree h H K sh path dir max_nodes decimals)"
    unfolding run_create_merkle_tree_def Let_def
    by (intro keeps_intro dir) (auto intro!: keeps_intro panic split: prod.split)
  show "keeps I (run_create_merkle_tree_blob H K sh path dir)"
    unfolding run_create_merkle_tree_blob_def convert_one_def
    by (intro keeps_intro dir) (auto intro!: keeps_intro writes split: option.split sum.split failure.split)
  have kv: "keeps I (write_kv_file sh kv_json path st)" for st
    unfolding write_kv_file_def by (intro keeps_intro dir panic)
  show "keeps I (process_generate_kv_proof E H sh kv_json args paths path max_entries)"
    unfolding process_generate_kv_proof_def kv_tree_def kv_node_def Let_def
    by (intro keeps_intro keeps_if kv) (auto intro!: keeps_intro kv split: flow.split)
qed

section \<open>Every command\<close>

lemma cli_main_keeps:
  assumes "obeys (en_confirmed N) (permitted N args cmd) I" and "obeys (en_finalized N) (permitted N args cmd) I"
    and "obeys (en_extra_send N) (permitted N args cmd) I" and "leaves_alone (en_shell N) I"
  shows "keeps I (cli_main N args cmd)"
  using assms
  by (cases cmd)
    (auto intro!: and_ok_keeps set_admin_keeps set_clawback_receiver_keeps set_enable_slot_keeps
      set_clawback_start_ts_keeps clawback_keeps set_enable_slot_by_time_keeps fund_all_keeps
      close_distributor_keeps new_distributor_keeps claim_keeps claim_from_api_keeps
      close_claim_status_keeps mass_send_keeps resend_keeps checks_keep intro: views_keep)

end
