(* ===== verification/Command_Instance.thy ===== *)
theory Command_Instance
  imports Tool_Instance Cli_Main File_Codec
begin

text \<open>
  The instance of \<open>Tool_Instance\<close> as an environment of \<open>main\<close>, with files in which every list is
  empty and every directory holds the one distribution file, and the runs of commands in it.
\<close>

section \<open>Evaluation\<close>

lemma succeeds_eval:
  "succeeds (ret a) w Q \<longleftrightarrow> Q a w"
  "succeeds (of_result r) w Q \<longleftrightarrow> (\<exists>a. r = Inr a \<and> Q a w)"
  "succeeds (call g) w Q \<longleftrightarrow> Q (fst (g w)) (snd (g w))"
  "succeeds (seq m f) w R \<longleftrightarrow> succeeds m w (\<lambda>a w'. succeeds (f a) w' R)"
  by (auto simp: succeeds_def seq_def split: option.splits sum.splits)

lemma succeeds_loop:
  assumes "succeeds body w (\<lambda>a w'. \<exists>x. a = Some x \<and> Q x w')"
  shows "succeeds (loop body) w Q"
  using assms by (auto simp: succeeds_def loop_simps)

section \<open>The environment\<close>

definition entries_of :: "(string \<rightharpoonup> 'v) \<Rightarrow> (string \<times> 'v) list" where
  "entries_of m = map (\<lambda>k. (k, the (m k))) (sorted_list_of_set (dom m))"

lemma entries_enumerate: "enumerates entries_of"
  unfolding enumerates_def
proof (intro allI impI conjI)
  fix m :: "string \<rightharpoonup> 'v"
  assume "finite (dom m)"
  then show "distinct (map fst (entries_of m))" by (simp add: entries_of_def comp_def)
  from \<open>finite (dom m)\<close> show "map_of (entries_of m) = m"
    by (auto simp: entries_of_def map_of_map_keys fun_eq_iff restrict_map_def dom_def)
qed

definition demo_shell ::
  "string list \<Rightarrow> (string \<rightharpoonup> string) \<Rightarrow> ('s \<Rightarrow> string) \<Rightarrow> (string \<Rightarrow> 's option) \<Rightarrow> ('w, 's) shell" where
  "demo_shell records sent print parse = \<lparr>sh_read_dir = (\<lambda>path. Some [''a.json'']),
     sh_read_csv = (\<lambda>path. Inr []), sh_read_records = (\<lambda>path. Inr (map Some records)),
     sh_load_sent = (\<lambda>path. Some sent), sh_store_sent = (\<lambda>path m w. (True, w)),
     sh_create_dir = (\<lambda>dir w. (True, w)), sh_write_file = (\<lambda>dir name bytes w. (True, w)),
     sh_get_proof = (\<lambda>url w. (None, w)), sh_gen_range = (\<lambda>n w. (0, w)),
     sh_signature_text = print, sh_signature_from = parse,
     sh_entries = entries_of, sh_groups = entries_of\<rparr>"

lemma demo_shell_sel [simp]:
  "sh_read_dir (demo_shell rs sent f g) path = Some [''a.json'']"
  "sh_read_records (demo_shell rs sent f g) path = Inr (map Some rs)" "sh_load_sent (demo_shell rs sent f g) path = Some sent"
  "sh_store_sent (demo_shell rs sent f g) path m w = (True, w)"
  "sh_create_dir (demo_shell rs sent f g) dir w = (True, w)"
  "sh_write_file (demo_shell rs sent f g) dir name bytes w = (True, w)"
  "sh_get_proof (demo_shell rs sent f g) url w = (None, w)" "sh_gen_range (demo_shell rs sent f g) n w = (0, w)"
  "sh_signature_text (demo_shell rs sent f g) = f" "sh_signature_from (demo_shell rs sent f g) = g"
  "sh_entries (demo_shell rs sent f g) = entries_of" "sh_groups (demo_shell rs sent f g) = entries_of"
  by (simp_all add: demo_shell_def)

definition demo_environment :: "node_config \<Rightarrow> (node_world, transaction) environment" where
  "demo_environment C = \<lparr>en_confirmed = chain_node C, en_finalized = chain_node C,
     en_extra_send = chain_node C, en_runtime = demo, en_host = demo_host,
     en_shell = demo_shell [] Map.empty (\<lambda>tx. []) (\<lambda>s. None), en_codec = bytes_codec,
     en_kv_json = (\<lambda>proofs. []), en_read_keypair = (\<lambda>path. Some (fill32 1))\<rparr>"

lemma demo_environment_sel [simp]:
  "en_confirmed (demo_environment C) = chain_node C"
  "en_finalized (demo_environment C) = chain_node C"
  "en_extra_send (demo_environment C) = chain_node C"
  "en_runtime (demo_environment C) = demo" "en_host (demo_environment C) = demo_host"
  "en_shell (demo_environment C) = demo_shell [] Map.empty (\<lambda>tx. []) (\<lambda>s. None)"
  by (simp_all add: demo_environment_def)

section \<open>A new slot\<close>

definition demo_slot_command :: commands where
  "demo_slot_command = SetEnableSlotCommand \<lparr>ses_from_version = 0, ses_to_version = 0, ses_slot = 77\<rparr>"

definition demo_slot_chain :: chain where
  "demo_slot_chain = put_distributor (fill32 129) ((demo_distributor demo_leaf False 0 0 False)\<lparr>md_enable_slot := 77\<rparr>)
     (demo_open demo_leaf False)"

lemma demo_slot_set:
  "set_enable_slot (node_tx (demo_config t life) {fill32 3}) \<lparr>se_distributor = fill32 129, se_admin = fill32 3\<rparr>
     77 (demo_open demo_leaf False) = Inr demo_slot_chain"
  by (simp add: demo_slot_chain_def admin_Inr node_tx_def)

lemma demo_slot_sent:
  "succeeds (admin_round (chain_node (demo_config 500 3)) False None (fill32 3) (fill32 129)
     (\<lambda>d. md_enable_slot d = 77) (\<lambda>d. SetEnableSlot \<lparr>se_distributor = fill32 129, se_admin = md_admin d\<rparr> 77)
     (\<lambda>tx. call (send_and_confirm (chain_node (demo_config 500 3)) tx)))
     (demo_world 0 (demo_open demo_leaf False)) (\<lambda>a w'. \<exists>x. a = Some x \<and> nw_chain w' = demo_slot_chain)"
  using demo_slot_set [of 500 3]
  by (simp add: admin_round_def succeeds_eval sign_and_send_def new_signed_with_payer_def
      price_instructions_def demo_distributor_def chain_node_def execute_def demo_world_def)

lemma demo_slot_run:
  "succeeds (cli_main (demo_environment (demo_config 500 3)) (demo_cli False) demo_slot_command)
     (demo_world 0 (demo_open demo_leaf False)) (\<lambda>r w'. r = Inr () \<and> nw_chain w' = demo_slot_chain)"
  using succeeds_loop [OF demo_slot_sent]
  by (simp add: demo_slot_command_def and_ok_def process_set_enable_slot_def inclusive_range_def Let_def
      succeeds_eval)

text \<open>With base58 the message is printed and nothing is sent.\<close>

lemma demo_slot_printed:
  "succeeds (cli_main (demo_environment (demo_config 500 3)) (demo_cli True) demo_slot_command)
     (demo_world 0 (demo_open demo_leaf False)) (\<lambda>r w'. r = Inr () \<and> nw_printed w' \<noteq> [])"
proof -
  have "succeeds (admin_round (chain_node (demo_config 500 3)) True None (fill32 3) (fill32 129)
      (\<lambda>d. md_enable_slot d = 77) (\<lambda>d. SetEnableSlot \<lparr>se_distributor = fill32 129, se_admin = md_admin d\<rparr> 77)
      (\<lambda>tx. call (send_and_confirm (chain_node (demo_config 500 3)) tx)))
      (demo_world 0 (demo_open demo_leaf False)) (\<lambda>a w'. \<exists>x. a = Some x \<and> nw_printed w' \<noteq> [])"
    by (simp add: admin_round_def succeeds_eval demo_distributor_def)
  from succeeds_loop [OF this] show ?thesis
    by (simp add: demo_slot_command_def and_ok_def process_set_enable_slot_def inclusive_range_def Let_def
        succeeds_eval)
qed

section \<open>A clawback by anyone\<close>

definition demo_passer :: pubkey where
  "demo_passer = Bytes32 (4 # replicate 31 0)"

lemma demo_passer_not_filled: "fill32 b \<noteq> demo_passer"
proof
  have bytes: "to_bytes demo_passer = 4 # replicate 31 0"
    unfolding demo_passer_def by (rule Bytes32_inverse) simp
  assume "fill32 b = demo_passer"
  with bytes have eq: "replicate 32 b = 4 # replicate 31 0" by (metis to_bytes_fill32)
  from arg_cong [OF eq, of hd] arg_cong [OF eq, of last] have "b = 4" and "b = 0" by simp_all
  then show False by simp
qed

lemma demo_passer_claws_back:
  "clawback demo (node_tx (demo_config 100000 life) {demo_passer}) \<lparr>cb_distributor = fill32 129, cb_from = fill32 131,
     cb_to = fill32 9, cb_claimant = demo_passer\<rparr> (demo_withdrawn demo_leaf c) = Inr (demo_clawed demo_leaf c)"
  by (simp add: clawback_def validate_clawback_def handle_clawback_def transfer_signed_def node_tx_def
      check_defs demo_defs checked_defs put_distributor_def fun_eq_iff)

definition demo_passer_cli :: cli_args where
  "demo_passer_cli = (demo_cli False)\<lparr>ca_keypair := Some demo_passer\<rparr>"

lemma distributor_of_keypair [simp]:
  "distributor_of E (args\<lparr>ca_keypair := k\<rparr>) base version = distributor_of E args base version"
  by (simp add: distributor_of_def)

lemma demo_clawback_sent:
  "succeeds (admin_round (chain_node (demo_config 100000 3)) False None demo_passer (fill32 129) md_clawed_back
     (\<lambda>d. Clawback \<lparr>cb_distributor = fill32 129, cb_from = md_token_vault d, cb_to = md_clawback_receiver d,
       cb_claimant = demo_passer\<rparr>) (send_transaction (chain_node (demo_config 100000 3))
       (chain_node (demo_config 100000 3))))
     (demo_world 0 (demo_withdrawn demo_leaf False))
     (\<lambda>a w'. \<exists>x. a = Some x \<and> nw_chain w' = demo_clawed demo_leaf False)"
proof -
  let ?tx = "\<lparr>tr_instructions = [Program (Clawback \<lparr>cb_distributor = fill32 129, cb_from = fill32 131,
    cb_to = fill32 9, cb_claimant = demo_passer\<rparr>)], tr_payer = demo_passer, tr_signers = {demo_passer},
    tr_blockhash = fill32 0\<rparr>"
  have "execute (demo_config 100000 3) ?tx (demo_withdrawn demo_leaf False) = Inr (demo_clawed demo_leaf False)"
    using demo_passer_claws_back [of 3 False] by (simp add: execute_def)
  then have "succeeds (send_transaction (chain_node (demo_config 100000 3)) (chain_node (demo_config 100000 3)) ?tx)
      ((demo_world 0 (demo_withdrawn demo_leaf False))\<lparr>nw_life := 3, nw_landed := []\<rparr>)
      (\<lambda>r w'. r = Inr () \<and> nw_chain w' = demo_clawed demo_leaf False \<and> nw_faults w' = 0)"
    by (intro send_transaction_accepted) (simp_all add: demo_world_def)
  then show ?thesis
    by (auto simp: admin_round_def succeeds_eval sign_and_send_def new_signed_with_payer_def
        price_instructions_def demo_distributor_def elim!: succeeds_mono)
qed

lemma demo_clawback_run:
  "succeeds (cli_main (demo_environment (demo_config 100000 3)) demo_passer_cli
     (ClawbackCommand ''trees'')) (demo_world 0 (demo_withdrawn demo_leaf False))
     (\<lambda>r w'. r = Inr () \<and> nw_chain w' = demo_clawed demo_leaf False)"
  using succeeds_loop [OF demo_clawback_sent]
  by (simp add: and_ok_def process_clawback_def for_each_file_def dir_paths_def unwrap_result_def Let_def
      demo_passer_cli_def succeeds_eval)

lemma demo_late:
  "reachable demo (fill32 0) (demo_ledger 100000 (demo_withdrawn demo_leaf c))"
proof -
  have "set_admin (demo_tx 100000) \<lparr>sa_distributor = fill32 0, sa_admin = fill32 3, sa_new_admin = fill32 3\<rparr>
      (demo_withdrawn demo_leaf c) \<noteq> Inr st'" for st'
    by (simp add: admin_Inr demo_withdrawn_def)
  then obtain e where e: "process_instruction demo (demo_tx 100000) (SetAdmin \<lparr>sa_distributor = fill32 0,
      sa_admin = fill32 3, sa_new_admin = fill32 3\<rparr>) (demo_withdrawn demo_leaf c) = Inl e"
    unfolding process_instruction.simps by (metis sum.exhaust)
  from ledger_step.failed [of demo "demo_tx 100000" _ "demo_ledger 1500 (demo_withdrawn demo_leaf c)" e "fill32 0",
      unfolded demo_ledger_sel, OF e]
  have "ledger_step demo (fill32 0) (demo_ledger 1500 (demo_withdrawn demo_leaf c))
      (demo_ledger 100000 (demo_withdrawn demo_leaf c))"
    by (simp add: demo_ledger_def)
  with demo_reachable_withdrawn show ?thesis by (rule reachable.next_step)
qed

end
