(* ===== verification/Command_Properties.thy ===== *)
theory Command_Properties
  imports Cli_Permissions Command_Instance
begin

text \<open>
  What the commands of the tool do to the ledger of the program: every change of the chain is the
  execution of a transaction that the command may sign, the commands that look or print leave the
  chain alone, and whatever a command does is a run of the ledger, so that the invariants of
  \<open>Ledger_Properties\<close> hold across commands.
\<close>

section \<open>Commands on a node\<close>

text \<open>The chain is out of the reach of files, the web and the random numbers.\<close>

definition leaves_chain :: "(node_world, transaction) shell \<Rightarrow> bool" where
  "leaves_chain sh \<longleftrightarrow>
     (\<forall>path m w. nw_chain (snd (sh_store_sent sh path m w)) = nw_chain w) \<and>
     (\<forall>dir w. nw_chain (snd (sh_create_dir sh dir w)) = nw_chain w) \<and>
     (\<forall>dir name bytes w. nw_chain (snd (sh_write_file sh dir name bytes w)) = nw_chain w) \<and>
     (\<forall>url w. nw_chain (snd (sh_get_proof sh url w)) = nw_chain w) \<and>
     (\<forall>n w. nw_chain (snd (sh_gen_range sh n w)) = nw_chain w)"

definition on_node :: "node_config \<Rightarrow> (node_world, transaction) environment \<Rightarrow> bool" where
  "on_node C N \<longleftrightarrow> en_confirmed N = chain_node C \<and> en_finalized N = chain_node C \<and>
     en_extra_send N = chain_node C \<and> en_runtime N = cf_runtime C \<and> leaves_chain (en_shell N)"

text \<open>A transaction that satisfies \<open>good\<close> takes one chain to the other.\<close>

definition submitted :: "node_config \<Rightarrow> (transaction \<Rightarrow> bool) \<Rightarrow> chain \<Rightarrow> chain \<Rightarrow> bool" where
  "submitted C good st st' \<longleftrightarrow> (\<exists>tx. good tx \<and> execute C tx st = Inr st')"

lemma chain_node_obeys:
  assumes "\<And>st st'. P st \<Longrightarrow> submitted C good st st' \<Longrightarrow> P st'"
  shows "obeys (chain_node C) good (\<lambda>w. P (nw_chain w))"
proof -
  have run: "P st'" if "good tx" "P st" "execute C tx st = Inr st'" for tx st st'
    using that assms unfolding submitted_def by blast
  have land: "P (nw_chain (land C tx w))" if "good tx" "P (nw_chain w)" for tx w
    unfolding land_def using that(2) run [OF that] by (cases "execute C tx (nw_chain w)") simp_all
  have sends: "P (nw_chain (snd (send_transaction_with_config (chain_node C) tx w)))"
    "P (nw_chain (snd (client_send_transaction (chain_node C) tx w)))"
    "P (nw_chain (snd (send_and_confirm (chain_node C) tx w)))" if "good tx" "P (nw_chain w)" for tx w
    using that(2) land [OF that] run [OF that]
    by (cases "execute C tx (nw_chain w)"; simp add: chain_node_def)+
  show ?thesis
    unfolding obeys_def by (intro conjI allI impI keeps_call; (rule sends)?; simp add: chain_node_def)
qed

lemma cli_main_chain:
  assumes "on_node C N" and "cli_main N args cmd w = Some (r, w')" and "P (nw_chain w)"
    and "\<And>st st'. P st \<Longrightarrow> submitted C (permitted N args cmd) st st' \<Longrightarrow> P st'"
  shows "P (nw_chain w')"
proof -
  let ?I = "\<lambda>w. P (nw_chain w)"
  have "obeys (chain_node C) (permitted N args cmd) ?I" by (rule chain_node_obeys [OF assms(4)])
  moreover have "leaves_alone (en_shell N) ?I"
    using assms(1) unfolding on_node_def leaves_chain_def leaves_alone_def by (auto intro!: keeps_call)
  ultimately have "keeps ?I (cli_main N args cmd)"
    using assms(1) by (intro cli_main_keeps) (simp_all add: on_node_def)
  then show ?thesis using assms(3,2) by (rule keepsD)
qed

text \<open>
  C9.  Whatever a command of the tool changes on the chain, it changes by
  transactions that are paid and signed with the keypair of the arguments and that hold, besides
  compute budgets and new token accounts, only instructions for the purpose of the command.
\<close>

theorem commands_submit_permitted:
  assumes "on_node C N" and "cli_main N args cmd w = Some (r, w')"
  shows "(submitted C (permitted N args cmd))\<^sup>*\<^sup>* (nw_chain w) (nw_chain w')"
  by (rule cli_main_chain [OF assms]) auto

lemma demo_on_node: "on_node (demo_config t life) (demo_environment (demo_config t life))"
  by (simp add: on_node_def leaves_chain_def)

lemma commands_submit_permitted_witness:
  "(submitted (demo_config 500 3) (permitted (demo_environment (demo_config 500 3))
     (demo_cli False) demo_slot_command))\<^sup>*\<^sup>* (demo_open demo_leaf False) demo_slot_chain"
proof -
  from demo_slot_run obtain r w' where "cli_main (demo_environment (demo_config 500 3))
      (demo_cli False) demo_slot_command (demo_world 0 (demo_open demo_leaf False)) = Some (Inr r, w')"
    and "nw_chain w' = demo_slot_chain" unfolding succeeds_def by blast
  with commands_submit_permitted [OF demo_on_node this(1)] show ?thesis by simp
qed

text \<open>
  The commands that build files, look at the chain or check it, and the
  administrating ones when base58 is asked for, leave the chain as it is.
\<close>

theorem views_change_nothing:
  assumes "on_node C N" and "cli_main N args cmd w = Some (r, w')" and "\<not> submits args cmd"
  shows "nw_chain w' = nw_chain w"
  by (rule cli_main_chain [OF assms(1,2), where P = "\<lambda>st. st = nw_chain w"])
    (use assms(3) in \<open>simp_all add: submitted_def permitted_def\<close>)

lemma views_change_nothing_witness:
  "succeeds (cli_main (demo_environment (demo_config 500 3)) (demo_cli True) demo_slot_command)
     (demo_world 0 (demo_open demo_leaf False)) (\<lambda>_ w'. nw_chain w' = demo_open demo_leaf False)"
proof -
  from demo_slot_printed obtain r w' where "cli_main (demo_environment (demo_config 500 3))
      (demo_cli True) demo_slot_command (demo_world 0 (demo_open demo_leaf False)) = Some (Inr r, w')"
    unfolding succeeds_def by blast
  with views_change_nothing [OF demo_on_node this] show ?thesis
    by (simp add: succeeds_def demo_slot_command_def)
qed

section \<open>Commands and the ledger\<close>



















end
