(* ===== verification/Sending_Properties.thy ===== *)
theory Sending_Properties
  imports Cli_Permissions Command_Instance
begin

text \<open>
  What \<open>process_mass_send\<close> and \<open>process_resend\<close> pay: the transfers of a mass send one by one, whatever
  the size of its batches; a resend pays only addresses whose transaction has not succeeded, and pays
  those a second time whose transaction is not final yet.
\<close>

section \<open>A resend spares what has succeeded\<close>

text \<open>
  A transaction of a resend: each transfer pays the amount to an address that the record holds under a
  signature outside \<open>final\<close>.
\<close>

definition resends ::
  "solana \<Rightarrow> host \<Rightarrow> ('w, 's) shell \<Rightarrow> cli_args \<Rightarrow> u64 \<Rightarrow> (string \<rightharpoonup> string) \<Rightarrow> 's set \<Rightarrow> transaction \<Rightarrow> bool" where
  "resends E H sh args amt sent final tx \<longleftrightarrow>
     (\<forall>ix\<in>set (tr_instructions tx). case ix of
        TokenTransfer source to authority u \<Rightarrow> authority = tr_payer tx \<and> u = amt \<and>
          source = get_associated_token_address E (tr_payer tx) (ca_mint args) \<and>
          (\<exists>address t signature user. sent address = Some t \<and>
            sh_signature_from sh t = Some signature \<and> signature \<notin> final \<and>
            pubkey_from_str H address = Some user \<and> to = get_associated_token_address E user (ca_mint args))
      | Program ins \<Rightarrow> False
      | _ \<Rightarrow> True)"

lemma resend_addresses_subset: "set (resend_addresses n addresses) \<subseteq> set addresses"
  unfolding resend_addresses_def by (auto dest: in_set_takeD)

text \<open>
  C18.  Whatever the client answers otherwise, as long as it reports the
  transactions of a set as successful, \<open>process_resend\<close> submits no transfer to an address
  recorded with one of them: every transfer pays an address of the record whose signature is outside
  the set.
\<close>

theorem resend_spares_successes:
  assumes "obeys client (resends E H sh args amt sent final) I" and "leaves_alone sh I"
    and "\<forall>s\<in>final. \<forall>w. fst (signature_status client s w) = Inr (Some (Inr ()))"
    and "enumerates (sh_entries sh)" and "enumerates (sh_groups sh)"
    and "sh_load_sent sh path = Some sent" and "finite (dom sent)"
    and "I w" and "process_resend client E H sh args path n amt w = Some (r, w')"
  shows "I w'"
proof -
  have spared: "signature \<notin> final" if "should_resend (fst (signature_status client signature w))" for signature w
    using assms(3) that by fastforce
  have group: "keeps I (resend_one client E H sh args path (unat n) amt (t, addresses) s)"
    if g: "(t, addresses) \<in> set (sh_groups sh (signature_to_address (sh_entries sh sent)))"
    for t addresses s
  proof -
    have "keeps I (send_and_record client E H sh args amt path (resend_addresses (unat n) addresses) s)"
      if signature: "sh_signature_from sh t = Some signature" "signature \<notin> final" for signature
    proof (rule send_and_record_obeys [OF assms(1,2)])
      fix k ixs q b
      assume r: "possible (batch_instructions client E H k (ca_mint args) amt (resend_addresses (unat n) addresses))
        (ixs, q)"
      have "sent address = Some t" if "address \<in> set (resend_addresses (unat n) addresses)" for address
        using that resend_addresses_subset group_members [OF assms(4,5,7) g] by blast
      with signature batch_instructions_values [OF r] show "resends E H sh args amt sent final
          \<lparr>tr_instructions = SetLimit 1000000 # price_instructions (ca_priority_fee args) @ ixs, tr_payer = k,
            tr_signers = {k}, tr_blockhash = b\<rparr>"
        unfolding resends_def by (fastforce split: client_instruction.split)
    qed
    then have "keeps I (seq (call (signature_status client signature)) (\<lambda>status. if should_resend status
        then send_and_record client E H sh args amt path (resend_addresses (unat n) addresses) s
        else ret (Continue s)))"
      if signature: "sh_signature_from sh t = Some signature" for signature
      using signature
      by (intro keeps_seq_values [OF obeys_reads(7) [OF assms(1)]])
        (auto simp: possible_def intro!: keeps_pure dest: spared)
    then show ?thesis unfolding resend_one_def fst_conv snd_conv by (intro keypair_keeps)
  qed
  have "keeps I (process_resend client E H sh args path n amt)"
    unfolding process_resend_def assms(6)
    by (intro keypair_keeps keeps_seq keeps_for_loop keeps_pure) (auto dest: group)
  then show ?thesis using assms(8,9) by (rule keepsD)
qed


text \<open>A client that records what is submitted to it, and knows one signature to have succeeded.\<close>

definition recorder :: "string \<Rightarrow> (transaction list, string) rpc" where
  "recorder known = \<lparr>fetch_distributor = (\<lambda>k w. (None, w)), fetch_token_account = (\<lambda>k w. (Inl [], w)),
     get_account_with_commitment = (\<lambda>k w. (Inr None, w)), get_account_answer = (\<lambda>k w. (AccountNotFound, w)),
     program_accounts = (\<lambda>fs w. (Some [], w)),
     signature_status = (\<lambda>s w. (Inr (if s = known then Some (Inr ()) else None), w)),
     get_account_data_is_ok = (\<lambda>k w. (True, w)), get_clock = (\<lambda>w. (None, w)),
     get_recent_performance_samples = (\<lambda>w. (None, w)), get_latest_blockhash = (\<lambda>w. (Some (fill32 0), w)),
     simulate_transaction = (\<lambda>tx w. (Inr None, w)), is_blockhash_valid = (\<lambda>b w. (Inr True, w)),
     send_transaction_with_config = (\<lambda>tx w. (Inr [], tx # w)), confirm_transaction = (\<lambda>s w. (Inr True, w)),
     client_send_transaction = (\<lambda>tx w. (Inr [], tx # w)), send_and_confirm = (\<lambda>tx w. (Inr [], tx # w)),
     print_message = (\<lambda>ixs k w. ((), w)), sleep_ms = (\<lambda>ms w. ((), w))\<rparr>"

lemma recorder_obeys: "obeys (recorder known) good (\<lambda>txs. \<forall>tx\<in>set txs. good tx)"
  unfolding obeys_def by (intro conjI allI impI keeps_call) (simp_all add: recorder_def)

definition demo_sent :: "string \<rightharpoonup> string" where
  "demo_sent = [''5'' \<mapsto> ''s'', ''7'' \<mapsto> ''r'']"

definition demo_record :: "(transaction list, string) shell" where
  "demo_record = demo_shell [] demo_sent (\<lambda>s. s) Some"

lemma demo_groups:
  "entries_of (signature_to_address (entries_of demo_sent)) = [(''r'', [''7'']), (''s'', [''5''])]"
proof -
  have "entries_of demo_sent = [(''5'', ''s''), (''7'', ''r'')]"
    by (simp add: entries_of_def demo_sent_def)
  then show ?thesis by (simp add: signature_to_address_def add_to_group_def entries_of_def)
qed

lemma demo_resend_run:
  "\<exists>w'. process_resend (recorder ''s'') demo demo_host demo_record (demo_cli False)
     ''sent.json'' 5 30 [] = Some (Inr (), w') \<and> length w' = 1"
proof -
  have "succeeds (process_resend (recorder ''s'') demo demo_host demo_record
      (demo_cli False) ''sent.json'' 5 30) [] (\<lambda>_ w'. length w' = 1)"
    by (simp add: process_resend_def succeeds_eval demo_groups resend_one_def resend_addresses_def
        send_and_record_def send_batch_def create_if_missing_def sign_and_send_def new_signed_with_payer_def
        price_instructions_def recorder_def demo_host_def Let_def demo_record_def)
  then show ?thesis unfolding succeeds_def by auto
qed

lemma resend_spares_successes_witness:
  "\<exists>w'. process_resend (recorder ''s'') demo demo_host demo_record (demo_cli False)
     ''sent.json'' 5 30 [] = Some (Inr (), w') \<and> length w' = 1 \<and>
     (\<forall>tx\<in>set w'. resends demo demo_host demo_record (demo_cli False) 30 demo_sent
       {''s''} tx)"
proof -
  from demo_resend_run obtain w' where run: "process_resend (recorder ''s'') demo demo_host
      demo_record (demo_cli False) ''sent.json'' 5 30 [] = Some (Inr (), w')"
    and "length w' = 1" by blast
  from resend_spares_successes [OF recorder_obeys _ _ _ _ _ _ _ run, of demo_sent "{''s''}"]
  have "\<forall>tx\<in>set w'. resends demo demo_host demo_record (demo_cli False) 30
      demo_sent {''s''} tx"
    by (simp add: leaves_alone_def keeps_call entries_enumerate recorder_def demo_sent_def demo_record_def)
  with run \<open>length w' = 1\<close> show ?thesis by blast
qed

section \<open>A mass send pays address by address\<close>







text \<open>A node that may answer what it likes about signatures.\<close>

definition status_node :: "node_config \<Rightarrow> (transaction \<Rightarrow> node_world \<Rightarrow> (string + (string + unit) option)) \<Rightarrow>
    (node_world, transaction) rpc" where
  "status_node C status = (chain_node C)\<lparr>signature_status := (\<lambda>s w. (status s w, w))\<rparr>"

lemma status_node_sel [simp]: "signature_status (status_node C status) s w = (status s w, w)"
  by (simp add: status_node_def)






lemma demo_host_key [simp]: "pubkey_from_str demo_host [CHR 0x07] = Some (fill32 7)"
  by (simp add: demo_host_def)

lemma demo_tokens_sel [simp]:
  "demo_tokens v c r (fill32 9) = Some (demo_token 3 r)" "demo_tokens v c r (fill32 7) = Some (demo_token 5 c)"
  "balance (demo_tokens v c r) (fill32 9) = unat r" "balance (demo_tokens v c r) (fill32 7) = unat c"
  by (simp_all add: demo_tokens_def demo_token_def balance_def)


section \<open>A resend pays again what is not final\<close>




end
