(* ===== verification/Api_Routes.thy ===== *)
theory Api_Routes
  imports Api_Server
begin

text \<open>
  The HTTP service as its clients see it: the arguments and the start of \<open>api/src/main.rs\<close>, the state and
  the routes of \<open>router.rs\<close> with their handlers, and the answer to a request.  How \<open>axum\<close> matches a path
  with a route is an argument, of which \<open>axum_matching\<close> states what its documentation says; the layers
  of the middleware, which only limit, log and set headers, are left out.
\<close>

section \<open>Start\<close>

record api_args =
  aa_merkle_tree_path :: string
  aa_base :: pubkey
  aa_mint :: pubkey
  aa_program_id :: pubkey

record router_state =
  rs_program_id :: pubkey
  rs_server :: server_state

definition api_main ::
  "host \<Rightarrow> solana \<Rightarrow> (string \<Rightarrow> string list option) \<Rightarrow> api_args \<Rightarrow> router_state merkle_result" where
  "api_main H E read_dir args =
     and_then (or_panic (unwrap (read_dir (aa_merkle_tree_path args)))) (\<lambda>paths.
     and_then (start_server H E (aa_program_id args) (aa_base args) (aa_mint args) paths) (\<lambda>st.
     Inr \<lparr>rs_program_id = aa_program_id args, rs_server = st\<rparr>))"

section \<open>Routes\<close>

datatype endpoint = Root | GetDistributors | GetUserInfo

definition routes :: "(string \<times> endpoint) list" where
  "routes = [(''/health'', Root), (''/distributor/distributors'', GetDistributors),
     (''/distributor/user/:user_pubkey'', GetUserInfo)]"

text \<open>
  A matcher gives for a route and a path the captured segment, if the path matches; a route without
  a capture captures nothing.
\<close>

type_synonym matcher = "string \<Rightarrow> string \<Rightarrow> string option option"

text \<open>
  A route without a colon matches itself only; a colon at the start of the last segment captures one
  segment, which is not empty.  A path with percent signs is decoded, of which nothing is said here.
\<close>

definition axum_matching :: "matcher \<Rightarrow> bool" where
  "axum_matching M \<longleftrightarrow>
     (\<forall>route path. CHR ''%'' \<notin> set path \<longrightarrow> CHR '':'' \<notin> set route \<longrightarrow>
       M route path = (if path = route then Some None else None)) \<and>
     (\<forall>prefix name path. CHR ''%'' \<notin> set path \<longrightarrow> CHR '':'' \<notin> set prefix \<longrightarrow> CHR ''/'' \<notin> set name \<longrightarrow>
       M (prefix @ ''/:'' @ name) path \<noteq> Some None \<and>
       (\<forall>s. M (prefix @ ''/:'' @ name) path = Some (Some s) \<longleftrightarrow>
         path = prefix @ ''/'' @ s \<and> s \<noteq> [] \<and> CHR ''/'' \<notin> set s))"

section \<open>Answers\<close>

datatype body =
    Text string
  | Distributors u64 u64 "single_distributor list"
  | Proof user_proof
  | Error string
  | Empty

definition root :: body where
  "root = Text ''Kamino Airdrop API''"

definition get_distributors :: "router_state \<Rightarrow> body" where
  "get_distributors st = Distributors (sv_max_num_nodes (rs_server st)) (sv_max_total_claim (rs_server st))
     (sv_trees (rs_server st))"

definition handle :: "host \<Rightarrow> router_state \<Rightarrow> endpoint \<Rightarrow> string option \<Rightarrow> nat \<times> body" where
  "handle H st e captured =
     (case e of
        Root \<Rightarrow> (200, root)
      | GetDistributors \<Rightarrow> (200, get_distributors st)
      | GetUserInfo \<Rightarrow>
          (case get_user_info H (rs_server st) (case captured of Some s \<Rightarrow> s | None \<Rightarrow> []) of
             Inr p \<Rightarrow> (200, Proof p)
           | Inl e \<Rightarrow> (case error_response e of (status, message) \<Rightarrow> (status, Error message))))"

text \<open>The answer to a \<open>GET\<close>: that of the route that matches, and 404 without a body when none does.\<close>

fun dispatch :: "matcher \<Rightarrow> host \<Rightarrow> router_state \<Rightarrow> (string \<times> endpoint) list \<Rightarrow> string \<Rightarrow> nat \<times> body" where
  "dispatch M H st [] path = (404, Empty)"
| "dispatch M H st ((route, e) # rest) path =
     (case M route path of
        Some captured \<Rightarrow> handle H st e captured
      | None \<Rightarrow> dispatch M H st rest path)"

definition get_request :: "matcher \<Rightarrow> host \<Rightarrow> router_state \<Rightarrow> string \<Rightarrow> nat \<times> body" where
  "get_request M H st path = dispatch M H st routes path"

section \<open>Matching\<close>

lemma matching_capture:
  assumes "axum_matching M" and "CHR ''%'' \<notin> set path" and "CHR '':'' \<notin> set prefix" and "CHR ''/'' \<notin> set name"
  shows "M (prefix @ ''/:'' @ name) path = Some (Some s) \<longleftrightarrow>
      path = prefix @ ''/'' @ s \<and> s \<noteq> [] \<and> CHR ''/'' \<notin> set s"
    and "M (prefix @ ''/:'' @ name) path = None \<longleftrightarrow>
      \<not> (\<exists>s. path = prefix @ ''/'' @ s \<and> s \<noteq> [] \<and> CHR ''/'' \<notin> set s)"
proof -
  have cap: "M (prefix @ ''/:'' @ name) path = Some (Some s) \<longleftrightarrow>
      path = prefix @ ''/'' @ s \<and> s \<noteq> [] \<and> CHR ''/'' \<notin> set s" for s
    using assms unfolding axum_matching_def by blast
  have "M (prefix @ ''/:'' @ name) path \<noteq> Some None"
    using assms unfolding axum_matching_def by blast
  then have "M (prefix @ ''/:'' @ name) path = None \<longleftrightarrow> (\<forall>s. M (prefix @ ''/:'' @ name) path \<noteq> Some (Some s))"
    by (metis not_None_eq)
  with cap show "M (prefix @ ''/:'' @ name) path = None \<longleftrightarrow>
      \<not> (\<exists>s. path = prefix @ ''/'' @ s \<and> s \<noteq> [] \<and> CHR ''/'' \<notin> set s)" by blast
  show "M (prefix @ ''/:'' @ name) path = Some (Some s) \<longleftrightarrow>
      path = prefix @ ''/'' @ s \<and> s \<noteq> [] \<and> CHR ''/'' \<notin> set s" by (rule cap)
qed

lemmas matching_user = matching_capture [where prefix = "''/distributor/user''" and name = "''user_pubkey''", simplified]

lemma matching_static:
  assumes "axum_matching M" and "CHR ''%'' \<notin> set path"
  shows "M ''/health'' path = (if path = ''/health'' then Some None else None)"
    and "M ''/distributor/distributors'' path = (if path = ''/distributor/distributors'' then Some None else None)"
  using assms unfolding axum_matching_def by simp_all

text \<open>What each path is answered.\<close>

lemma get_request_static:
  assumes "axum_matching M"
  shows "get_request M H st ''/health'' = (200, root)"
    and "get_request M H st ''/distributor/distributors'' = (200, get_distributors st)"
  by (simp_all add: get_request_def routes_def matching_static [OF assms] handle_def)

lemma get_request_user:
  assumes "axum_matching M" and "CHR ''%'' \<notin> set s" and "s \<noteq> []" and "CHR ''/'' \<notin> set s"
  shows "get_request M H st (''/distributor/user/'' @ s) = handle H st GetUserInfo (Some s)"
  using matching_user(1) [OF assms(1), of "''/distributor/user/'' @ s" s]
    matching_static [OF assms(1), of "''/distributor/user/'' @ s"] assms(2-4)
  by (simp add: get_request_def routes_def)

lemma get_request_other:
  assumes "axum_matching M" and "CHR ''%'' \<notin> set path" and "path \<noteq> ''/health''" and "path \<noteq> ''/distributor/distributors''"
    and "\<And>s. path = ''/distributor/user/'' @ s \<Longrightarrow> s = [] \<or> CHR ''/'' \<in> set s"
  shows "get_request M H st path = (404, Empty)"
proof -
  have "M ''/distributor/user/:user_pubkey'' path = None"
    unfolding matching_user(2) [OF assms(1,2)] using assms(5) by auto
  with assms(3,4) show ?thesis
    by (simp add: get_request_def routes_def matching_static [OF assms(1,2)])
qed

text \<open>A concrete matcher.\<close>

definition simple_matcher :: matcher where
  "simple_matcher route path =
     (if CHR '':'' \<in> set route
      then let prefix = takeWhile (\<lambda>c. c \<noteq> CHR '':'') route; s = drop (length prefix) path in
        if take (length prefix) path = prefix \<and> s \<noteq> [] \<and> CHR ''/'' \<notin> set s then Some (Some s) else None
      else if path = route then Some None else None)"

lemma simple_matcher: "axum_matching simple_matcher"
proof -
  have "takeWhile (\<lambda>c. c \<noteq> CHR '':'') (prefix @ ''/:'' @ name) = prefix @ ''/''" if "CHR '':'' \<notin> set prefix"
    for prefix name
    using that by (induction prefix) auto
  moreover have "path = prefix @ CHR ''/'' # drop (Suc (length prefix)) path"
    if "take (Suc (length prefix)) path = prefix @ ''/''" for prefix path :: string
    using append_take_drop_id [of "Suc (length prefix)" path] that by simp
  ultimately show ?thesis
    unfolding axum_matching_def simple_matcher_def Let_def by auto
qed

end
