(* ===== verification/Spec2Isabelle.thy ===== *)
theory Spec2Isabelle
  imports Tree_Properties Program_Properties Ledger_Properties Cli_Properties Account_Types
    Funding_Properties File_Properties Command_Properties Sending_Properties Web_Properties
begin

text \<open>
  A verification library for the Merkle token distributor: an off-chain builder turns a list of
  claims into distribution files with a Merkle root, a Solana program pays the claims against that
  root and unlocks vested amounts, an HTTP service hands out the proofs, and a command line tool
  drives all of it.

  The theories, and the code each one models:

  \<^item> \<open>Prelude\<close>: machine integers as words, the checked arithmetic of Rust, 32-byte arrays with their
    lexicographic order, results and panics as sums.
  \<^item> \<open>Merkle_Verify\<close> (\<open>verify/src/lib.rs\<close>), \<open>Merkle_Tree\<close> and \<open>Merkle_Path\<close>
    (\<open>merkle-tree/src/merkle_tree.rs\<close>, \<open>get_proof\<close> of \<open>utils.rs\<close>): the flat tree with the index
    arithmetic of the code, refined to the list of its levels.
  \<^item> \<open>Merkle_Soundness\<close>: what a tree promises to its clients, as the locales \<open>membership_scheme\<close> and
    \<open>sound_membership_scheme\<close>, interpreted on the model of the code (\<open>tree\<close>).
  \<^item> \<open>Tree_Node\<close> (\<open>tree_node.rs\<close>, \<open>csv_entry.rs\<close>): nodes, and the conversion of decimal amounts through
    doubles, which are modelled as significand and exponent.
  \<^item> \<open>Airdrop_Tree\<close> (\<open>airdrop_merkle_tree.rs\<close>, \<open>get_max_total_claim\<close>): merging, building, validating and
    looking up; \<open>airdrop_ok\<close> is the specification of a returned file.
  \<^item> \<open>Program_State\<close>, \<open>Vesting\<close>, \<open>Claim_Instructions\<close>, \<open>Admin_Instructions\<close>, \<open>Lifecycle_Instructions\<close>
    (\<open>programs/merkle-distributor/src\<close>): the accounts, the vesting arithmetic and the ten instructions,
    each as the checks of its accounts struct followed by its handler.
  \<^item> \<open>Effects\<close> (\<open>lib.rs\<close>): the dispatch, and the abstract relation \<open>effect\<close> that it refines.
  \<^item> \<open>Step_System\<close>, \<open>Distributor_System\<close>: interfaces of step systems, and the ledger interpreted against
    them: an invariant (\<open>ledger\<close>), the evolution of accounts (\<open>history\<close>), solvency (\<open>solvent\<close>).
  \<^item> \<open>Api_Server\<close> (\<open>api/src\<close>), \<open>Cli_Batches\<close> and \<open>Cli_Claims\<close> (\<open>cli/src/bin\<close>): loading and serving files,
    the batch loops, the slot arithmetic, and the transactions that the tool builds.
  \<^item> \<open>Account_Types\<close>: the types of accounts, which instructions preserve.
  \<^item> \<open>Host_Runs\<close>: programs that talk to the outside, as runs over a state of the world: sequencing, the
    loops of Rust, and the judgements \<open>succeeds\<close>, \<open>outcome\<close> and \<open>returns\<close>.
  \<^item> \<open>Cli_Network\<close> (\<open>send_transaction.rs\<close>, \<open>Args\<close> of \<open>cli.rs\<close>): what the tool asks of an RPC node, as the
    record \<open>rpc\<close>, and the sending of signed transactions.
  \<^item> \<open>Cli_Admin\<close> (\<open>process_set_*.rs\<close>, \<open>process_clawback.rs\<close>, \<open>process_get_slot.rs\<close>) and \<open>Cli_Funding\<close>
    (\<open>process_new_distributor.rs\<close>, \<open>process_fund_all.rs\<close>, \<open>proccess_close_distribitor.rs\<close>): the commands
    that resend until the node is content, and those that repeat passes over a directory.
  \<^item> \<open>Cli_Delivery\<close>, \<open>Cli_Node\<close>: the interface \<open>delivery\<close> of a node that executes what it accepts, with
    what the admin commands do on it, and its interpretations on a node that runs the program's model
    and may lose transactions.
  \<^item> \<open>Byte_Layout\<close>, \<open>Cli_Files\<close> (\<open>process_create_merkle_tree.rs\<close>, \<open>process_create_merkle_tree_blob.rs\<close>,
    the writers of \<open>airdrop_merkle_tree.rs\<close>), \<open>File_Codec\<close>: directories of distribution files, and an
    encoding on which the laws asked of \<open>serde_json\<close> and \<open>bincode\<close> hold.
  \<^item> \<open>Cli_Instructions\<close>, \<open>Cli_Send\<close> (\<open>process_send.rs\<close>), \<open>Cli_Commands\<close> (the other \<open>process_*.rs\<close>) and
    \<open>Cli_Main\<close> (\<open>cli.rs\<close>): the instructions the tool signs, the mass send with its resends grouped by
    signature, claims, closings, the views and checks, the arguments and the dispatch of the 23 commands.
  \<^item> \<open>Cli_Safety\<close>, \<open>Cli_Permissions\<close>: the judgement \<open>keeps I m\<close>, that a run preserves \<open>I\<close> whichever way
    it ends, with its rules for sequencing and loops; and, command by command, that only transactions
    of the command's purpose are signed.
  \<^item> \<open>Api_Routes\<close> (\<open>api/src/main.rs\<close>, \<open>router.rs\<close>): the service as its clients see it, its routes and
    the status of each answer.
  \<^item> \<open>Runtime_Instance\<close>, \<open>Tool_Instance\<close>, \<open>Command_Instance\<close>: a small runtime, a distributor's life in
    it, a node that runs it and a shell around that node, on which the hypotheses of the properties
    are seen to hold.
  \<^item> \<open>Tree_Properties\<close>, \<open>Program_Properties\<close>, \<open>Ledger_Properties\<close>, \<open>Cli_Properties\<close>, \<open>File_Properties\<close>,
    \<open>Network_Properties\<close>, \<open>Funding_Properties\<close>, \<open>Command_Properties\<close>, \<open>Sending_Properties\<close>,
    \<open>Web_Properties\<close> and this theory: the properties.  \<open>Command_Properties\<close> joins the tool to the ledger:
    every command is a run of the ledger, so the invariants of \<open>Ledger_Properties\<close> hold across
    commands.  \<open>Sending_Properties\<close> says what a mass send and its resends pay, \<open>Web_Properties\<close> how the
    tool and the service fit.  Here are those that span list, program and service: a claim that
    succeeds is one the list owed, a claim that is owed succeeds, and the API and the tool hand out
    such claims.

  What is a parameter.  The hash function, the derivation of addresses and the SPL token transfer are
  fields of the record \<open>solana\<close>, the file system, the decoders and the text of keys are fields of
  \<open>host\<close>, the RPC node is the record \<open>rpc\<close>, the remaining things a command asks for are fields of
  \<open>shell\<close>.  What the proofs rely on is stated by name where it is used: \<open>collision_free\<close> on the finitely
  many inputs of one file and one claim, \<open>spl_transfer_sound\<close> (a transfer that succeeds moves the
  amount and nothing else), \<open>spl_transfer_live\<close> (it is refused only for want of funds, authority, mint
  or space), \<open>addresses_sound\<close> (a found address is created by its seeds and bump).

  The steps of the ledger are the instructions, failed transactions, and arbitrary changes by others
  of token accounts that no distributor owns.  Time may stand still or advance, never go back.

  Loops.  Those of the tree terminate by the length of the level; \<open>create_trees\<close> by the entries left,
  as an empty piece makes the builder fail.  The only fuel is that of \<open>get_elements\<close> in \<open>Byte_Layout\<close>,
  which spends one unit on each marker byte of a sequence and is given the length of the input
  (\<open>length_put_list\<close>: a sequence is written in more bytes than it has elements).  The tool's loops without a bound are \<open>loop\<close> of \<open>Host_Runs\<close>, whose value \<open>None\<close> is a run that
  never returns; that a command returns, or that it never does, is proved as such.

  Not modelled: lamports, rent and the sizes of accounts; log messages and the printed text; the
  row reader of \<open>csv\<close>, \<open>serde_json\<close>, \<open>bincode\<close> and the order of a \<open>HashMap\<close>, which are parameters; the parsing of the command line by \<open>clap\<close>, whose result is the
  argument of \<open>cli_main\<close>, and the argument structs that no command uses; sockets, time limits and
  middleware of the service; the Rust unit tests; the TypeScript SDK and its tests.
\<close>

section \<open>From a distribution file to a claim\<close>

text \<open>What a claim hashes before the leaf, and all inputs hashed for a file and for a claim.\<close>

definition node_input :: "pubkey \<Rightarrow> u64 \<Rightarrow> u64 \<Rightarrow> u8 list list" where
  "node_input k u l = [to_bytes k, to_le_bytes u, to_le_bytes l]"

definition file_inputs :: "hashv \<Rightarrow> airdrop_merkle_tree \<Rightarrow> u8 list list list" where
  "file_inputs h t = map (\<lambda>n. node_input (tn_claimant n) (tn_amount n) 0) (tree_nodes t) @
     tree_inputs h (hashed_nodes h (tree_nodes t))"

definition claim_inputs :: "hashv \<Rightarrow> pubkey \<Rightarrow> u64 \<Rightarrow> u64 \<Rightarrow> hash list \<Rightarrow> u8 list list list" where
  "claim_inputs h k u l pf = node_input k u l # check_inputs h pf (to_bytes (claim_node h k u l))"

lemma claim_node_input: "claim_node h k u l = h (node_input k u l)"
  by (simp add: claim_node_def node_input_def)

lemma claim_leaf_hash_leaf: "claim_leaf h k u l = hash_leaf h (to_bytes (claim_node h k u l))"
  by (simp add: claim_leaf_def hash_leaf_def)

lemma tree_node_claim: "tree_node_hash h n = claim_node h (tn_claimant n) (tn_amount n) 0"
  by (simp add: tree_node_hash_def claim_node_def)

lemma node_input_inject:
  "concat (node_input k u l) = concat (node_input k' u' l') \<longleftrightarrow> k = k' \<and> u = u' \<and> l = l'"
  by (auto simp: node_input_def)

lemma file_claims_verify:
  assumes "airdrop_merkle_tree_new h ns version = Inr t" and "n \<in> set (tree_nodes t)"
  shows "\<exists>p. tn_proof n = Some p \<and>
    verify h p (merkle_root t) (claim_leaf h (tn_claimant n) (tn_amount n) 0)"
proof -
  from airdrop_new_Inr [OF assms(1)] have "sealed h t" by (simp add: airdrop_ok_def)
  then obtain tree where tree: "merkle_tree_new h True (hashed_nodes h (tree_nodes t)) = Inr tree"
    and root: "get_root tree = Some (merkle_root t)"
    and pf: "\<forall>i<length (tree_nodes t). \<exists>p. tn_proof (tree_nodes t ! i) = Some p \<and> get_proof tree i = Inr p"
    unfolding sealed_def by blast
  from assms(2) obtain i where i: "i < length (tree_nodes t)" "n = tree_nodes t ! i"
    by (metis in_set_conv_nth)
  with pf obtain p where p: "tn_proof n = Some p" "get_proof tree i = Inr p" by blast
  from tree.complete [OF tree root, of i] i p(2)
  have "verify h p (merkle_root t) (hash_leaf h (to_bytes (tree_node_hash h n)))" by simp
  with p(1) show ?thesis by (simp add: claim_leaf_hash_leaf tree_node_claim)
qed

lemma file_claim_rightful:
  assumes new: "airdrop_merkle_tree_new h ns version = Inr t"
    and acc: "verify h pf (merkle_root t) (claim_leaf h k u l)"
    and cf: "collision_free h (set (file_inputs h t) \<union> set (claim_inputs h k u l pf))"
  shows "l = 0 \<and> k \<in> tn_claimant ` set ns \<and> unat u = owed ns k"
proof -
  from airdrop_new_Inr [OF new] have ok: "airdrop_ok h ns version t" .
  then obtain tree where tree: "merkle_tree_new h True (hashed_nodes h (tree_nodes t)) = Inr tree"
    and root: "get_root tree = Some (merkle_root t)"
    unfolding airdrop_ok_def sealed_def by blast
  have "to_bytes (claim_node h k u l) \<in> set (hashed_nodes h (tree_nodes t))"
    by (rule tree.sound [OF tree root acc [unfolded claim_leaf_hash_leaf]],
        rule collision_free_subset [OF cf]) (auto simp: file_inputs_def claim_inputs_def)
  then obtain n where n: "n \<in> set (tree_nodes t)"
    and "claim_node h k u l = claim_node h (tn_claimant n) (tn_amount n) 0"
    by (auto simp: hashed_nodes_def tree_node_claim)
  then have eq: "h (node_input k u l) = h (node_input (tn_claimant n) (tn_amount n) 0)"
    by (simp add: claim_node_input)
  have "concat (node_input k u l) = concat (node_input (tn_claimant n) (tn_amount n) 0)"
    by (rule collision_freeD [OF cf eq]) (use n in \<open>auto simp: file_inputs_def claim_inputs_def\<close>)
  then have same: "k = tn_claimant n" "u = tn_amount n" "l = 0" by (simp_all add: node_input_inject)
  from ok have "set (map tn_claimant (tree_nodes t)) = set (map tn_claimant ns)"
    by (simp only: airdrop_ok_def set_first_occurrences)
  with n same have "k \<in> tn_claimant ` set ns" by auto
  moreover from ok n same have "unat u = owed ns k" by (auto simp: airdrop_ok_def)
  ultimately show ?thesis using same(3) by blast
qed

text \<open>
  Every proof stored in a distribution file is accepted by the on-chain check, for the file's
  root and the leaf that \<open>new_claim\<close> derives from the node's claimant, its amount and nothing locked.
\<close>

theorem file_proofs_accepted:
  assumes "airdrop_merkle_tree_new h ns version = Inr t" and "n \<in> set (tree_nodes t)"
  shows "\<exists>p. tn_proof n = Some p \<and>
    verify h p (merkle_root t) (claim_leaf h (tn_claimant n) (tn_amount n) 0)"
  using assms by (rule file_claims_verify)

lemma file_proofs_accepted_witness:
  "verify demo_hash [hash_leaf demo_hash (demo_item 6 20)] (merkle_root demo_file)
     (claim_leaf demo_hash (fill32 5) 15 0)"
  using file_proofs_accepted [OF demo_file_new,
    of "demo_node 5 15 (Some [hash_leaf demo_hash (demo_item 6 20)])"] by simp

text \<open>
  C1.  Nobody can claim what they are not owed: on a distributor with the root of a distribution file,
  a successful \<open>new_claim\<close> is by a claimant of the file, for exactly the sum of the entries that the
  list gave for that claimant, with nothing locked; unless the hash function collides on the inputs
  that building the file and checking the claim hash.
\<close>

theorem claims_are_rightful:
  assumes "airdrop_merkle_tree_new (rt_hashv E) ns version = Inr t"
    and "new_claim E tx accs u l pf st = Inr st'"
    and "distributors st (nc_distributor accs) = Some d" and "md_root d = merkle_root t"
    and "collision_free (rt_hashv E)
      (set (file_inputs (rt_hashv E) t) \<union> set (claim_inputs (rt_hashv E) (nc_claimant accs) u l pf))"
  shows "l = 0 \<and> nc_claimant accs \<in> tn_claimant ` set ns \<and> unat u = owed ns (nc_claimant accs)"
proof -
  from assms(2) obtain d1 where v: "validate_new_claim E tx accs st = Inr d1"
    and h: "handle_new_claim E tx accs d1 u l pf st = Inr st'"
    by (auto simp: new_claim_def exec_iff)
  from validate_new_claim_Inr(1) [OF v] assms(3) have "d1 = d" by simp
  with h have "verify (rt_hashv E) pf (md_root d) (claim_leaf (rt_hashv E) (nc_claimant accs) u l)"
    by (auto elim: handle_new_claim_Inr)
  then show ?thesis
    unfolding assms(4) by (rule file_claim_rightful [OF assms(1) _ assms(5)])
qed

lemma demo_file_claimed:
  "\<exists>st'. new_claim demo (demo_tx 1100) demo_new_claim 15 0 [hash_leaf demo_hash (demo_item 6 20)]
     (demo_open (merkle_root demo_file) False) = Inr st'"
proof -
  have "verify demo_hash [hash_leaf demo_hash (demo_item 6 20)] (merkle_root demo_file)
      (claim_leaf demo_hash (fill32 5) 15 0)"
    using file_claims_verify [OF demo_file_new,
      of "demo_node 5 15 (Some [hash_leaf demo_hash (demo_item 6 20)])"] by simp
  then show ?thesis
    by (simp add: new_claim_def validate_new_claim_def handle_new_claim_def transfer_signed_def
        check_defs in_use_def demo_defs checked_add_u64_def del: demo_file_nodes)
qed

lemma demo_file_collision_free:
  "collision_free demo_hash (set (file_inputs demo_hash demo_file) \<union>
     set (claim_inputs demo_hash (fill32 5) 15 0 [hash_leaf demo_hash (demo_item 6 20)]))"
proof -
  have le: "to_le_bytes 15 = [15, 0, 0, 0, 0, 0, 0, 0]" "to_le_bytes 20 = [20, 0, 0, 0, 0, 0, 0, 0]"
    "to_le_bytes 0 = [0, 0, 0, 0, 0, 0, 0, 0]"
    by (simp_all add: to_le_bytes_def upt_rec)
  have n: "claim_node demo_hash (fill32 5) 15 0 = fill32 70" "demo_item 5 15 = replicate 32 70"
    "demo_item 6 20 = replicate 32 157"
    by (simp_all add: claim_node_def demo_item_def tree_node_hash_def demo_hash_def le)
  have l: "hash_leaf demo_hash (replicate 32 70) = fill32 3"
    "hash_leaf demo_hash (replicate 32 157) = fill32 195"
    by (simp_all add: hash_leaf_def demo_hash_def LEAF_PREFIX_def)
  have "file_inputs demo_hash demo_file = [node_input (fill32 5) 15 0, node_input (fill32 6) 20 0,
      [LEAF_PREFIX, replicate 32 70], [LEAF_PREFIX, replicate 32 157], step_input (fill32 3) (fill32 195)]"
    by (simp add: file_inputs_def demo_hashed_nodes n tree_inputs_def l inner_inputs_def levels_step
        levels_short)
  moreover have "claim_inputs demo_hash (fill32 5) 15 0 [hash_leaf demo_hash (demo_item 6 20)] =
      [node_input (fill32 5) 15 0, [LEAF_PREFIX, replicate 32 70], step_input (fill32 3) (fill32 195)]"
    by (simp add: claim_inputs_def check_inputs_def n l)
  moreover have "collision_free demo_hash {node_input (fill32 5) 15 0, node_input (fill32 6) 20 0,
      [LEAF_PREFIX, replicate 32 70], [LEAF_PREFIX, replicate 32 157], step_input (fill32 3) (fill32 195)}"
    by (simp add: collision_free_def demo_hash_def node_input_def LEAF_PREFIX_def step_input_def le)
  ultimately show ?thesis by (simp add: insert_commute insert_absorb)
qed

lemma claims_are_rightful_witness:
  "(0 :: u64) = 0 \<and> fill32 5 \<in> tn_claimant ` set demo_nodes \<and> unat (15 :: u64) = owed demo_nodes (fill32 5)"
proof -
  obtain st' where "new_claim demo (demo_tx 1100) demo_new_claim 15 0
      [hash_leaf demo_hash (demo_item 6 20)] (demo_open (merkle_root demo_file) False) = Inr st'"
    using demo_file_claimed by blast
  from claims_are_rightful [OF _ this, of demo_nodes 0 demo_file
      "demo_distributor (merkle_root demo_file) False 0 0 False"]
  show ?thesis
    using demo_file_new demo_file_collision_free
    by (simp add: demo_new_claim_def demo_distributor_def del: demo_file_nodes)
qed

section \<open>Claims that must succeed\<close>



lemma same_terms_counters [simp]:
  "same_terms d (d\<lparr>md_num_nodes_claimed := n\<rparr>)"
  by (simp add: same_terms_def)




lemma same_terms_total [simp]:
  "same_terms d (d\<lparr>md_total_amount_claimed := n\<rparr>)"
  by (simp add: same_terms_def)



section \<open>The API\<close>

text \<open>
  The server that starts has added up the totals of the loaded files without overflow, lists the
  distributors by version, and serves for each key the node of the last file that has one; a file
  for the same claimant that comes earlier in the directory is hidden.
\<close>

theorem api_serves_loaded_trees:
  assumes "start_server H E program base mint paths = Inr st"
  shows "\<exists>ts. loaded_trees H (sort paths) = Inr ts \<and>
    unat (sv_max_total_claim st) = sum_list (map (\<lambda>t. unat (at_max_total_claim t)) ts) \<and>
    unat (sv_max_num_nodes st) = sum_list (map (\<lambda>t. unat (at_max_num_nodes t)) ts) \<and>
    sv_tree st = served (\<lambda>v. fst (get_merkle_distributor_pda E program base mint v)) ts \<and>
    sorted (map sd_airdrop_version (sv_trees st))"
proof -
  let ?pda = "\<lambda>v. fst (get_merkle_distributor_pda E program base mint v)"
  from assms obtain st1 where st1: "load_files H ?pda (sort paths) empty_server = Inr st1"
    and st: "st = st1\<lparr>sv_trees := sort_key sd_airdrop_version (sv_trees st1)\<rparr>"
    by (auto simp: start_server_def exec_iff)
  from load_files_Inr [OF st1] show ?thesis
    unfolding st by (simp add: empty_server_def)
qed

lemma demo_loaded: "loaded_trees demo_host (sort [''a.json'']) = Inr [demo_file]"
  by (simp add: load_single_def path_extension_def Let_def new_from_file_def demo_host_def)

lemma demo_server:
  obtains st where "start_server demo_host demo (fill32 0) (fill32 1) (fill32 2) [''a.json''] = Inr st"
    and "sv_tree st (fill32 5) = Some (fill32 129, demo_node 5 15 (Some [hash_leaf demo_hash (demo_item 6 20)]))"
proof -
  have "\<exists>st. start_server demo_host demo (fill32 0) (fill32 1) (fill32 2) [''a.json''] = Inr st \<and>
    sv_tree st (fill32 5) = Some (fill32 129, demo_node 5 15 (Some [hash_leaf demo_hash (demo_item 6 20)]))"
    by (simp add: start_server_def load_single_def path_extension_def Let_def new_from_file_def
        demo_host_def add_tree_def empty_server_def checked_add_u64_def get_merkle_distributor_pda_def
        demo_address_def merkle_distributor_seeds_def)
  then show thesis using that by blast
qed

lemma api_serves_loaded_trees_witness:
  "\<exists>st. start_server demo_host demo (fill32 0) (fill32 1) (fill32 2) [''a.json''] = Inr st \<and>
     unat (sv_max_total_claim st) = 35 \<and> unat (sv_max_num_nodes st) = 2"
proof (rule demo_server)
  fix st
  assume st: "start_server demo_host demo (fill32 0) (fill32 1) (fill32 2) [''a.json''] = Inr st"
  from api_serves_loaded_trees [OF st] demo_loaded st show ?thesis by auto
qed

lemma built_claimants:
  assumes "airdrop_merkle_tree_new h ns version = Inr t"
  shows "convert_to_hashmap t k = None \<longleftrightarrow> k \<notin> tn_claimant ` set (tree_nodes t)"
  by (simp add: convert_to_hashmap_def foldl_update_map_of map_of_eq_None_iff image_image)

lemma user_info_served:
  assumes "start_server H E program base mint paths = Inr st"
    and "loaded_trees H (sort paths) = Inr ts"
  shows "sv_tree st = served (\<lambda>v. fst (get_merkle_distributor_pda E program base mint v)) ts"
proof -
  let ?pda = "\<lambda>v. fst (get_merkle_distributor_pda E program base mint v)"
  from assms(1) obtain st1 where st1: "load_files H ?pda (sort paths) empty_server = Inr st1"
    and st: "st = st1\<lparr>sv_trees := sort_key sd_airdrop_version (sv_trees st1)\<rparr>"
    by (auto simp: start_server_def exec_iff)
  from load_files_Inr [OF st1] assms(2) show ?thesis
    unfolding st by (simp add: empty_server_def)
qed

text \<open>
  C36.  What the API answers is a claim that the program accepts: when the loaded files were made by the
  builder, the served distributor is the one of a loaded file, and the served amount and proof verify
  against that file's root for the user who asked.
\<close>

theorem served_proofs_accepted:
  assumes "start_server H E program base mint paths = Inr st"
    and "loaded_trees H (sort paths) = Inr ts"
    and "\<forall>t\<in>set ts. \<exists>ns version. airdrop_merkle_tree_new h ns version = Inr t"
    and "get_user_info H st user = Inr up"
  shows "\<exists>t\<in>set ts. \<exists>k. pubkey_from_str H user = Some k \<and>
    up_merkle_tree up = pubkey_to_string H
      (fst (get_merkle_distributor_pda E program base mint (airdrop_version t))) \<and>
    verify h (up_proof up) (merkle_root t) (claim_leaf h k (up_amount up) 0)"
proof -
  from assms(4) obtain k d n p where k: "pubkey_from_str H user = Some k"
    and node: "sv_tree st k = Some (d, n)" and p: "tn_proof n = Some p"
    and up: "up = \<lparr>up_merkle_tree = pubkey_to_string H d, up_amount = tn_amount n, up_proof = p\<rparr>"
    by (auto simp: get_user_info_def exec_iff amount_def)
  from served_member [OF node [unfolded user_info_served [OF assms(1,2)]]] obtain t where
    t: "t \<in> set ts" and d: "d = fst (get_merkle_distributor_pda E program base mint (airdrop_version t))"
    and "convert_to_hashmap t k = Some n" by blast
  then have n: "n \<in> set (tree_nodes t)" "tn_claimant n = k"
    using convert_to_hashmap_node by blast+
  from t assms(3) obtain ns version where "airdrop_merkle_tree_new h ns version = Inr t" by blast
  from file_claims_verify [OF this n(1)] p n(2)
  have "verify h p (merkle_root t) (claim_leaf h k (tn_amount n) 0)" by auto
  with t k d up show ?thesis by auto
qed

lemma served_proofs_accepted_witness:
  "\<exists>up :: user_proof. up_amount up = 15 \<and>
     verify demo_hash (up_proof up) (merkle_root demo_file) (claim_leaf demo_hash (fill32 5) (up_amount up) 0)"
proof (rule demo_server)
  fix st
  let ?p = "[hash_leaf demo_hash (demo_item 6 20)]"
  let ?user = "[char_of (5 :: nat)]"
  assume st: "start_server demo_host demo (fill32 0) (fill32 1) (fill32 2) [''a.json''] = Inr st"
    and node: "sv_tree st (fill32 5) = Some (fill32 129, demo_node 5 15 (Some ?p))"
  let ?up = "\<lparr>up_merkle_tree = pubkey_to_string demo_host (fill32 129), up_amount = 15, up_proof = ?p\<rparr>"
  have k: "pubkey_from_str demo_host ?user = Some (fill32 5)"
    by (simp add: demo_host_def)
  with node have up: "get_user_info demo_host st ?user = Inr ?up"
    by (simp add: get_user_info_def amount_def)
  have "\<forall>t\<in>set [demo_file]. \<exists>ns version. airdrop_merkle_tree_new demo_hash ns version = Inr t"
    using demo_file_new by auto
  from served_proofs_accepted [OF st demo_loaded this up] k show ?thesis
    by (intro exI [of _ ?up]) auto
qed

lemma served_None_iff:
  "served pda ts k = None \<longleftrightarrow> (\<forall>t\<in>set ts. convert_to_hashmap t k = None)"
  by (induction ts) (auto split: option.splits)

text \<open>
  For files made by the builder the API answers a well-formed key with 200 when one of the loaded files
  has a claim for it and with 404 otherwise; a malformed key is answered with 500.
\<close>

theorem api_statuses:
  assumes "start_server H E program base mint paths = Inr st"
    and "loaded_trees H (sort paths) = Inr ts"
    and "\<forall>t\<in>set ts. \<exists>ns version. airdrop_merkle_tree_new h ns version = Inr t"
  shows "status_code (get_user_info H st user) =
    (case pubkey_from_str H user of
       None \<Rightarrow> 500
     | Some k \<Rightarrow> if \<exists>t\<in>set ts. k \<in> tn_claimant ` set (tree_nodes t) then 200 else 404)"
proof (cases "pubkey_from_str H user")
  case None
  then show ?thesis by (simp add: get_user_info_def status_code_def)
next
  case (Some k)
  note tree = user_info_served [OF assms(1,2)]
  show ?thesis
  proof (cases "sv_tree st k")
    case None
    with assms(3) have "\<not> (\<exists>t\<in>set ts. k \<in> tn_claimant ` set (tree_nodes t))"
      using built_claimants unfolding tree served_None_iff by blast
    with Some None show ?thesis by (simp add: get_user_info_def status_code_def)
  next
    case node: (Some r)
    obtain d n where r: "r = (d, n)" by (cases r)
    from served_member [OF node [unfolded tree r]] obtain t where t: "t \<in> set ts"
      "convert_to_hashmap t k = Some n" by blast
    from convert_to_hashmap_node [OF t(2)] have n: "n \<in> set (tree_nodes t)" "tn_claimant n = k" by auto
    from t(1) assms(3) obtain ns version where "airdrop_merkle_tree_new h ns version = Inr t" by blast
    from file_claims_verify [OF this n(1)] obtain p where "tn_proof n = Some p" by blast
    with Some node r n t(1) show ?thesis by (auto simp: get_user_info_def status_code_def)
  qed
qed

lemma api_statuses_witness:
  "\<exists>st. start_server demo_host demo (fill32 0) (fill32 1) (fill32 2) [''a.json''] = Inr st \<and>
     status_code (get_user_info demo_host st [char_of (5 :: nat)]) = 200 \<and>
     status_code (get_user_info demo_host st [char_of (7 :: nat)]) = 404"
proof (rule demo_server)
  fix st
  assume st: "start_server demo_host demo (fill32 0) (fill32 1) (fill32 2) [''a.json''] = Inr st"
  have "\<forall>t\<in>set [demo_file]. \<exists>ns version. airdrop_merkle_tree_new demo_hash ns version = Inr t"
    using demo_file_new by auto
  from api_statuses [OF st demo_loaded this] st show ?thesis
    by (intro exI [of _ st]) (simp add: demo_host_def)
qed



section \<open>The command line tool\<close>



text \<open>
  \<open>process_claim_from_api\<close> with a destination other than the claimant does not pay it: the
  transfer that it appends goes from the claimant's token account to that same account.
\<close>

theorem api_claim_pays_itself:
  assumes "process_claim_from_api H E program mint fee exists claimant destination_owner answer = Inr ixs"
    and "TokenTransfer src dst owner amt \<in> set ixs"
  shows "src = dst"
  using assms
  by (auto simp: process_claim_from_api_def Let_def exec_iff price_instructions_def
      split: if_splits option.splits)

lemma api_claim_pays_itself_witness:
  "\<exists>src dst ixs. process_claim_from_api demo_host demo (fill32 0) (fill32 2) None (\<lambda>_. True) (fill32 5) (fill32 6)
     \<lparr>up_merkle_tree = [char_of (129 :: nat)], up_amount = 15, up_proof = []\<rparr> = Inr ixs \<and>
     TokenTransfer src dst (fill32 5) 15 \<in> set ixs \<and> src = dst"
proof -
  let ?answer = "\<lparr>up_merkle_tree = [char_of (129 :: nat)], up_amount = 15, up_proof = []\<rparr>"
  obtain ixs where ixs: "process_claim_from_api demo_host demo (fill32 0) (fill32 2) None (\<lambda>_. True)
      (fill32 5) (fill32 6) ?answer = Inr ixs"
    and "TokenTransfer (fill32 7) (fill32 7) (fill32 5) 15 \<in> set ixs"
    by (simp add: process_claim_from_api_def demo_host_def price_instructions_def)
  from api_claim_pays_itself [OF this] this show ?thesis by blast
qed

end
